(* ===== verification/Prelude.thy ===== *)
theory Prelude
  imports Main "HOL-Library.Word" "HOL-Library.AList" "HOL-Library.Product_Lexorder"
    "HOL-Library.List_Lexorder" "HOL-Library.Multiset"
begin

text \<open>
  The vocabulary shared by every component of the development.
  \<^item> Machine integers are words of their width; \<open>usize\<close> counts and lengths are \<open>nat\<close>, with
    the bound \<open>usize_max\<close> of a 64-bit target written out where the source saturates.
  \<^item> \<open>Instant\<close> and \<open>Duration\<close> are \<open>nat\<close> nanoseconds, so \<open>saturating_duration_since\<close> is the
    truncating subtraction of \<open>nat\<close>.
  \<^item> \<open>Result\<close> is a sum with the error on the left, and \<open>and_then\<close> is the \<open>?\<close> operator.
  \<^item> A \<open>HashMap\<close> is an association list with distinct keys. Its list order is the iteration
    order, and the properties quantify over every such list, hence over every iteration order.
  \<^item> \<open>position\<close>, \<open>remove_at\<close>, \<open>update_first\<close>, \<open>min_by_key\<close> and \<open>max_by_key\<close> are the iterator
    and vector operations of the Rust standard library that several components use.
\<close>

unbundle bit_operations_syntax

subsection \<open>Types\<close>

type_synonym u8 = "8 word"
type_synonym u16 = "16 word"
type_synonym u32 = "32 word"
type_synonym u64 = "64 word"
type_synonym u128 = "128 word"
type_synonym usize = nat
type_synonym instant = nat
type_synonym duration = nat
type_synonym bytes = "u8 list"
type_synonym ('a, 'e) result = "'e + 'a"
type_synonym ('k, 'v) hash_map = "('k \<times> 'v) list"

abbreviation Ok :: "'a \<Rightarrow> ('a, 'e) result" where
  "Ok \<equiv> Inr"

abbreviation Err :: "'e \<Rightarrow> ('a, 'e) result" where
  "Err \<equiv> Inl"

named_theorems unfold_ops \<open>unfolding equations of the modelled operations\<close>
named_theorems split_ops \<open>case splits on results and options\<close>

lemmas result_splits [split_ops] = sum.splits option.splits if_splits

definition and_then :: "('a, 'e) result \<Rightarrow> ('a \<Rightarrow> ('b, 'e) result) \<Rightarrow> ('b, 'e) result" where
  "and_then r k = (case r of Inl e \<Rightarrow> Inl e | Inr a \<Rightarrow> k a)"

definition map_err :: "('e \<Rightarrow> 'f) \<Rightarrow> ('a, 'e) result \<Rightarrow> ('a, 'f) result" where
  "map_err f r = (case r of Inl e \<Rightarrow> Inl (f e) | Inr a \<Rightarrow> Inr a)"

definition ok_or :: "'a option \<Rightarrow> 'e \<Rightarrow> ('a, 'e) result" where
  "ok_or x e = (case x of None \<Rightarrow> Inl e | Some a \<Rightarrow> Inr a)"

definition is_none_or :: "('a \<Rightarrow> bool) \<Rightarrow> 'a option \<Rightarrow> bool" where
  "is_none_or p x = (case x of None \<Rightarrow> True | Some a \<Rightarrow> p a)"

definition is_some_and :: "('a \<Rightarrow> bool) \<Rightarrow> 'a option \<Rightarrow> bool" where
  "is_some_and p x = (case x of None \<Rightarrow> False | Some a \<Rightarrow> p a)"

lemma and_then_simps [simp]:
  "and_then (Inl e) k = Inl e"
  "and_then (Inr a) k = k a"
  by (simp_all add: and_then_def)

lemma and_then_Inr_iff: "and_then r k = Inr b \<longleftrightarrow> (\<exists>a. r = Inr a \<and> k a = Inr b)"
  by (auto simp: and_then_def split: sum.splits)

lemma map_err_simps [simp]:
  "map_err f (Inl e) = Inl (f e)"
  "map_err f (Inr a) = Inr a"
  by (simp_all add: map_err_def)

lemma map_err_Inr_iff [simp]: "map_err f r = Inr a \<longleftrightarrow> r = Inr a"
  by (auto simp: map_err_def split: sum.splits)

lemma ok_or_simps [simp]:
  "ok_or None e = Inl e"
  "ok_or (Some a) e = Inr a"
  by (simp_all add: ok_or_def)

lemma ok_or_Inr_iff [simp]: "ok_or x e = Inr a \<longleftrightarrow> x = Some a"
  by (auto simp: ok_or_def split: option.splits)

lemma is_none_or_simps [simp]:
  "is_none_or p None"
  "is_none_or p (Some a) = p a"
  by (simp_all add: is_none_or_def)

lemma is_some_and_simps [simp]:
  "\<not> is_some_and p None"
  "is_some_and p (Some a) = p a"
  by (simp_all add: is_some_and_def)

subsection \<open>Integers\<close>

definition usize_max :: nat where
  "usize_max = 2 ^ 64 - 1"

definition saturating_add_usize :: "usize \<Rightarrow> usize \<Rightarrow> usize" where
  "saturating_add_usize a b = min (a + b) usize_max"

definition saturating_add_word :: "'a::len word \<Rightarrow> 'a word \<Rightarrow> 'a word" where
  "saturating_add_word a b = (if unat a + unat b < 2 ^ LENGTH('a) then a + b else - 1)"

definition saturating_sub_word :: "'a::len word \<Rightarrow> 'a word \<Rightarrow> 'a word" where
  "saturating_sub_word a b = (if b \<le> a then a - b else 0)"

text \<open>\<open>u64::try_from(n).unwrap_or(u64::MAX)\<close> and its \<open>u32\<close> sibling.\<close>

definition clamp_word :: "nat \<Rightarrow> 'a::len word" where
  "clamp_word n = (if n < 2 ^ LENGTH('a) then word_of_nat n else - 1)"

text \<open>Bounds are compared as binary integers when a witness evaluates an operation.\<close>

lemma clamp_word_code [code]:
  "clamp_word n = (if int n < 2 ^ LENGTH('a) then word_of_int (int n) else (- 1 :: 'a::len word))"
  using of_nat_less_iff [of n "2 ^ LENGTH('a)", where 'a = int] by (simp add: clamp_word_def)

lemma saturating_add_word_code [code]:
  "saturating_add_word a b =
     (if uint a + uint b < 2 ^ LENGTH('a) then a + b else (- 1 :: 'a::len word))"
  using of_nat_less_iff [of "unat a + unat b" "2 ^ LENGTH('a)", where 'a = int]
  by (simp add: saturating_add_word_def)

lemma saturating_add_usize_code [code]:
  "saturating_add_usize a b = nat (min (int a + int b) 18446744073709551615)"
  by (simp add: saturating_add_usize_def usize_max_def min_def nat_add_distrib)

lemma saturating_add_exceeds_iff:
  "m < usize_max \<Longrightarrow> m < saturating_add_usize a b \<longleftrightarrow> m < a + b"
  by (auto simp: saturating_add_usize_def)

lemma saturating_add_le_max: "saturating_add_usize a b \<le> usize_max"
  by (simp add: saturating_add_usize_def)

lemma unat_plus_one: "w \<noteq> - 1 \<Longrightarrow> unat (w + 1) = Suc (unat w)" for w :: "'a::len word"
  using unatSuc [of w] by (metis add.commute add_eq_0_iff)

lemma unat_saturating_add_word:
  "unat (saturating_add_word a b :: 'a::len word) = min (unat a + unat b) (2 ^ LENGTH('a) - 1)"
proof (cases "unat a + unat b < 2 ^ LENGTH('a)")
  case True
  then show ?thesis
    by (simp add: saturating_add_word_def unat_add_lem [THEN iffD1])
next
  case False
  then show ?thesis
    by (simp add: saturating_add_word_def unsigned_minus_1_eq_mask mask_eq_exp_minus_1)
qed

lemma unat_saturating_sub_word: "unat (saturating_sub_word a b) = unat a - unat b"
  by (auto simp: saturating_sub_word_def unat_sub word_le_nat_alt)

lemma unat_clamp_word: "unat (clamp_word n :: 'a::len word) = min n (2 ^ LENGTH('a) - 1)"
  by (auto simp: clamp_word_def unsigned_minus_1_eq_mask mask_eq_exp_minus_1 unsigned_of_nat
      take_bit_nat_eq_self)

subsection \<open>Iterators and vectors\<close>

fun position :: "('a \<Rightarrow> bool) \<Rightarrow> 'a list \<Rightarrow> nat option" where
  "position p [] = None"
| "position p (x # xs) = (if p x then Some 0 else map_option Suc (position p xs))"

definition remove_at :: "nat \<Rightarrow> 'a list \<Rightarrow> 'a list" where
  "remove_at i xs = take i xs @ drop (Suc i) xs"

text \<open>\<open>iter_mut().find(p)\<close> followed by a mutation of the element found.\<close>

fun update_first :: "('a \<Rightarrow> bool) \<Rightarrow> ('a \<Rightarrow> 'a) \<Rightarrow> 'a list \<Rightarrow> 'a list" where
  "update_first p f [] = []"
| "update_first p f (x # xs) = (if p x then f x # xs else x # update_first p f xs)"

text \<open>\<open>min_by_key\<close> returns the first minimal element, \<open>max_by_key\<close> the last maximal one.\<close>

fun min_by_key :: "('a \<Rightarrow> 'k::linorder) \<Rightarrow> 'a list \<Rightarrow> 'a option" where
  "min_by_key f [] = None"
| "min_by_key f (x # xs) = Some (fold (\<lambda>y m. if f y < f m then y else m) xs x)"

fun max_by_key :: "('a \<Rightarrow> 'k::linorder) \<Rightarrow> 'a list \<Rightarrow> 'a option" where
  "max_by_key f [] = None"
| "max_by_key f (x # xs) = Some (fold (\<lambda>y m. if f m \<le> f y then y else m) xs x)"

lemma position_None_iff: "position p xs = None \<longleftrightarrow> (\<forall>x \<in> set xs. \<not> p x)"
  by (induction xs) auto

lemma position_SomeD:
  "position p xs = Some i \<Longrightarrow> i < length xs \<and> p (xs ! i) \<and> (\<forall>j < i. \<not> p (xs ! j))"
proof (induction xs arbitrary: i)
  case Nil
  then show ?case by simp
next
  case (Cons x xs)
  show ?case
  proof (cases "p x")
    case True
    with Cons.prems show ?thesis by simp
  next
    case False
    with Cons.prems obtain k where k: "position p xs = Some k" "i = Suc k"
      by auto
    with Cons.IH [of k] False show ?thesis
      by (auto simp: less_Suc_eq_0_disj)
  qed
qed

lemma position_find: "position p xs = Some i \<Longrightarrow> find p xs = Some (xs ! i)"
  by (induction xs arbitrary: i) (auto split: if_splits)

lemma position_Some_takeWhile:
  "position p xs = Some i \<Longrightarrow> i = length (takeWhile (\<lambda>x. \<not> p x) xs)"
  by (induction xs arbitrary: i) (auto split: if_splits)

lemma drop_length_takeWhile: "drop (length (takeWhile p xs)) xs = dropWhile p xs"
  by (induction xs) auto

lemma remove_at_split:
  "i < length xs \<Longrightarrow> mset xs = add_mset (xs ! i) (mset (remove_at i xs))"
  by (subst id_take_nth_drop [of i xs]) (simp_all add: remove_at_def)

lemma length_remove_at: "i < length xs \<Longrightarrow> length (remove_at i xs) = length xs - 1"
  by (simp add: remove_at_def)

lemma set_remove_at_subset: "set (remove_at i xs) \<subseteq> set xs"
  by (auto simp: remove_at_def dest: in_set_takeD in_set_dropD)

lemma length_update_first [simp]: "length (update_first p f xs) = length xs"
  by (induction xs) auto

lemma update_first_none: "(\<And>x. x \<in> set xs \<Longrightarrow> \<not> p x) \<Longrightarrow> update_first p f xs = xs"
  by (induction xs) auto

lemma update_first_append:
  "(\<And>u. u \<in> set us \<Longrightarrow> \<not> p u) \<Longrightarrow> p x \<Longrightarrow> update_first p f (us @ x # vs) = us @ f x # vs"
  by (induction us) auto

lemma find_splitE:
  assumes "find p xs = Some x"
  obtains us vs where "xs = us @ x # vs" and "\<And>u. u \<in> set us \<Longrightarrow> \<not> p u" and "p x"
proof -
  from assms have "\<exists>us vs. xs = us @ x # vs \<and> (\<forall>u \<in> set us. \<not> p u) \<and> p x"
  proof (induction xs)
    case (Cons y ys)
    then show ?case
      by (cases "p y") (fastforce intro: exI [of _ "[]"], metis append_Cons find.simps(2) set_ConsD)
  qed simp
  then show ?thesis using that by blast
qed

lemma list_ex_find: "list_ex p xs \<longleftrightarrow> find p xs \<noteq> None"
  by (induction xs) auto

lemma fold_min_by_key:
  fixes f :: "'a \<Rightarrow> 'k::linorder"
  defines "step \<equiv> \<lambda>y m. if f y < f m then y else m"
  shows "fold step xs x \<in> insert x (set xs) \<and> (\<forall>y \<in> insert x (set xs). f (fold step xs x) \<le> f y)"
proof (induction xs arbitrary: x)
  case Nil
  then show ?case by simp
next
  case (Cons y ys)
  have "f (step y x) \<le> f x" "f (step y x) \<le> f y" "step y x \<in> {x, y}"
    by (auto simp: step_def)
  with Cons.IH [of "step y x"] show ?case
    by (auto intro: order_trans)
qed

lemma fold_max_by_key:
  fixes f :: "'a \<Rightarrow> 'k::linorder"
  defines "step \<equiv> \<lambda>y m. if f m \<le> f y then y else m"
  shows "fold step xs x \<in> insert x (set xs) \<and> (\<forall>y \<in> insert x (set xs). f y \<le> f (fold step xs x))"
proof (induction xs arbitrary: x)
  case Nil
  then show ?case by simp
next
  case (Cons y ys)
  have "f x \<le> f (step y x)" "f y \<le> f (step y x)" "step y x \<in> {x, y}"
    by (auto simp: step_def)
  with Cons.IH [of "step y x"] show ?case
    by (auto intro: order_trans)
qed

lemma min_by_key_None_iff [simp]: "min_by_key f xs = None \<longleftrightarrow> xs = []"
  by (cases xs) auto

lemma max_by_key_None_iff [simp]: "max_by_key f xs = None \<longleftrightarrow> xs = []"
  by (cases xs) auto

lemma min_by_key_SomeD:
  "min_by_key f xs = Some m \<Longrightarrow> m \<in> set xs \<and> (\<forall>y \<in> set xs. f m \<le> f y)"
  using fold_min_by_key [of f] by (cases xs) auto

lemma max_by_key_SomeD:
  "max_by_key f xs = Some m \<Longrightarrow> m \<in> set xs \<and> (\<forall>y \<in> set xs. f y \<le> f m)"
  using fold_max_by_key [of f] by (cases xs) auto

subsection \<open>Big-endian integers\<close>

fun to_be_bytes :: "nat \<Rightarrow> 'a::len word \<Rightarrow> bytes" where
  "to_be_bytes 0 w = []"
| "to_be_bytes (Suc n) w = to_be_bytes n (drop_bit 8 w) @ [ucast w]"

definition from_be_bytes :: "bytes \<Rightarrow> 'a::len word" where
  "from_be_bytes bs = foldl (\<lambda>acc b. push_bit 8 acc OR ucast b) 0 bs"

lemma length_to_be_bytes [simp]: "length (to_be_bytes n w) = n"
  by (induction n arbitrary: w) auto

lemma from_be_bytes_snoc:
  "from_be_bytes (bs @ [b]) = push_bit 8 (from_be_bytes bs) OR ucast b"
  by (simp add: from_be_bytes_def)

lemma from_to_be_bytes:
  "from_be_bytes (to_be_bytes n w) = (take_bit (8 * n) w :: 'a::len word)"
proof (induction n arbitrary: w)
  case 0
  then show ?case by (simp add: from_be_bytes_def)
next
  case (Suc n)
  have "push_bit 8 (take_bit (8 * n) (drop_bit 8 w)) OR ucast (ucast w :: u8) =
    take_bit (8 * Suc n) w"
    by (rule bit_word_eqI)
      (auto simp: bit_simps less_diff_conv)
  then show ?case by (simp add: Suc.IH from_be_bytes_snoc)
qed

lemma from_to_be_bytes_full:
  "LENGTH('a) \<le> 8 * n \<Longrightarrow> from_be_bytes (to_be_bytes n w) = (w :: 'a::len word)"
  by (simp add: from_to_be_bytes take_bit_word_eq_self)

lemma to_be_bytes_inj:
  "LENGTH('a) \<le> 8 * n \<Longrightarrow> to_be_bytes n v = to_be_bytes n w \<longleftrightarrow> v = (w :: 'a::len word)"
  by (metis from_to_be_bytes_full)

lemma bit_from_be_bytes_bound:
  "bit (from_be_bytes bs :: 'a::len word) n \<Longrightarrow> n < 8 * length bs"
proof (induction bs arbitrary: n rule: rev_induct)
  case Nil
  then show ?case by (simp add: from_be_bytes_def)
next
  case (snoc c cs)
  show ?case
  proof (cases "n < 8")
    case False
    with snoc.prems have "bit (from_be_bytes cs :: 'a word) (n - 8)"
      by (auto simp: from_be_bytes_snoc bit_simps dest: bit_imp_le_length)
    with snoc.IH have "n - 8 < 8 * length cs" by simp
    then show ?thesis using False by simp
  qed simp
qed

lemma drop_bit_8_from_be_bytes:
  fixes b :: u8
  assumes "8 * length bs + 8 \<le> LENGTH('a)"
  shows "drop_bit 8 (push_bit 8 (from_be_bytes bs) OR ucast b) = (from_be_bytes bs :: 'a::len word)"
proof -
  have "8 + n < LENGTH('a)" if "bit (from_be_bytes bs :: 'a word) n" for n
    using bit_from_be_bytes_bound [OF that] assms by simp
  moreover have "\<not> bit b (8 + n)" for n
    using bit_imp_le_length [of b "8 + n"] by auto
  ultimately show ?thesis
    by (intro bit_word_eqI) (auto simp: bit_simps dest: bit_imp_le_length)
qed

lemma to_from_be_bytes:
  "8 * length bs \<le> LENGTH('a) \<Longrightarrow>
     to_be_bytes (length bs) (from_be_bytes bs :: 'a::len word) = bs"
proof (induction bs rule: rev_induct)
  case Nil
  then show ?case by simp
next
  case (snoc b bs)
  have low: "ucast (push_bit 8 (from_be_bytes bs :: 'a word) OR ucast b) = b"
    using snoc.prems by (intro bit_word_eqI) (auto simp: bit_simps)
  have high: "drop_bit 8 (push_bit 8 (from_be_bytes bs :: 'a word) OR ucast b) = from_be_bytes bs"
    using snoc.prems by (intro drop_bit_8_from_be_bytes) simp
  show ?case
    using snoc by (simp add: from_be_bytes_snoc low high del: drop_bit_or)
qed

subsection \<open>Hash maps\<close>

definition hm_wf :: "('k, 'v) hash_map \<Rightarrow> bool" where
  "hm_wf m \<longleftrightarrow> distinct (map fst m)"

definition hm_get :: "('k, 'v) hash_map \<Rightarrow> 'k \<Rightarrow> 'v option" where
  "hm_get m k = map_of m k"

definition hm_contains :: "('k, 'v) hash_map \<Rightarrow> 'k \<Rightarrow> bool" where
  "hm_contains m k \<longleftrightarrow> hm_get m k \<noteq> None"

definition hm_insert :: "('k, 'v) hash_map \<Rightarrow> 'k \<Rightarrow> 'v \<Rightarrow> ('k, 'v) hash_map" where
  "hm_insert m k v = AList.update k v m"

definition hm_remove :: "('k, 'v) hash_map \<Rightarrow> 'k \<Rightarrow> ('k, 'v) hash_map" where
  "hm_remove m k = AList.delete k m"

definition hm_retain :: "('k \<Rightarrow> 'v \<Rightarrow> bool) \<Rightarrow> ('k, 'v) hash_map \<Rightarrow> ('k, 'v) hash_map" where
  "hm_retain p m = filter (\<lambda>(k, v). p k v) m"

lemma hm_wf_Nil [simp]: "hm_wf []"
  by (simp add: hm_wf_def)

lemma hm_get_Nil [simp]: "hm_get [] k = None"
  by (simp add: hm_get_def)

lemma hm_get_insert [simp]:
  "hm_get (hm_insert m k v) j = (if j = k then Some v else hm_get m j)"
  by (simp add: hm_get_def hm_insert_def update_conv)

lemma hm_get_remove [simp]: "hm_get (hm_remove m k) j = (if j = k then None else hm_get m j)"
  by (simp add: hm_get_def hm_remove_def delete_conv)

lemma hm_get_Some_iff: "hm_wf m \<Longrightarrow> hm_get m k = Some v \<longleftrightarrow> (k, v) \<in> set m"
  by (simp add: hm_get_def hm_wf_def)

lemma hm_get_SomeD: "hm_get m k = Some v \<Longrightarrow> (k, v) \<in> set m"
  by (simp add: hm_get_def map_of_SomeD)

lemma hm_get_None_iff: "hm_get m k = None \<longleftrightarrow> k \<notin> fst ` set m"
  by (simp add: hm_get_def map_of_eq_None_iff)

lemma hm_contains_iff: "hm_contains m k \<longleftrightarrow> k \<in> fst ` set m"
  by (simp add: hm_contains_def hm_get_None_iff)

lemma hm_wf_insert [simp]: "hm_wf m \<Longrightarrow> hm_wf (hm_insert m k v)"
  by (simp add: hm_wf_def hm_insert_def distinct_update)

lemma hm_wf_remove [simp]: "hm_wf m \<Longrightarrow> hm_wf (hm_remove m k)"
  by (simp add: hm_wf_def hm_remove_def distinct_delete)

lemma hm_wf_retain [simp]: "hm_wf m \<Longrightarrow> hm_wf (hm_retain p m)"
  by (simp add: hm_wf_def hm_retain_def distinct_map_filter)

lemma hm_get_retain:
  "hm_wf m \<Longrightarrow>
     hm_get (hm_retain p m) k =
       (case hm_get m k of None \<Rightarrow> None | Some v \<Rightarrow> if p k v then Some v else None)"
proof (induction m)
  case Nil
  then show ?case by (simp add: hm_retain_def)
next
  case (Cons kv m)
  obtain k' v' where kv: "kv = (k', v')" by force
  from Cons.prems have "hm_wf m" "k' \<notin> fst ` set m"
    by (auto simp: hm_wf_def kv)
  moreover from this(2) have "hm_get (hm_retain p m) k' = None"
    by (auto simp: hm_get_None_iff hm_retain_def)
  ultimately show ?case
    using Cons.IH by (auto simp: hm_retain_def hm_get_def kv split: option.splits)
qed

lemma length_hm_insert:
  "length (hm_insert m k v) = (if hm_contains m k then length m else Suc (length m))"
  by (induction m) (auto simp: hm_insert_def hm_contains_def hm_get_def)

lemma length_hm_remove:
  "hm_wf m \<Longrightarrow> length (hm_remove m k) = (if hm_contains m k then length m - 1 else length m)"
proof (induction m)
  case Nil
  then show ?case by (simp add: hm_remove_def hm_contains_def)
next
  case (Cons kv m)
  obtain k' v' where kv: "kv = (k', v')" by force
  from Cons.prems have wf: "hm_wf m" and fresh: "k' \<notin> fst ` set m"
    by (auto simp: hm_wf_def kv)
  show ?case
  proof (cases "k = k'")
    case True
    with fresh have "AList.delete k m = m" by (simp add: delete_idem)
    with True show ?thesis by (simp add: kv hm_remove_def hm_contains_def hm_get_def)
  next
    case False
    have "hm_contains m k \<Longrightarrow> m \<noteq> []" by (auto simp: hm_contains_def)
    with False Cons.IH [OF wf] show ?thesis
      by (auto simp: kv hm_remove_def hm_contains_def hm_get_def Suc_diff_Suc)
  qed
qed

lemma length_hm_retain: "length (hm_retain p m) \<le> length m"
  by (simp add: hm_retain_def)

lemma hm_contains_insert: "hm_contains (hm_insert m k v) j \<longleftrightarrow> j = k \<or> hm_contains m j"
  by (simp add: hm_contains_def)

lemma hm_contains_remove: "hm_contains (hm_remove m k) j \<longleftrightarrow> j \<noteq> k \<and> hm_contains m j"
  by (simp add: hm_contains_def)

text \<open>Mapping the values of a hash map.\<close>

lemma hm_map_values:
  "hm_get (map (\<lambda>(k, v). (k, g v)) m) k = map_option g (hm_get m k)"
  "hm_wf (map (\<lambda>(k, v). (k, g v)) m) \<longleftrightarrow> hm_wf m"
  "hm_contains (map (\<lambda>(k, v). (k, g v)) m) k \<longleftrightarrow> hm_contains m k"
proof -
  show get: "hm_get (map (\<lambda>(k, v). (k, g v)) m) k = map_option g (hm_get m k)" for k
    by (induction m) (auto simp: hm_get_def)
  have "map fst (map (\<lambda>(k, v). (k, g v)) m) = map fst m" by (induction m) auto
  then show "hm_wf (map (\<lambda>(k, v). (k, g v)) m) \<longleftrightarrow> hm_wf m" unfolding hm_wf_def by (simp only:)
  show "hm_contains (map (\<lambda>(k, v). (k, g v)) m) k \<longleftrightarrow> hm_contains m k"
    by (simp add: hm_contains_def get)
qed

text \<open>The entries of a hash map as a multiset.\<close>

lemma set_hm_insert_eq:
  assumes "hm_wf m"
  shows "set (hm_insert m k v) = insert (k, v) {e \<in> set m. fst e \<noteq> k}"
proof -
  have "e \<in> set (hm_insert m k v) \<longleftrightarrow> e = (k, v) \<or> e \<in> set m \<and> fst e \<noteq> k" for e
    using hm_get_Some_iff [of "hm_insert m k v" "fst e" "snd e"] hm_get_Some_iff [of m "fst e" "snd e"] assms
    by (cases e) (auto split: if_splits)
  then show ?thesis by blast
qed

lemma mset_hm_insert: "\<not> hm_contains m k \<Longrightarrow> mset (hm_insert m k v) = add_mset (k, v) (mset m)"
  by (induction m) (auto simp: hm_contains_def hm_get_def hm_insert_def)

lemma mset_hm_remove: "hm_wf m \<Longrightarrow> hm_get m k = Some v \<Longrightarrow> add_mset (k, v) (mset (hm_remove m k)) = mset m"
proof (induction m)
  case (Cons kv m)
  obtain k' v' where kv: "kv = (k', v')" by force
  from Cons.prems(1) have wf: "hm_wf m" "k' \<notin> fst ` set m" by (auto simp: hm_wf_def kv)
  show ?case
  proof (cases "k = k'")
    case True
    with wf(2) have "AList.delete k m = m" by (simp add: delete_idem)
    with True Cons.prems(2) show ?thesis by (simp add: kv hm_remove_def hm_get_def)
  next
    case False
    with Cons.prems(2) have "hm_get m k = Some v" by (auto simp: kv hm_get_def)
    with Cons.IH [OF wf(1)] False show ?thesis by (simp add: kv hm_remove_def add_mset_commute)
  qed
qed simp

end
