(* ===== verification/Peer.thy ===== *)
theory Peer
  imports Prelude
begin

text \<open>
  The crate root \<open>src/src/lib.rs\<close>: overlay peer identities with their hexadecimal text form, and
  the kinds of transport path with their scores and wire names. Text is a list of UTF-8 bytes.
  The libp2p identity type, its parser, its byte form and SHA-256 are not code of this repository:
  they are the parameters \<open>parse_libp2p\<close>, \<open>libp2p_to_bytes\<close> and \<open>sha256\<close>.
\<close>

subsection \<open>Overlay peer identities\<close>

datatype peer_id = PeerId (as_bytes: bytes)

definition peer_id_wf :: "peer_id \<Rightarrow> bool" where
  "peer_id_wf p \<longleftrightarrow> length (as_bytes p) = 32"

definition from_libp2p :: "(bytes \<Rightarrow> bytes) \<Rightarrow> ('l \<Rightarrow> bytes) \<Rightarrow> 'l \<Rightarrow> peer_id" where
  "from_libp2p sha256 libp2p_to_bytes peer = PeerId (sha256 (libp2p_to_bytes peer))"

definition hex_digit :: "u8 \<Rightarrow> u8" where
  "hex_digit n = (if n < 10 then 48 + n else 87 + n)"

definition peer_id_display :: "peer_id \<Rightarrow> bytes" where
  "peer_id_display p =
     concat (map (\<lambda>byte. [hex_digit (drop_bit 4 byte), hex_digit (byte AND 15)]) (as_bytes p))"

datatype peer_id_parse_error = InvalidLength usize | InvalidHex u8

definition decode_hex :: "u8 \<Rightarrow> (u8, peer_id_parse_error) result" where
  "decode_hex byte =
     (if 48 \<le> byte \<and> byte \<le> 57 then Ok (byte - 48)
      else if 97 \<le> byte \<and> byte \<le> 102 then Ok (byte - 97 + 10)
      else if 65 \<le> byte \<and> byte \<le> 70 then Ok (byte - 65 + 10)
      else Err (InvalidHex byte))"

fun decode_hex_pairs :: "bytes \<Rightarrow> (bytes, peer_id_parse_error) result" where
  "decode_hex_pairs (h # l # rest) =
     and_then (decode_hex h) (\<lambda>high.
     and_then (decode_hex l) (\<lambda>low.
     and_then (decode_hex_pairs rest) (\<lambda>bytes.
       Ok ((push_bit 4 high OR low) # bytes))))"
| "decode_hex_pairs _ = Ok []"

definition peer_id_from_str ::
    "(bytes \<Rightarrow> 'l option) \<Rightarrow> (bytes \<Rightarrow> bytes) \<Rightarrow> ('l \<Rightarrow> bytes) \<Rightarrow> bytes \<Rightarrow>
     (peer_id, peer_id_parse_error) result" where
  "peer_id_from_str parse_libp2p sha256 libp2p_to_bytes input =
     (case parse_libp2p input of
        Some peer \<Rightarrow> Ok (from_libp2p sha256 libp2p_to_bytes peer)
      | None \<Rightarrow>
          if length input \<noteq> 64 then Err (InvalidLength (length input))
          else and_then (decode_hex_pairs input) (\<lambda>bytes. Ok (PeerId bytes)))"

subsection \<open>Kinds of path\<close>

datatype path_kind =
  DirectUdpDatagram | DirectQuicDatagram | DirectQuicStream | DirectTcpStream | CircuitRelay

fun default_score :: "path_kind \<Rightarrow> u16" where
  "default_score DirectUdpDatagram = 95"
| "default_score DirectQuicDatagram = 100"
| "default_score DirectQuicStream = 75"
| "default_score DirectTcpStream = 40"
| "default_score CircuitRelay = 30"

fun path_kind_wire_name :: "path_kind \<Rightarrow> string" where
  "path_kind_wire_name DirectUdpDatagram = ''direct_udp_datagram''"
| "path_kind_wire_name DirectQuicDatagram = ''direct_quic_datagram''"
| "path_kind_wire_name DirectQuicStream = ''direct_quic_stream''"
| "path_kind_wire_name DirectTcpStream = ''direct_tcp_stream''"
| "path_kind_wire_name CircuitRelay = ''circuit_relay''"

definition path_kind_from_wire_name :: "string \<Rightarrow> path_kind option" where
  "path_kind_from_wire_name name =
     (if name = ''direct_udp_datagram'' then Some DirectUdpDatagram
      else if name = ''direct_quic_datagram'' then Some DirectQuicDatagram
      else if name = ''direct_quic_stream'' then Some DirectQuicStream
      else if name = ''direct_tcp_stream'' then Some DirectTcpStream
      else if name = ''circuit_relay'' then Some CircuitRelay
      else None)"

definition requires_quic_datagrams :: "path_kind \<Rightarrow> bool" where
  "requires_quic_datagrams kind \<longleftrightarrow> kind = DirectUdpDatagram \<or> kind = DirectQuicDatagram"

subsection \<open>The text form determines the identity\<close>

lemma nibble_bounds:
  fixes byte :: u8
  shows "drop_bit 4 byte < 16" and "byte AND 15 < 16"
proof -
  have "unat byte < 256" using unsigned_less [of byte, where 'a = nat] by simp
  then have "unat (drop_bit 4 byte) < 16"
    by (simp add: drop_bit_eq_div unat_div less_mult_imp_div_less)
  then show "drop_bit 4 byte < 16" by (simp add: word_less_nat_alt)
  have "byte AND 15 \<le> 15" by (rule word_and_le1)
  then show "byte AND 15 < 16" by (rule order.strict_trans1) simp
qed

lemma decode_hex_digits:
  "list_all (\<lambda>k. decode_hex (hex_digit (word_of_nat k)) = Ok (word_of_nat k)) [0..<16]"
  by code_simp

lemma decode_hex_hex_digit:
  assumes "n < 16"
  shows "decode_hex (hex_digit n) = Ok n"
proof -
  from assms have "unat n \<in> set [0..<16]" by (simp add: word_less_nat_alt)
  with decode_hex_digits
  have "decode_hex (hex_digit (word_of_nat (unat n))) = Ok (word_of_nat (unat n))"
    by (auto simp only: list_all_iff)
  then show ?thesis by simp
qed

lemma nibbles_join: "push_bit 4 (drop_bit 4 byte) OR (byte AND 15) = (byte :: u8)"
proof -
  have "(15 :: u8) = mask 4" by (simp add: mask_eq_exp_minus_1)
  then have "push_bit 4 (drop_bit 4 byte) OR (byte AND 15) =
      push_bit 4 (drop_bit 4 byte) OR take_bit 4 byte"
    by (simp add: take_bit_eq_mask)
  also have "\<dots> = byte"
    by (rule bit_word_eqI) (auto simp: bit_simps)
  finally show ?thesis .
qed

lemma decode_hex_pairs_display:
  "decode_hex_pairs (concat (map (\<lambda>b. [hex_digit (drop_bit 4 b), hex_digit (b AND 15)]) bs)) = Ok bs"
  by (induction bs) (simp_all add: decode_hex_hex_digit nibble_bounds nibbles_join)

lemma length_peer_id_display: "length (peer_id_display p) = 2 * length (as_bytes p)"
proof -
  have "length (concat (map (\<lambda>b. [f b, g b]) bs)) = 2 * length bs" for f g :: "u8 \<Rightarrow> u8" and bs
    by (induction bs) auto
  then show ?thesis by (simp add: peer_id_display_def)
qed

lemma decode_hex_pairs_length:
  "decode_hex_pairs input = Ok bs \<Longrightarrow> length bs = length input div 2"
  by (induction input arbitrary: bs rule: decode_hex_pairs.induct)
    (auto simp: and_then_Inr_iff)

text \<open>
  Parsing the printed form of an overlay identity gives that identity back, whenever the text
  is not itself a libp2p identity.
\<close>

lemma peer_id_text_round_trip:
  assumes "peer_id_wf p" and "parse_libp2p (peer_id_display p) = None"
  shows "peer_id_from_str parse_libp2p sha256 libp2p_to_bytes (peer_id_display p) = Ok p"
  using assms
  by (simp add: peer_id_from_str_def peer_id_wf_def length_peer_id_display)
    (simp add: peer_id_display_def decode_hex_pairs_display)

lemma path_kind_wire_name_round_trip: "path_kind_from_wire_name (path_kind_wire_name kind) = Some kind"
  by (cases kind) (simp_all add: path_kind_from_wire_name_def)

end
