(* ===== verification/Wire.thy ===== *)
theory Wire
  imports Peer
begin

text \<open>
  The packet framing of \<open>src/src/wire.rs\<close>: the 17-byte header, its encoder and decoder, and frames
  built from a payload. Version, flags and the payload type take one byte each, followed by the
  big-endian session identifier (4 bytes), sequence number (8 bytes) and payload length (2 bytes).
\<close>

type_synonym sequence = u64
type_synonym session_id = u32

definition WIRE_VERSION :: u8 where
  "WIRE_VERSION = 1"

definition HEADER_LEN :: usize where
  "HEADER_LEN = 17"

definition MAX_PAYLOAD_LEN :: usize where
  "MAX_PAYLOAD_LEN = 65535"

datatype payload_type = IpPacket | Keepalive | PathProbe

datatype decode_error =
    Truncated usize usize
  | UnsupportedVersion u8
  | UnknownPayloadType u8

fun payload_type_byte :: "payload_type \<Rightarrow> u8" where
  "payload_type_byte IpPacket = 0"
| "payload_type_byte Keepalive = 1"
| "payload_type_byte PathProbe = 2"

definition payload_type_try_from :: "u8 \<Rightarrow> (payload_type, decode_error) result" where
  "payload_type_try_from v =
     (if v = 0 then Ok IpPacket
      else if v = 1 then Ok Keepalive
      else if v = 2 then Ok PathProbe
      else Err (UnknownPayloadType v))"

record header =
  hdr_version :: u8
  hdr_flags :: u8
  hdr_payload_type :: payload_type
  hdr_session_id :: session_id
  hdr_sequence :: sequence
  hdr_payload_len :: u16

definition header_new :: "payload_type \<Rightarrow> session_id \<Rightarrow> sequence \<Rightarrow> u16 \<Rightarrow> header" where
  "header_new payload_type session_id sequence payload_len =
     \<lparr>hdr_version = WIRE_VERSION, hdr_flags = 0, hdr_payload_type = payload_type,
      hdr_session_id = session_id, hdr_sequence = sequence, hdr_payload_len = payload_len\<rparr>"

definition header_encode :: "header \<Rightarrow> bytes" where
  "header_encode h =
     [hdr_version h, hdr_flags h, payload_type_byte (hdr_payload_type h)]
       @ to_be_bytes 4 (hdr_session_id h)
       @ to_be_bytes 8 (hdr_sequence h)
       @ to_be_bytes 2 (hdr_payload_len h)"

definition slice :: "nat \<Rightarrow> nat \<Rightarrow> 'a list \<Rightarrow> 'a list" where
  "slice from to xs = take (to - from) (drop from xs)"

definition header_decode :: "bytes \<Rightarrow> (header, decode_error) result" where
  "header_decode input =
     (if length input < HEADER_LEN then Err (Truncated (length input) HEADER_LEN)
      else
        let version = input ! 0 in
        if version \<noteq> WIRE_VERSION then Err (UnsupportedVersion version)
        else
          and_then (payload_type_try_from (input ! 2)) (\<lambda>payload_type.
            Ok \<lparr>hdr_version = version, hdr_flags = input ! 1, hdr_payload_type = payload_type,
                hdr_session_id = from_be_bytes (slice 3 7 input),
                hdr_sequence = from_be_bytes (slice 7 15 input),
                hdr_payload_len = from_be_bytes (slice 15 17 input)\<rparr>))"

record frame =
  frame_header :: header
  frame_payload :: bytes

datatype frame_error = PayloadTooLarge usize usize

definition frame_new ::
    "payload_type \<Rightarrow> session_id \<Rightarrow> sequence \<Rightarrow> bytes \<Rightarrow> (frame, frame_error) result" where
  "frame_new payload_type session_id sequence payload =
     (if length payload \<le> MAX_PAYLOAD_LEN
      then Ok \<lparr>frame_header =
                 header_new payload_type session_id sequence (word_of_nat (length payload)),
               frame_payload = payload\<rparr>
      else Err (PayloadTooLarge (length payload) MAX_PAYLOAD_LEN))"

definition frame_packet :: "session_id \<Rightarrow> sequence \<Rightarrow> bytes \<Rightarrow> (frame, frame_error) result" where
  "frame_packet session_id sequence payload = frame_new IpPacket session_id sequence payload"

definition frame_keepalive :: "session_id \<Rightarrow> sequence \<Rightarrow> (frame, frame_error) result" where
  "frame_keepalive session_id sequence = frame_new Keepalive session_id sequence []"

definition frame_path_probe :: "session_id \<Rightarrow> sequence \<Rightarrow> bytes \<Rightarrow> (frame, frame_error) result" where
  "frame_path_probe session_id sequence payload = frame_new PathProbe session_id sequence payload"

definition frame_encode :: "frame \<Rightarrow> bytes" where
  "frame_encode f = header_encode (frame_header f) @ frame_payload f"

text \<open>A frame whose header describes it: the current version and the length of its payload.\<close>

definition frame_wf :: "frame \<Rightarrow> bool" where
  "frame_wf f \<longleftrightarrow>
     hdr_version (frame_header f) = WIRE_VERSION \<and>
     unat (hdr_payload_len (frame_header f)) = length (frame_payload f)"

subsection \<open>Headers\<close>

lemma payload_type_round_trip [simp]:
  "payload_type_try_from (payload_type_byte t) = Ok t"
  by (cases t) (simp_all add: payload_type_try_from_def)

lemma payload_type_try_from_Ok:
  "payload_type_try_from v = Ok t \<longleftrightarrow> v = payload_type_byte t"
  by (cases t) (auto simp: payload_type_try_from_def split: if_splits)

lemma length_header_encode [simp]: "length (header_encode h) = HEADER_LEN"
  by (simp add: header_encode_def HEADER_LEN_def)

lemma slice_append3:
  "length xs = from \<Longrightarrow> length ys = to - from \<Longrightarrow> slice from to (xs @ ys @ zs) = ys"
  by (simp add: slice_def)

lemma header_encode_slices:
  "slice 3 7 (header_encode h @ rest) = to_be_bytes 4 (hdr_session_id h)"
  "slice 7 15 (header_encode h @ rest) = to_be_bytes 8 (hdr_sequence h)"
  "slice 15 17 (header_encode h @ rest) = to_be_bytes 2 (hdr_payload_len h)"
  by (simp_all add: slice_def header_encode_def del: to_be_bytes.simps)

lemma header_encode_nths:
  "(header_encode h @ rest) ! 0 = hdr_version h"
  "(header_encode h @ rest) ! Suc 0 = hdr_flags h"
  "(header_encode h @ rest) ! 2 = payload_type_byte (hdr_payload_type h)"
  by (simp_all add: header_encode_def nth_append)

lemma header_decode_encode:
  "header_decode (header_encode h @ rest) =
     (if hdr_version h = WIRE_VERSION then Ok h else Err (UnsupportedVersion (hdr_version h)))"
  by (simp add: header_decode_def header_encode_slices header_encode_nths from_to_be_bytes_full
      Let_def)

lemma slice_split_header:
  assumes "HEADER_LEN \<le> length input"
  shows "take HEADER_LEN input =
     [input ! 0, input ! 1, input ! 2] @ slice 3 7 input @ slice 7 15 input @ slice 15 17 input"
proof -
  have "take 17 input = take 3 input @ slice 3 7 input @ slice 7 15 input @ slice 15 17 input"
    using take_add [where i = 3 and j = 4 and xs = input]
      take_add [where i = 7 and j = 8 and xs = input]
      take_add [where i = 15 and j = 2 and xs = input]
    by (simp add: slice_def)
  moreover have "take 3 input = [input ! 0, input ! 1, input ! 2]"
    using assms by (auto simp: HEADER_LEN_def eval_nat_numeral Suc_le_length_iff)
  ultimately show ?thesis by (simp add: HEADER_LEN_def)
qed

lemma header_decode_Ok_encode:
  assumes "header_decode input = Ok h"
  shows "take HEADER_LEN input = header_encode h" and "hdr_version h = WIRE_VERSION"
    and "HEADER_LEN \<le> length input"
proof -
  from assms show len: "HEADER_LEN \<le> length input"
    by (simp add: header_decode_def split: if_splits)
  then have slices: "length (slice 3 7 input) = 4" "length (slice 7 15 input) = 8"
    "length (slice 15 17 input) = 2"
    by (simp_all add: slice_def HEADER_LEN_def)
  from assms len obtain t where
    t: "payload_type_try_from (input ! 2) = Ok t" and ver: "input ! 0 = WIRE_VERSION" and
    h: "h = \<lparr>hdr_version = input ! 0, hdr_flags = input ! 1, hdr_payload_type = t,
             hdr_session_id = from_be_bytes (slice 3 7 input),
             hdr_sequence = from_be_bytes (slice 7 15 input),
             hdr_payload_len = from_be_bytes (slice 15 17 input)\<rparr>"
    by (auto simp: header_decode_def Let_def and_then_Inr_iff split: if_splits)
  from ver h show "hdr_version h = WIRE_VERSION" by simp
  have "to_be_bytes 4 (from_be_bytes (slice 3 7 input) :: u32) = slice 3 7 input"
    "to_be_bytes 8 (from_be_bytes (slice 7 15 input) :: u64) = slice 7 15 input"
    "to_be_bytes 2 (from_be_bytes (slice 15 17 input) :: u16) = slice 15 17 input"
    using to_from_be_bytes [of "slice 3 7 input", where 'a = 32]
      to_from_be_bytes [of "slice 7 15 input", where 'a = 64]
      to_from_be_bytes [of "slice 15 17 input", where 'a = 16]
    by (simp_all add: slices)
  moreover from t have "input ! 2 = payload_type_byte t"
    by (simp add: payload_type_try_from_Ok)
  ultimately show "take HEADER_LEN input = header_encode h"
    using slice_split_header [OF len] by (simp add: h header_encode_def)
qed

text \<open>
  the decoder accepts exactly the encodings of headers of the supported version. It gives back
  the header that was encoded, ignores what follows the 17 header bytes, and accepts no second
  encoding of the same header.
\<close>

theorem header_decode_iff_encoded:
  "header_decode input = Ok h \<longleftrightarrow>
     hdr_version h = WIRE_VERSION \<and> (\<exists>rest. input = header_encode h @ rest)"
proof
  assume dec: "header_decode input = Ok h"
  from header_decode_Ok_encode(1) [OF dec] have "input = header_encode h @ drop HEADER_LEN input"
    by (metis append_take_drop_id)
  with header_decode_Ok_encode(2) [OF dec]
  show "hdr_version h = WIRE_VERSION \<and> (\<exists>rest. input = header_encode h @ rest)" by blast
next
  assume "hdr_version h = WIRE_VERSION \<and> (\<exists>rest. input = header_encode h @ rest)"
  then show "header_decode input = Ok h" by (auto simp: header_decode_encode)
qed

text \<open>
  The header decoder rejects for the reason the source gives, in the order it checks: too few
  bytes, then an unsupported version, then an unknown payload type.
\<close>

lemma header_decode_error_iff:
  "header_decode input = Err e \<longleftrightarrow>
     (if length input < 17 then e = Truncated (length input) 17
      else if input ! 0 \<noteq> 1 then e = UnsupportedVersion (input ! 0)
      else input ! 2 \<notin> {0, 1, 2} \<and> e = UnknownPayloadType (input ! 2))"
  by (auto simp: header_decode_def HEADER_LEN_def WIRE_VERSION_def Let_def and_then_def
      payload_type_try_from_def)

subsection \<open>Frames\<close>

lemma frame_new_wf: "frame_new t s q payload = Ok f \<Longrightarrow> frame_wf f \<and> frame_payload f = payload"
  by (auto simp: frame_new_def frame_wf_def header_new_def MAX_PAYLOAD_LEN_def unsigned_of_nat
      take_bit_nat_eq_self split: if_splits)

lemma frame_new_Ok_iff: "(\<exists>f. frame_new t s q payload = Ok f) \<longleftrightarrow> length payload \<le> MAX_PAYLOAD_LEN"
  by (auto simp: frame_new_def)

lemma frame_keepalive_total: "\<exists>f. frame_keepalive s q = Ok f \<and> frame_payload f = []"
  by (simp add: frame_keepalive_def frame_new_def)

end
