(* ===== verification/Codec.thy ===== *)
theory Codec
  imports Prelude
begin

text \<open>
  The contract between a writer and a reader of a byte stream: decoding what was encoded gives the
  value back and leaves the rest of the stream untouched. What a stream of several values needs
  (no two values share a prefix, a sequence of values is read back in order) follows from it.
\<close>

fun decode_many ::
    "(bytes \<Rightarrow> ('a \<times> bytes, 'e) result) \<Rightarrow> nat \<Rightarrow> bytes \<Rightarrow> ('a list \<times> bytes, 'e) result" where
  "decode_many dec 0 input = Ok ([], input)"
| "decode_many dec (Suc n) input =
     and_then (dec input) (\<lambda>(a, rest).
     and_then (decode_many dec n rest) (\<lambda>(as, rest'). Ok (a # as, rest')))"

locale stream_codec =
  fixes enc :: "'a \<Rightarrow> bytes"
    and dec :: "bytes \<Rightarrow> ('a \<times> bytes, 'e) result"
    and valid :: "'a \<Rightarrow> bool"
  assumes dec_enc: "valid a \<Longrightarrow> dec (enc a @ rest) = Ok (a, rest)"
begin

lemma enc_prefix_free:
  assumes "valid a" and "valid b" and "enc a @ xs = enc b @ ys"
  shows "a = b \<and> xs = ys"
proof -
  have "Ok (a, xs) = dec (enc b @ ys)"
    using dec_enc [OF assms(1), of xs] by (simp only: assms(3))
  also have "\<dots> = Ok (b, ys)" by (rule dec_enc [OF assms(2)])
  finally show ?thesis by simp
qed

lemma decode_many_concat:
  "list_all valid as \<Longrightarrow>
     decode_many dec (length as) (concat (map enc as) @ rest) = Ok (as, rest)"
  by (induction as) (auto simp: dec_enc)

end

end
