(* ===== verification/Packet_Codec.thy ===== *)
theory Packet_Codec
  imports Wire Codec
begin

text \<open>
  The packet protocol codec of \<open>src/src/runtime/packet.rs\<close>: frames and one-byte or two-byte
  responses read from and written to a stream. A reader is the list of bytes still to arrive;
  \<open>read_exact\<close> fails with \<open>UnexpectedEof\<close> when the stream ends first.
\<close>

datatype invalid_data_reason =
    HeaderDecode decode_error
  | PayloadExceedsLimit usize usize
  | UnknownRejectionReason u8
  | UnknownPacketResponse u8

datatype io_error = UnexpectedEof | InvalidData invalid_data_reason

definition read_exact :: "usize \<Rightarrow> bytes \<Rightarrow> (bytes \<times> bytes, io_error) result" where
  "read_exact n input =
     (if n \<le> length input then Ok (take n input, drop n input) else Err UnexpectedEof)"

datatype packet_rejection_reason =
    MalformedPacket | PacketTooLargeRejection | Replay | UnauthorizedPeerRejection
  | UnauthorizedSourceRejection | UnauthorizedDestination | UnexpectedPayloadRejection
  | RateLimited

datatype packet_response = Accepted | Rejected packet_rejection_reason

fun rejection_reason_encode :: "packet_rejection_reason \<Rightarrow> u8" where
  "rejection_reason_encode MalformedPacket = 1"
| "rejection_reason_encode PacketTooLargeRejection = 2"
| "rejection_reason_encode Replay = 3"
| "rejection_reason_encode UnauthorizedPeerRejection = 4"
| "rejection_reason_encode UnauthorizedSourceRejection = 5"
| "rejection_reason_encode UnauthorizedDestination = 6"
| "rejection_reason_encode UnexpectedPayloadRejection = 7"
| "rejection_reason_encode RateLimited = 8"

definition rejection_reason_decode :: "u8 \<Rightarrow> (packet_rejection_reason, io_error) result" where
  "rejection_reason_decode byte =
     (if byte = 1 then Ok MalformedPacket
      else if byte = 2 then Ok PacketTooLargeRejection
      else if byte = 3 then Ok Replay
      else if byte = 4 then Ok UnauthorizedPeerRejection
      else if byte = 5 then Ok UnauthorizedSourceRejection
      else if byte = 6 then Ok UnauthorizedDestination
      else if byte = 7 then Ok UnexpectedPayloadRejection
      else if byte = 8 then Ok RateLimited
      else Err (InvalidData (UnknownRejectionReason byte)))"

definition read_futures_header :: "usize \<Rightarrow> bytes \<Rightarrow> (header \<times> bytes, io_error) result" where
  "read_futures_header max_payload_len reader =
     and_then (read_exact HEADER_LEN reader) (\<lambda>(header_bytes, reader).
     and_then (map_err (\<lambda>e. InvalidData (HeaderDecode e)) (header_decode header_bytes)) (\<lambda>header.
       let payload_len = unat (hdr_payload_len header) in
       if payload_len > max_payload_len
       then Err (InvalidData (PayloadExceedsLimit payload_len max_payload_len))
       else Ok (header, reader)))"

definition read_futures_frame :: "usize \<Rightarrow> bytes \<Rightarrow> (frame \<times> bytes, io_error) result" where
  "read_futures_frame max_payload_len reader =
     and_then (read_futures_header max_payload_len reader) (\<lambda>(header, reader).
     and_then (read_exact (unat (hdr_payload_len header)) reader) (\<lambda>(payload, reader).
       Ok (\<lparr>frame_header = header, frame_payload = payload\<rparr>, reader)))"

function discard_loop :: "usize \<Rightarrow> bytes \<Rightarrow> (unit \<times> bytes, io_error) result" where
  "discard_loop remaining reader =
     (if remaining > 0
      then
        let size = min remaining 256 in
        and_then (read_exact size reader) (\<lambda>(_, reader). discard_loop (remaining - size) reader)
      else Ok ((), reader))"
  by pat_completeness auto
termination
  by (relation "measure fst") auto

definition discard_futures_frame :: "usize \<Rightarrow> bytes \<Rightarrow> (unit \<times> bytes, io_error) result" where
  "discard_futures_frame max_payload_len reader =
     and_then (read_futures_header max_payload_len reader) (\<lambda>(header, reader).
       discard_loop (unat (hdr_payload_len header)) reader)"

definition write_futures_frame :: "frame \<Rightarrow> bytes" where
  "write_futures_frame f = frame_encode f"

definition read_futures_response :: "bytes \<Rightarrow> (packet_response \<times> bytes, io_error) result" where
  "read_futures_response reader =
     and_then (read_exact 1 reader) (\<lambda>(status, reader).
       if status ! 0 = 1 then Ok (Accepted, reader)
       else if status ! 0 = 2 then
         and_then (read_exact 1 reader) (\<lambda>(reason, reader).
         and_then (rejection_reason_decode (reason ! 0)) (\<lambda>reason.
           Ok (Rejected reason, reader)))
       else Err (InvalidData (UnknownPacketResponse (status ! 0))))"

fun write_futures_response :: "packet_response \<Rightarrow> bytes" where
  "write_futures_response Accepted = [1]"
| "write_futures_response (Rejected reason) = [2, rejection_reason_encode reason]"

definition codec_max_payload_len :: "u16 \<Rightarrow> usize" where
  "codec_max_payload_len mtu = min (unat mtu) MAX_PAYLOAD_LEN"

subsection \<open>Reading back what was written\<close>

declare discard_loop.simps [simp del]

lemma read_exact_append: "length xs = n \<Longrightarrow> read_exact n (xs @ ys) = Ok (xs, ys)"
  by (simp add: read_exact_def)

lemma rejection_reason_round_trip [simp]:
  "rejection_reason_decode (rejection_reason_encode r) = Ok r"
  by (cases r) (simp_all add: rejection_reason_decode_def)

lemma read_futures_header_encode:
  assumes "hdr_version h = WIRE_VERSION" and "unat (hdr_payload_len h) \<le> max_payload_len"
  shows "read_futures_header max_payload_len (header_encode h @ rest) = Ok (h, rest)"
  using assms header_decode_encode [of h "[]"]
  by (simp add: read_futures_header_def read_exact_append Let_def)

definition frame_fits :: "usize \<Rightarrow> frame \<Rightarrow> bool" where
  "frame_fits max_payload_len f \<longleftrightarrow> frame_wf f \<and> length (frame_payload f) \<le> max_payload_len"

lemma read_futures_frame_encode:
  assumes "frame_fits max_payload_len f"
  shows "read_futures_frame max_payload_len (write_futures_frame f @ rest) = Ok (f, rest)"
  using assms read_futures_header_encode [of "frame_header f"]
  by (simp add: frame_fits_def frame_wf_def read_futures_frame_def write_futures_frame_def
      frame_encode_def read_exact_append)

interpretation frame_stream: stream_codec write_futures_frame
  "read_futures_frame max_payload_len" "frame_fits max_payload_len" for max_payload_len
  by unfold_locales (rule read_futures_frame_encode)

interpretation response_stream: stream_codec write_futures_response read_futures_response
  "\<lambda>_. True"
proof unfold_locales
  fix r :: packet_response and rest :: bytes
  show "read_futures_response (write_futures_response r @ rest) = Ok (r, rest)"
    by (cases r) (simp_all add: read_futures_response_def read_exact_def)
qed

text \<open>
  C29: a sequence of frames within the payload limit, written one after the other, is read back
  frame by frame, and the reader stops exactly at the end of the last one.
\<close>

theorem frames_read_back_in_order:
  assumes "list_all (frame_fits max_payload_len) fs"
  shows "decode_many (read_futures_frame max_payload_len) (length fs)
           (concat (map write_futures_frame fs) @ rest) = Ok (fs, rest)"
  using assms by (rule frame_stream.decode_many_concat)

theorem frames_read_back_in_order_witness:
  "let f = \<lparr>frame_header = header_new IpPacket 7 42 2, frame_payload = [1, 2]\<rparr> in
     decode_many (read_futures_frame 1280) (length [f, f])
       (concat (map write_futures_frame [f, f]) @ [9]) = Ok ([f, f], [9])"
  unfolding Let_def
  by (rule frames_read_back_in_order)
    (simp add: frame_fits_def frame_wf_def header_new_def)

text \<open>
  Every packet response is read back as it was written, and no response is the beginning of
  another one.
\<close>

lemma response_round_trip:
  "read_futures_response (write_futures_response r @ rest) = Ok (r, rest) \<and>
   (write_futures_response r @ rest = write_futures_response r' @ rest' \<longleftrightarrow>
      r = r' \<and> rest = rest')"
  using response_stream.dec_enc [of r rest]
    response_stream.enc_prefix_free [where a = r and b = r' and xs = rest and ys = rest']
  by auto

text \<open>The limit is checked before the payload is read.\<close>

lemma read_futures_header_Ok:
  assumes "read_futures_header max_payload_len reader = Ok (h, rest)"
  shows "unat (hdr_payload_len h) \<le> max_payload_len" and "reader = header_encode h @ rest"
    and "hdr_version h = WIRE_VERSION"
proof -
  from assms have dec: "header_decode (take HEADER_LEN reader) = Ok h"
    and rest: "rest = drop HEADER_LEN reader"
    and lim: "unat (hdr_payload_len h) \<le> max_payload_len"
    by (auto simp: read_futures_header_def read_exact_def and_then_Inr_iff Let_def
        split: if_splits)
  show "unat (hdr_payload_len h) \<le> max_payload_len" by (rule lim)
  from header_decode_Ok_encode(1) [OF dec] have "take HEADER_LEN reader = header_encode h"
    by simp
  then show "reader = header_encode h @ rest"
    unfolding rest by (metis append_take_drop_id)
  from header_decode_Ok_encode(2) [OF dec] show "hdr_version h = WIRE_VERSION" .
qed

text \<open>
  whatever the peer sends, a frame that the reader delivers is well formed, its payload is
  within the limit of the codec, and the bytes consumed are exactly its encoding.
\<close>

theorem read_futures_frame_sound:
  assumes "read_futures_frame max_payload_len reader = Ok (f, rest)"
  shows "frame_fits max_payload_len f \<and> reader = write_futures_frame f @ rest"
proof -
  from assms obtain h mid where
    h: "read_futures_header max_payload_len reader = Ok (h, mid)" and
    f: "f = \<lparr>frame_header = h, frame_payload = take (unat (hdr_payload_len h)) mid\<rparr>" and
    rest: "rest = drop (unat (hdr_payload_len h)) mid" and
    len: "unat (hdr_payload_len h) \<le> length mid"
    by (auto simp: read_futures_frame_def read_exact_def and_then_Inr_iff split: if_splits)
  with read_futures_header_Ok [OF h] show ?thesis
    by (simp add: frame_fits_def frame_wf_def write_futures_frame_def frame_encode_def)
qed

lemma discard_loop_read_exact:
  "discard_loop n reader = and_then (read_exact n reader) (\<lambda>(_, rest). Ok ((), rest))"
proof (induction n reader rule: discard_loop.induct)
  case (1 n reader)
  show ?case
  proof (cases "n > 0 \<and> min n 256 \<le> length reader")
    case True
    then have "discard_loop n reader = discard_loop (n - min n 256) (drop (min n 256) reader)"
      by (simp add: discard_loop.simps [of n reader] read_exact_def Let_def)
    also have "\<dots> = and_then (read_exact (n - min n 256) (drop (min n 256) reader))
        (\<lambda>(_, rest). Ok ((), rest))"
      using True by (intro "1.IH") (auto simp: read_exact_def)
    also have "\<dots> = and_then (read_exact n reader) (\<lambda>(_, rest). Ok ((), rest))"
      using True by (auto simp: read_exact_def min_def)
    finally show ?thesis .
  next
    case False
    then show ?thesis
      by (auto simp: discard_loop.simps [of n reader] read_exact_def Let_def)
  qed
qed

text \<open>
  discarding a frame in 256-byte pieces consumes the same bytes and fails in the same way as
  reading the frame and forgetting it.
\<close>

theorem discard_futures_frame_eq_read:
  "discard_futures_frame max_payload_len reader =
     and_then (read_futures_frame max_payload_len reader) (\<lambda>(_, rest). Ok ((), rest))"
proof (cases "read_futures_header max_payload_len reader")
  case (Inl e)
  then show ?thesis by (simp add: discard_futures_frame_def read_futures_frame_def)
next
  case (Inr hr)
  then show ?thesis
    by (cases hr)
      (simp add: discard_futures_frame_def read_futures_frame_def discard_loop_read_exact
        read_exact_def)
qed

end
