(* ===== verification/Path.thy ===== *)
theory Path
  imports Peer
begin

text \<open>
  The path table of \<open>src/src/path.rs\<close>: the candidates known for each peer, the connections that back
  them, and the choice of the path packets take. A libp2p \<open>ConnectionId\<close> is a number the program only
  compares. Scores are \<open>i32\<close> in the source; they stay far inside that range, so they are \<open>int\<close>.
\<close>

subsection \<open>Candidates\<close>

type_synonym connection_id = nat

definition PATH_FAILURE_PENALTY_STEP :: u16 where
  "PATH_FAILURE_PENALTY_STEP = 50"

definition PATH_FAILURE_PENALTY_MAX :: u16 where
  "PATH_FAILURE_PENALTY_MAX = PATH_FAILURE_PENALTY_STEP"

definition PATH_FAILURE_PENALTY_RECOVERY_STEP :: u16 where
  "PATH_FAILURE_PENALTY_RECOVERY_STEP = 10"

definition MAX_TRACKED_PATH_CONNECTION_IDS :: usize where
  "MAX_TRACKED_PATH_CONNECTION_IDS = 8"

datatype path_origin =
    OriginUnknown | Configured | Mdns | Kademlia | Identify | RelayCircuit | Dcutr
  | PacketPlaneNegotiation

fun path_origin_wire_name :: "path_origin \<Rightarrow> string" where
  "path_origin_wire_name OriginUnknown = ''unknown''"
| "path_origin_wire_name Configured = ''configured''"
| "path_origin_wire_name Mdns = ''mdns''"
| "path_origin_wire_name Kademlia = ''kademlia''"
| "path_origin_wire_name Identify = ''identify''"
| "path_origin_wire_name RelayCircuit = ''relay_circuit''"
| "path_origin_wire_name Dcutr = ''dcutr''"
| "path_origin_wire_name PacketPlaneNegotiation = ''packet_plane_negotiation''"

datatype path_connection_role = RoleUnknown | Dialer | Listener

fun path_connection_role_wire_name :: "path_connection_role \<Rightarrow> string" where
  "path_connection_role_wire_name RoleUnknown = ''unknown''"
| "path_connection_role_wire_name Dialer = ''dialer''"
| "path_connection_role_wire_name Listener = ''listener''"

record path_candidate =
  pc_peer :: peer_id
  pc_kind :: path_kind
  pc_relay_peer :: "peer_id option"
  pc_observed_rtt_ms :: "u16 option"
  pc_estimated_mtu :: "u16 option"
  pc_failure_penalty :: u16
  pc_relay :: bool
  pc_healthy :: bool
  pc_established_connections :: u32
  pc_origin :: path_origin
  pc_connection_role :: path_connection_role
  pc_established_as_relayed :: bool
  pc_latest_connection_id :: "connection_id option"
  pc_first_seen_unix_seconds :: "u64 option"
  pc_last_established_unix_seconds :: "u64 option"

definition path_candidate_new :: "peer_id \<Rightarrow> path_kind \<Rightarrow> path_candidate" where
  "path_candidate_new peer kind =
     \<lparr>pc_peer = peer, pc_kind = kind, pc_relay_peer = None, pc_observed_rtt_ms = None,
      pc_estimated_mtu = None, pc_failure_penalty = 0, pc_relay = (kind = CircuitRelay),
      pc_healthy = True, pc_established_connections = 0, pc_origin = OriginUnknown,
      pc_connection_role = RoleUnknown, pc_established_as_relayed = (kind = CircuitRelay),
      pc_latest_connection_id = None, pc_first_seen_unix_seconds = None,
      pc_last_established_unix_seconds = None\<rparr>"

definition with_estimated_mtu :: "path_candidate \<Rightarrow> u16 \<Rightarrow> path_candidate" where
  "with_estimated_mtu c mtu = c\<lparr>pc_estimated_mtu := Some mtu\<rparr>"

definition with_relay_peer :: "path_candidate \<Rightarrow> peer_id \<Rightarrow> path_candidate" where
  "with_relay_peer c relay = c\<lparr>pc_relay_peer := Some relay\<rparr>"

definition with_origin :: "path_candidate \<Rightarrow> path_origin \<Rightarrow> path_candidate" where
  "with_origin c origin = c\<lparr>pc_origin := origin\<rparr>"

definition with_connection_role :: "path_candidate \<Rightarrow> path_connection_role \<Rightarrow> path_candidate" where
  "with_connection_role c role = c\<lparr>pc_connection_role := role\<rparr>"

definition with_established_as_relayed :: "path_candidate \<Rightarrow> bool \<Rightarrow> path_candidate" where
  "with_established_as_relayed c relayed = c\<lparr>pc_established_as_relayed := relayed\<rparr>"

definition effective_mtu :: "path_candidate \<Rightarrow> u16 \<Rightarrow> u16" where
  "effective_mtu c fallback_mtu =
     (case pc_estimated_mtu c of None \<Rightarrow> fallback_mtu | Some mtu \<Rightarrow> min mtu fallback_mtu)"

definition score :: "path_candidate \<Rightarrow> int" where
  "score c =
     (if \<not> pc_healthy c then - (2 ^ 31)
      else let latency_penalty =
                 (case pc_observed_rtt_ms c of None \<Rightarrow> 0 | Some rtt \<Rightarrow> uint (rtt div 10))
           in uint (default_score (pc_kind c)) - latency_penalty - uint (pc_failure_penalty c))"

definition is_relay :: "path_candidate \<Rightarrow> bool" where
  "is_relay c = pc_relay c"

definition is_direct :: "path_candidate \<Rightarrow> bool" where
  "is_direct c = (\<not> pc_relay c)"

definition is_selectable :: "path_candidate \<Rightarrow> bool" where
  "is_selectable c = pc_healthy c"

definition path_identity :: "path_candidate \<Rightarrow> path_kind \<times> peer_id option" where
  "path_identity c = (pc_kind c, pc_relay_peer c)"

definition path_candidate_matches ::
    "peer_id \<Rightarrow> path_kind \<Rightarrow> peer_id option \<Rightarrow> path_candidate \<Rightarrow> bool" where
  "path_candidate_matches peer kind relay_peer c \<longleftrightarrow>
     pc_peer c = peer \<and> pc_kind c = kind \<and> (kind \<noteq> CircuitRelay \<or> pc_relay_peer c = relay_peer)"

subsection \<open>The connections behind a path\<close>

text \<open>
  The fixed array of eight optional connection ids is a list of options. Recording and forgetting
  rebuild it with the ids in front, so the ids of the array in order are \<open>flatten_ids\<close>.
\<close>

type_synonym connection_ids = "connection_id option list"

record path_connection_inventory_update =
  upd_latest_connection_id :: "connection_id option"
  upd_tracked_connections :: u32
  upd_connection_was_tracked :: bool

definition inventory_update_default :: path_connection_inventory_update where
  "inventory_update_default =
     \<lparr>upd_latest_connection_id = None, upd_tracked_connections = 0, upd_connection_was_tracked = False\<rparr>"

definition flatten_ids :: "connection_ids \<Rightarrow> connection_id list" where
  "flatten_ids ids = List.map_filter id ids"

definition compact_ids :: "connection_id list \<Rightarrow> connection_ids" where
  "compact_ids xs =
     map Some xs @ replicate (MAX_TRACKED_PATH_CONNECTION_IDS - length xs) None"

definition connection_inventory_update :: "connection_ids \<Rightarrow> bool \<Rightarrow> path_connection_inventory_update" where
  "connection_inventory_update ids was_tracked =
     (let xs = flatten_ids ids in
      \<lparr>upd_latest_connection_id = (if xs = [] then None else Some (last xs)),
       upd_tracked_connections = clamp_word (length xs),
       upd_connection_was_tracked = was_tracked\<rparr>)"

definition record_connection_id ::
    "connection_ids \<Rightarrow> connection_id option \<Rightarrow> path_connection_inventory_update \<times> connection_ids" where
  "record_connection_id ids connection_id =
     (case connection_id of
        None \<Rightarrow> (connection_inventory_update ids False, ids)
      | Some c \<Rightarrow>
          (let kept = take MAX_TRACKED_PATH_CONNECTION_IDS (filter (\<lambda>e. e \<noteq> c) (flatten_ids ids));
               kept = (if length kept = MAX_TRACKED_PATH_CONNECTION_IDS then tl kept else kept);
               ids = compact_ids (kept @ [c])
           in (connection_inventory_update ids True, ids)))"

definition forget_connection_id ::
    "connection_ids \<Rightarrow> connection_id option \<Rightarrow> path_connection_inventory_update \<times> connection_ids" where
  "forget_connection_id ids connection_id =
     (case connection_id of
        None \<Rightarrow> (connection_inventory_update ids False, ids)
      | Some c \<Rightarrow>
          (let was_tracked = list_ex (\<lambda>e. e = c) (flatten_ids ids);
               ids = compact_ids
                 (take MAX_TRACKED_PATH_CONNECTION_IDS (filter (\<lambda>e. e \<noteq> c) (flatten_ids ids)))
           in (connection_inventory_update ids was_tracked, ids)))"

subsection \<open>Transport support\<close>

record path_transport_support =
  udp_datagrams :: bool
  quic_datagrams :: bool

definition stream_fallback :: path_transport_support where
  "stream_fallback = \<lparr>udp_datagrams = False, quic_datagrams = False\<rparr>"

fun supports :: "path_transport_support \<Rightarrow> path_kind \<Rightarrow> bool" where
  "supports s DirectUdpDatagram = udp_datagrams s"
| "supports s DirectQuicDatagram = quic_datagrams s"
| "supports s DirectQuicStream = True"
| "supports s DirectTcpStream = True"
| "supports s CircuitRelay = True"

subsection \<open>The path set\<close>

record path_connection_inventory =
  inv_peer :: peer_id
  inv_kind :: path_kind
  inv_relay_peer :: "peer_id option"
  inv_connection_ids :: connection_ids

definition path_inventory_matches ::
    "peer_id \<Rightarrow> path_kind \<Rightarrow> peer_id option \<Rightarrow> path_connection_inventory \<Rightarrow> bool" where
  "path_inventory_matches peer kind relay_peer i \<longleftrightarrow>
     inv_peer i = peer \<and> inv_kind i = kind \<and> (kind \<noteq> CircuitRelay \<or> inv_relay_peer i = relay_peer)"

record path_set =
  ps_candidates :: "path_candidate list"
  ps_connection_inventories :: "path_connection_inventory list"

record path_selection_change =
  change_peer :: peer_id
  change_previous :: "path_candidate option"
  change_current :: "path_candidate option"

record path_connection_failure =
  failure_selection_change :: "path_selection_change option"
  failure_connection_was_tracked :: bool
  failure_remaining_connections :: u32
  failure_latest_connection_id :: "connection_id option"
  failure_path_healthy :: bool

definition promoted_to_direct :: "path_selection_change \<Rightarrow> bool" where
  "promoted_to_direct ch =
     (case (change_previous ch, change_current ch) of
        (Some previous, Some current) \<Rightarrow> is_relay previous \<and> is_direct current
      | _ \<Rightarrow> False)"

definition fell_back_to_relay :: "path_selection_change \<Rightarrow> bool" where
  "fell_back_to_relay ch =
     (case (change_previous ch, change_current ch) of
        (Some previous, Some current) \<Rightarrow> is_direct previous \<and> is_relay current
      | _ \<Rightarrow> False)"

definition path_set_new :: path_set where
  "path_set_new = \<lparr>ps_candidates = [], ps_connection_inventories = []\<rparr>"

text \<open>Mutating the first candidate that matches, or appending one when none does.\<close>

definition update_candidate ::
    "(path_candidate \<Rightarrow> bool) \<Rightarrow> (path_candidate \<Rightarrow> path_candidate) \<Rightarrow> path_set \<Rightarrow> path_set" where
  "update_candidate p f s = s\<lparr>ps_candidates := update_first p f (ps_candidates s)\<rparr>"

definition push_candidate :: "path_candidate \<Rightarrow> path_set \<Rightarrow> path_set" where
  "push_candidate c s = s\<lparr>ps_candidates := ps_candidates s @ [c]\<rparr>"

definition find_candidate :: "path_set \<Rightarrow> peer_id \<Rightarrow> path_kind \<Rightarrow> peer_id option \<Rightarrow> path_candidate option" where
  "find_candidate s peer kind relay_peer =
     find (path_candidate_matches peer kind relay_peer) (ps_candidates s)"

definition upsert :: "path_set \<Rightarrow> path_candidate \<Rightarrow> path_set" where
  "upsert s c =
     (let matching = path_candidate_matches (pc_peer c) (pc_kind c) (pc_relay_peer c) in
      if find matching (ps_candidates s) \<noteq> None then update_candidate matching (\<lambda>_. c) s
      else push_candidate c s)"

definition record_connection_inventory ::
    "path_set \<Rightarrow> peer_id \<Rightarrow> path_kind \<Rightarrow> peer_id option \<Rightarrow> connection_id option \<Rightarrow>
     path_connection_inventory_update \<times> path_set" where
  "record_connection_inventory s peer kind relay_peer connection_id =
     (let matching = path_inventory_matches peer kind relay_peer in
      case find matching (ps_connection_inventories s) of
        Some i \<Rightarrow>
          (let (update, ids) = record_connection_id (inv_connection_ids i) connection_id
           in (update, s\<lparr>ps_connection_inventories :=
                 update_first matching (\<lambda>i. i\<lparr>inv_connection_ids := ids\<rparr>) (ps_connection_inventories s)\<rparr>))
      | None \<Rightarrow>
          (let (update, ids) =
                 record_connection_id (replicate MAX_TRACKED_PATH_CONNECTION_IDS None) connection_id
           in (update, s\<lparr>ps_connection_inventories := ps_connection_inventories s @
                 [\<lparr>inv_peer = peer, inv_kind = kind, inv_relay_peer = relay_peer,
                   inv_connection_ids = ids\<rparr>]\<rparr>)))"

definition forget_connection_inventory ::
    "path_set \<Rightarrow> peer_id \<Rightarrow> path_kind \<Rightarrow> peer_id option \<Rightarrow> connection_id option \<Rightarrow>
     path_connection_inventory_update \<times> path_set" where
  "forget_connection_inventory s peer kind relay_peer connection_id =
     (let matching = path_inventory_matches peer kind relay_peer in
      case find matching (ps_connection_inventories s) of
        None \<Rightarrow> (inventory_update_default, s)
      | Some i \<Rightarrow>
          (let (update, ids) = forget_connection_id (inv_connection_ids i) connection_id
           in (update, s\<lparr>ps_connection_inventories :=
                 update_first matching (\<lambda>i. i\<lparr>inv_connection_ids := ids\<rparr>) (ps_connection_inventories s)\<rparr>)))"

definition clear_connection_inventory ::
    "path_set \<Rightarrow> peer_id \<Rightarrow> path_kind \<Rightarrow> peer_id option \<Rightarrow> path_set" where
  "clear_connection_inventory s peer kind relay_peer =
     s\<lparr>ps_connection_inventories :=
         filter (\<lambda>i. \<not> path_inventory_matches peer kind relay_peer i) (ps_connection_inventories s)\<rparr>"

definition best_supported_for :: "path_set \<Rightarrow> peer_id \<Rightarrow> path_transport_support \<Rightarrow> path_candidate option" where
  "best_supported_for s peer support =
     max_by_key score
       (filter (\<lambda>c. pc_peer c = peer \<and> is_selectable c \<and> supports support (pc_kind c))
          (ps_candidates s))"

definition best_for :: "path_set \<Rightarrow> peer_id \<Rightarrow> path_candidate option" where
  "best_for s peer = best_supported_for s peer \<lparr>udp_datagrams = True, quic_datagrams = True\<rparr>"

definition candidates_for :: "path_set \<Rightarrow> peer_id \<Rightarrow> path_candidate list" where
  "candidates_for s peer = filter (\<lambda>c. pc_peer c = peer) (ps_candidates s)"

definition path_peer_ids :: "path_set \<Rightarrow> peer_id list" where
  "path_peer_ids s = map pc_peer (ps_candidates s)"

definition forget_peer :: "path_set \<Rightarrow> peer_id \<Rightarrow> path_set" where
  "forget_peer s peer =
     s\<lparr>ps_candidates := filter (\<lambda>c. pc_peer c \<noteq> peer) (ps_candidates s),
       ps_connection_inventories := filter (\<lambda>i. inv_peer i \<noteq> peer) (ps_connection_inventories s)\<rparr>"

definition invalidate_connections :: "path_set \<Rightarrow> usize \<times> path_set" where
  "invalidate_connections s =
     (length (filter (\<lambda>c. pc_healthy c \<or> pc_established_connections c > 0) (ps_candidates s)),
      s\<lparr>ps_candidates := map (\<lambda>c. c\<lparr>pc_healthy := False, pc_established_connections := 0,
                                    pc_latest_connection_id := None\<rparr>) (ps_candidates s),
        ps_connection_inventories := []\<rparr>)"

definition selection_change ::
    "path_set \<Rightarrow> peer_id \<Rightarrow> path_candidate option \<Rightarrow> path_selection_change option" where
  "selection_change s peer previous =
     (let current = best_for s peer in
      if map_option path_identity previous = map_option path_identity current then None
      else Some \<lparr>change_peer = peer, change_previous = previous, change_current = current\<rparr>)"

definition fail_candidate :: "path_candidate \<Rightarrow> path_candidate" where
  "fail_candidate c =
     c\<lparr>pc_healthy := False, pc_established_connections := 0,
       pc_failure_penalty :=
         min (saturating_add_word (pc_failure_penalty c) PATH_FAILURE_PENALTY_STEP) PATH_FAILURE_PENALTY_MAX,
       pc_latest_connection_id := None\<rparr>"

definition mark_unhealthy_for_relay ::
    "path_set \<Rightarrow> peer_id \<Rightarrow> path_kind \<Rightarrow> peer_id option \<Rightarrow> path_selection_change option \<times> path_set" where
  "mark_unhealthy_for_relay s peer kind relay_peer =
     (let previous = best_for s peer;
          s = update_candidate (path_candidate_matches peer kind relay_peer) fail_candidate s;
          s = clear_connection_inventory s peer kind relay_peer
      in (selection_change s peer previous, s))"

definition mark_unhealthy :: "path_set \<Rightarrow> peer_id \<Rightarrow> path_kind \<Rightarrow> path_selection_change option \<times> path_set" where
  "mark_unhealthy s peer kind = mark_unhealthy_for_relay s peer kind None"

definition option_or :: "'a option \<Rightarrow> 'a option \<Rightarrow> 'a option" where
  "option_or x y = (case x of None \<Rightarrow> y | Some a \<Rightarrow> Some a)"

definition establish_candidate ::
    "peer_id option \<Rightarrow> u16 option \<Rightarrow> path_origin \<Rightarrow> path_connection_role \<Rightarrow> bool \<Rightarrow>
     connection_id option \<Rightarrow> u64 option \<Rightarrow> path_connection_inventory_update \<Rightarrow> path_candidate \<Rightarrow> path_candidate" where
  "establish_candidate relay_peer estimated_mtu origin connection_role relayed
       connection_id now_unix_seconds update c =
     c\<lparr>pc_healthy := True, pc_relay_peer := relay_peer,
       pc_estimated_mtu := option_or estimated_mtu (pc_estimated_mtu c),
       pc_origin := origin, pc_connection_role := connection_role,
       pc_established_as_relayed := relayed,
       pc_latest_connection_id := upd_latest_connection_id update,
       pc_first_seen_unix_seconds := option_or (pc_first_seen_unix_seconds c) now_unix_seconds,
       pc_last_established_unix_seconds := now_unix_seconds,
       pc_established_connections :=
         (if connection_id \<noteq> None then upd_tracked_connections update
          else saturating_add_word (pc_established_connections c) 1)\<rparr>"

definition record_established_with_details ::
    "path_set \<Rightarrow> peer_id \<Rightarrow> path_kind \<Rightarrow> peer_id option \<Rightarrow> u16 option \<Rightarrow> path_origin \<Rightarrow>
     path_connection_role \<Rightarrow> bool \<Rightarrow> connection_id option \<Rightarrow> u64 option \<Rightarrow>
     path_selection_change option \<times> path_set" where
  "record_established_with_details s peer kind relay_peer estimated_mtu origin connection_role
       established_as_relayed connection_id now_unix_seconds =
     (let previous = best_for s peer;
          (update, s) = record_connection_inventory s peer kind relay_peer connection_id;
          matching = path_candidate_matches peer kind relay_peer;
          s = (if find matching (ps_candidates s) \<noteq> None
               then update_candidate matching
                 (establish_candidate relay_peer estimated_mtu origin connection_role
                    established_as_relayed connection_id now_unix_seconds update) s
               else push_candidate
                 ((path_candidate_new peer kind)
                    \<lparr>pc_relay_peer := relay_peer, pc_estimated_mtu := estimated_mtu,
                     pc_origin := origin, pc_connection_role := connection_role,
                     pc_established_as_relayed := established_as_relayed,
                     pc_latest_connection_id := upd_latest_connection_id update,
                     pc_first_seen_unix_seconds := now_unix_seconds,
                     pc_last_established_unix_seconds := now_unix_seconds,
                     pc_established_connections :=
                       (if connection_id \<noteq> None then upd_tracked_connections update else 1)\<rparr>) s)
      in (selection_change s peer previous, s))"

definition record_established_with_mtu ::
    "path_set \<Rightarrow> peer_id \<Rightarrow> path_kind \<Rightarrow> u16 option \<Rightarrow> path_selection_change option \<times> path_set" where
  "record_established_with_mtu s peer kind estimated_mtu =
     record_established_with_details s peer kind None estimated_mtu OriginUnknown RoleUnknown
       (kind = CircuitRelay) None None"

definition record_established ::
    "path_set \<Rightarrow> peer_id \<Rightarrow> path_kind \<Rightarrow> path_selection_change option \<times> path_set" where
  "record_established s peer kind = record_established_with_mtu s peer kind None"

definition record_unconfirmed_with_details ::
    "path_set \<Rightarrow> peer_id \<Rightarrow> path_kind \<Rightarrow> peer_id option \<Rightarrow> u16 option \<Rightarrow> path_origin \<Rightarrow> bool \<Rightarrow>
     u64 option \<Rightarrow> path_selection_change option \<times> path_set" where
  "record_unconfirmed_with_details s peer kind relay_peer estimated_mtu origin
       established_as_relayed now_unix_seconds =
     (let previous = best_for s peer;
          matching = path_candidate_matches peer kind relay_peer;
          s = (if find matching (ps_candidates s) \<noteq> None
               then update_candidate matching
                 (\<lambda>c. c\<lparr>pc_healthy := False, pc_relay_peer := relay_peer,
                        pc_estimated_mtu := option_or estimated_mtu (pc_estimated_mtu c),
                        pc_origin := origin, pc_established_as_relayed := established_as_relayed,
                        pc_latest_connection_id := None,
                        pc_first_seen_unix_seconds :=
                          option_or (pc_first_seen_unix_seconds c) now_unix_seconds,
                        pc_last_established_unix_seconds := now_unix_seconds,
                        pc_established_connections := 1\<rparr>) s
               else push_candidate
                 ((path_candidate_new peer kind)
                    \<lparr>pc_healthy := False, pc_relay_peer := relay_peer,
                     pc_estimated_mtu := estimated_mtu, pc_origin := origin,
                     pc_established_as_relayed := established_as_relayed,
                     pc_latest_connection_id := None,
                     pc_first_seen_unix_seconds := now_unix_seconds,
                     pc_last_established_unix_seconds := now_unix_seconds,
                     pc_established_connections := 1\<rparr>) s)
      in (selection_change s peer previous, s))"

definition record_unconfirmed_with_mtu ::
    "path_set \<Rightarrow> peer_id \<Rightarrow> path_kind \<Rightarrow> u16 option \<Rightarrow> path_selection_change option \<times> path_set" where
  "record_unconfirmed_with_mtu s peer kind estimated_mtu =
     record_unconfirmed_with_details s peer kind None estimated_mtu OriginUnknown
       (kind = CircuitRelay) None"

text \<open>What the loss of a connection does to its candidate.\<close>

definition lose_connection ::
    "connection_id option \<Rightarrow> path_connection_inventory_update \<Rightarrow> path_candidate \<Rightarrow> path_candidate" where
  "lose_connection connection_id update c =
     (let c = (if connection_id = None
               then c\<lparr>pc_established_connections := saturating_sub_word (pc_established_connections c) 1\<rparr>
               else if upd_connection_was_tracked update
               then c\<lparr>pc_established_connections := upd_tracked_connections update\<rparr>
               else c);
          c = (if connection_id = None \<or> upd_connection_was_tracked update
               then c\<lparr>pc_latest_connection_id := upd_latest_connection_id update\<rparr> else c)
      in if pc_established_connections c = 0
         then c\<lparr>pc_healthy := False, pc_latest_connection_id := None\<rparr> else c)"

definition record_connection_lost ::
    "path_set \<Rightarrow> peer_id \<Rightarrow> path_kind \<Rightarrow> peer_id option \<Rightarrow> connection_id option \<Rightarrow>
     path_connection_failure \<times> path_set" where
  "record_connection_lost s peer kind relay_peer connection_id =
     (let previous = best_for s peer;
          (update, s) = forget_connection_inventory s peer kind relay_peer connection_id;
          matching = path_candidate_matches peer kind relay_peer;
          lost = map_option (lose_connection connection_id update) (find matching (ps_candidates s));
          s = update_candidate matching (lose_connection connection_id update) s;
          s = (if is_some_and (\<lambda>c. pc_established_connections c = 0) lost
               then clear_connection_inventory s peer kind relay_peer else s)
      in (\<lparr>failure_selection_change = selection_change s peer previous,
           failure_connection_was_tracked =
             (connection_id = None \<or> upd_connection_was_tracked update),
           failure_remaining_connections =
             (case lost of None \<Rightarrow> 0 | Some c \<Rightarrow> pc_established_connections c),
           failure_latest_connection_id =
             (case lost of None \<Rightarrow> None | Some c \<Rightarrow> pc_latest_connection_id c),
           failure_path_healthy = is_some_and pc_healthy lost\<rparr>, s))"

definition record_closed_for_relay_connection ::
    "path_set \<Rightarrow> peer_id \<Rightarrow> path_kind \<Rightarrow> peer_id option \<Rightarrow> connection_id option \<Rightarrow>
     path_selection_change option \<times> path_set" where
  "record_closed_for_relay_connection s peer kind relay_peer connection_id =
     (let (failure, s) = record_connection_lost s peer kind relay_peer connection_id
      in (failure_selection_change failure, s))"

definition record_closed_for_relay ::
    "path_set \<Rightarrow> peer_id \<Rightarrow> path_kind \<Rightarrow> peer_id option \<Rightarrow> path_selection_change option \<times> path_set" where
  "record_closed_for_relay s peer kind relay_peer =
     record_closed_for_relay_connection s peer kind relay_peer None"

definition record_closed :: "path_set \<Rightarrow> peer_id \<Rightarrow> path_kind \<Rightarrow> path_selection_change option \<times> path_set" where
  "record_closed s peer kind = record_closed_for_relay s peer kind None"

definition record_failed_connection ::
    "path_set \<Rightarrow> peer_id \<Rightarrow> path_kind \<Rightarrow> peer_id option \<Rightarrow> connection_id \<Rightarrow>
     path_connection_failure \<times> path_set" where
  "record_failed_connection s peer kind relay_peer connection_id =
     record_connection_lost s peer kind relay_peer (Some connection_id)"

definition lower_path_mtu_for_relay ::
    "path_set \<Rightarrow> peer_id \<Rightarrow> path_kind \<Rightarrow> peer_id option \<Rightarrow> u16 \<Rightarrow> bool \<times> path_set" where
  "lower_path_mtu_for_relay s peer kind relay_peer mtu =
     (let matching = (\<lambda>c. path_candidate_matches peer kind relay_peer c \<and> pc_healthy c) in
      case find matching (ps_candidates s) of
        None \<Rightarrow> (False, s)
      | Some c \<Rightarrow>
          if is_none_or (\<lambda>current. mtu < current) (pc_estimated_mtu c)
          then (True, update_candidate matching (\<lambda>c. c\<lparr>pc_estimated_mtu := Some mtu\<rparr>) s)
          else (False, s))"

definition lower_path_mtu :: "path_set \<Rightarrow> peer_id \<Rightarrow> path_kind \<Rightarrow> u16 \<Rightarrow> bool \<times> path_set" where
  "lower_path_mtu s peer kind mtu = lower_path_mtu_for_relay s peer kind None mtu"

definition raise_path_mtu :: "path_set \<Rightarrow> peer_id \<Rightarrow> path_kind \<Rightarrow> u16 \<Rightarrow> u16 \<Rightarrow> bool \<times> path_set" where
  "raise_path_mtu s peer kind mtu ceil =
     (let matching = (\<lambda>c. path_candidate_matches peer kind None c \<and> pc_healthy c) in
      case find matching (ps_candidates s) of
        None \<Rightarrow> (False, s)
      | Some c \<Rightarrow>
          (let mtu = min mtu ceil in
           if is_some_and (\<lambda>current. mtu > current) (pc_estimated_mtu c)
           then (True, update_candidate matching (\<lambda>c. c\<lparr>pc_estimated_mtu := Some mtu\<rparr>) s)
           else (False, s)))"

definition record_rtt_for_relay ::
    "path_set \<Rightarrow> peer_id \<Rightarrow> path_kind \<Rightarrow> peer_id option \<Rightarrow> u16 \<Rightarrow> path_selection_change option \<times> path_set" where
  "record_rtt_for_relay s peer kind relay_peer rtt_ms =
     (let previous = best_for s peer;
          matching = path_candidate_matches peer kind relay_peer
      in if find matching (ps_candidates s) = None then (None, s)
         else
           let s = update_candidate matching
                 (\<lambda>c. c\<lparr>pc_healthy := True, pc_observed_rtt_ms := Some rtt_ms,
                        pc_failure_penalty :=
                          saturating_sub_word (pc_failure_penalty c) PATH_FAILURE_PENALTY_RECOVERY_STEP\<rparr>) s
           in (selection_change s peer previous, s))"

definition record_rtt ::
    "path_set \<Rightarrow> peer_id \<Rightarrow> path_kind \<Rightarrow> u16 \<Rightarrow> path_selection_change option \<times> path_set" where
  "record_rtt s peer kind rtt_ms = record_rtt_for_relay s peer kind None rtt_ms"

definition record_stream_rtt ::
    "path_set \<Rightarrow> peer_id \<Rightarrow> path_kind \<Rightarrow> peer_id option \<Rightarrow> connection_id \<Rightarrow> u16 \<Rightarrow>
     path_selection_change option \<times> path_set" where
  "record_stream_rtt s peer kind relay_peer connection_id rtt_ms =
     (if \<not> list_ex (\<lambda>i. path_inventory_matches peer kind relay_peer i \<and>
                        Some connection_id \<in> set (inv_connection_ids i)) (ps_connection_inventories s)
      then (None, s)
      else record_rtt_for_relay s peer kind relay_peer rtt_ms)"

definition path_mtu :: "path_set \<Rightarrow> peer_id \<Rightarrow> path_kind \<Rightarrow> u16 option" where
  "path_mtu s peer kind =
     (case find (path_candidate_matches peer kind None) (ps_candidates s) of
        None \<Rightarrow> None | Some c \<Rightarrow> pc_estimated_mtu c)"

definition path_rtt :: "path_set \<Rightarrow> peer_id \<Rightarrow> path_kind \<Rightarrow> u16 option" where
  "path_rtt s peer kind =
     (case find (path_candidate_matches peer kind None) (ps_candidates s) of
        None \<Rightarrow> None | Some c \<Rightarrow> pc_observed_rtt_ms c)"

definition has_healthy_path :: "path_set \<Rightarrow> peer_id \<Rightarrow> bool" where
  "has_healthy_path s peer = (best_for s peer \<noteq> None)"

definition has_supported_path :: "path_set \<Rightarrow> peer_id \<Rightarrow> path_transport_support \<Rightarrow> bool" where
  "has_supported_path s peer support = (best_supported_for s peer support \<noteq> None)"

subsection \<open>Statistics\<close>

record path_runtime_stats =
  healthy_direct_udp_datagram_paths :: u64
  healthy_direct_quic_datagram_paths :: u64
  healthy_direct_quic_stream_paths :: u64
  healthy_direct_tcp_stream_paths :: u64
  healthy_relay_paths :: u64
  peers_with_supported_path :: u64
  peers_without_supported_path :: u64

definition path_runtime_stats_default :: path_runtime_stats where
  "path_runtime_stats_default =
     \<lparr>healthy_direct_udp_datagram_paths = 0, healthy_direct_quic_datagram_paths = 0,
      healthy_direct_quic_stream_paths = 0, healthy_direct_tcp_stream_paths = 0,
      healthy_relay_paths = 0, peers_with_supported_path = 0, peers_without_supported_path = 0\<rparr>"

fun count_kind :: "path_kind \<Rightarrow> path_runtime_stats \<Rightarrow> path_runtime_stats" where
  "count_kind DirectUdpDatagram st =
     st\<lparr>healthy_direct_udp_datagram_paths := healthy_direct_udp_datagram_paths st + 1\<rparr>"
| "count_kind DirectQuicDatagram st =
     st\<lparr>healthy_direct_quic_datagram_paths := healthy_direct_quic_datagram_paths st + 1\<rparr>"
| "count_kind DirectQuicStream st =
     st\<lparr>healthy_direct_quic_stream_paths := healthy_direct_quic_stream_paths st + 1\<rparr>"
| "count_kind DirectTcpStream st =
     st\<lparr>healthy_direct_tcp_stream_paths := healthy_direct_tcp_stream_paths st + 1\<rparr>"
| "count_kind CircuitRelay st = st\<lparr>healthy_relay_paths := healthy_relay_paths st + 1\<rparr>"

definition runtime_stats_for_peers ::
    "path_set \<Rightarrow> peer_id list \<Rightarrow> (peer_id \<Rightarrow> path_transport_support) \<Rightarrow> path_runtime_stats" where
  "runtime_stats_for_peers s peers support_for_peer =
     (let st = foldl (\<lambda>st c. count_kind (pc_kind c) st) path_runtime_stats_default
                 (filter pc_healthy (ps_candidates s))
      in foldl (\<lambda>st peer.
           if has_supported_path s peer (support_for_peer peer)
           then st\<lparr>peers_with_supported_path := peers_with_supported_path st + 1\<rparr>
           else st\<lparr>peers_without_supported_path := peers_without_supported_path st + 1\<rparr>) st peers)"

end
