(* ===== verification/Path_Selection.thy ===== *)
theory Path_Selection
  imports Path
begin

text \<open>
  Properties of the path table. The detailed state keeps a list of candidates and a list of
  connection inventories; \<open>tracked\<close> abstracts the inventories to a function from path keys to the
  connection ids behind each path, oldest first, and each operation is shown to act on that function.
\<close>

subsection \<open>Lists keyed by a projection\<close>

lemma find_update_first_key:
  assumes "\<And>x. key x = k \<Longrightarrow> key (f x) = k"
  shows "find (\<lambda>x. key x = k') (update_first (\<lambda>x. key x = k) f xs) =
    (if k' = k then map_option f (find (\<lambda>x. key x = k) xs) else find (\<lambda>x. key x = k') xs)"
  using assms by (induction xs) auto

lemma find_append: "find p (xs @ ys) = (case find p xs of None \<Rightarrow> find p ys | Some x \<Rightarrow> Some x)"
  by (induction xs) auto

lemma find_filter_key:
  "find (\<lambda>x. key x = k') (filter (\<lambda>x. key x \<noteq> k) xs) =
    (if k' = k then None else find (\<lambda>x. key x = k') xs)"
  by (induction xs) auto

lemma map_key_update_first:
  assumes "\<And>x. key x = k \<Longrightarrow> key (f x) = k"
  shows "map key (update_first (\<lambda>x. key x = k) f xs) = map key xs"
  using assms by (induction xs) auto

lemma set_update_first_key:
  assumes "distinct (map key xs)" and "x \<in> set (update_first (\<lambda>x. key x = k) f xs)"
  shows "x \<in> set xs \<and> key x \<noteq> k \<or> (\<exists>y \<in> set xs. key y = k \<and> x = f y)"
  using assms
proof (induction xs)
  case Nil
  then show ?case by simp
next
  case (Cons y ys)
  show ?case
  proof (cases "key y = k")
    case True
    with Cons.prems(1) have "key z \<noteq> k" if "z \<in> set ys" for z
      using that by (metis distinct.simps(2) image_eqI list.set_map list.simps(9))
    with Cons.prems(2) True show ?thesis by auto
  next
    case False
    with Cons show ?thesis by auto
  qed
qed

lemma set_update_first_other:
  "x \<in> set xs \<Longrightarrow> key x \<noteq> k \<Longrightarrow> x \<in> set (update_first (\<lambda>x. key x = k) f xs)"
  by (induction xs) auto

lemma find_key_unique:
  "distinct (map key xs) \<Longrightarrow> x \<in> set xs \<Longrightarrow> find (\<lambda>y. key y = key x) xs = Some x"
  by (induction xs) (auto simp: image_iff)

subsection \<open>Keys and tracked connections\<close>

type_synonym path_key = "peer_id \<times> path_kind \<times> peer_id option"

definition path_key :: "peer_id \<Rightarrow> path_kind \<Rightarrow> peer_id option \<Rightarrow> path_key" where
  "path_key peer kind relay = (peer, kind, if kind = CircuitRelay then relay else None)"

definition candidate_key :: "path_candidate \<Rightarrow> path_key" where
  "candidate_key c = path_key (pc_peer c) (pc_kind c) (pc_relay_peer c)"

definition inventory_key :: "path_connection_inventory \<Rightarrow> path_key" where
  "inventory_key i = path_key (inv_peer i) (inv_kind i) (inv_relay_peer i)"

lemma candidate_matches_key:
  "path_candidate_matches peer kind relay = (\<lambda>c. candidate_key c = path_key peer kind relay)"
  by (auto simp: fun_eq_iff path_candidate_matches_def candidate_key_def path_key_def)

lemma inventory_matches_key:
  "path_inventory_matches peer kind relay = (\<lambda>i. inventory_key i = path_key peer kind relay)"
  by (auto simp: fun_eq_iff path_inventory_matches_def inventory_key_def path_key_def)

definition tracked :: "path_set \<Rightarrow> path_key \<Rightarrow> connection_id list" where
  "tracked s k =
     (case find (\<lambda>i. inventory_key i = k) (ps_connection_inventories s) of
        None \<Rightarrow> [] | Some i \<Rightarrow> flatten_ids (inv_connection_ids i))"

text \<open>The specification of the inventory: the eight ids recorded last, each once, newest last.\<close>

definition track_id :: "connection_id \<Rightarrow> connection_id list \<Rightarrow> connection_id list" where
  "track_id c xs =
     (let kept = filter (\<lambda>e. e \<noteq> c) xs
      in (if length kept = MAX_TRACKED_PATH_CONNECTION_IDS then tl kept else kept) @ [c])"

definition ids_wf :: "connection_id list \<Rightarrow> bool" where
  "ids_wf xs \<longleftrightarrow> distinct xs \<and> length xs \<le> MAX_TRACKED_PATH_CONNECTION_IDS"

lemma flatten_ids_simps [simp]:
  "flatten_ids [] = []"
  "flatten_ids (None # ids) = flatten_ids ids"
  "flatten_ids (Some c # ids) = c # flatten_ids ids"
  by (simp_all add: flatten_ids_def map_filter_simps)

lemma flatten_replicate_None [simp]: "flatten_ids (replicate n None) = []"
  by (induction n) auto

lemma flatten_compact [simp]: "flatten_ids (compact_ids xs) = xs"
proof -
  have "flatten_ids (map Some xs @ replicate n None) = xs" for n
    by (induction xs) auto
  then show ?thesis by (simp add: compact_ids_def)
qed

lemma length_compact: "length xs \<le> MAX_TRACKED_PATH_CONNECTION_IDS \<Longrightarrow>
    length (compact_ids xs) = MAX_TRACKED_PATH_CONNECTION_IDS"
  by (simp add: compact_ids_def)

lemma ids_wf_filter: "ids_wf xs \<Longrightarrow> ids_wf (filter p xs)"
  by (auto simp: ids_wf_def intro: le_trans [OF length_filter_le])

lemma ids_wf_track_id:
  assumes "ids_wf xs"
  shows "ids_wf (track_id c xs)"
proof -
  let ?kept = "filter (\<lambda>e. e \<noteq> c) xs"
  have wf: "ids_wf ?kept" by (rule ids_wf_filter [OF assms])
  then have "distinct (tl ?kept)" by (simp add: ids_wf_def distinct_tl)
  moreover have "set (tl ?kept) \<subseteq> set ?kept" by (cases ?kept) auto
  moreover have "c \<notin> set ?kept" by simp
  ultimately have "c \<notin> set (tl ?kept)" "distinct (tl ?kept)" by blast+
  with wf show ?thesis
    by (auto simp: track_id_def ids_wf_def Let_def MAX_TRACKED_PATH_CONNECTION_IDS_def)
qed

lemma record_connection_id_Some:
  assumes "ids_wf (flatten_ids ids)"
  shows "flatten_ids (snd (record_connection_id ids (Some c))) = track_id c (flatten_ids ids)"
    and "fst (record_connection_id ids (Some c)) =
      connection_inventory_update (snd (record_connection_id ids (Some c))) True"
proof -
  have "length (filter (\<lambda>e. e \<noteq> c) (flatten_ids ids)) \<le> MAX_TRACKED_PATH_CONNECTION_IDS"
    using ids_wf_filter [OF assms] by (simp add: ids_wf_def)
  then show "flatten_ids (snd (record_connection_id ids (Some c))) = track_id c (flatten_ids ids)"
    by (simp add: record_connection_id_def track_id_def Let_def)
qed (simp add: record_connection_id_def Let_def)

lemma forget_connection_id_Some:
  assumes "ids_wf (flatten_ids ids)"
  shows "flatten_ids (snd (forget_connection_id ids (Some c))) = filter (\<lambda>e. e \<noteq> c) (flatten_ids ids)"
    and "fst (forget_connection_id ids (Some c)) =
      connection_inventory_update (snd (forget_connection_id ids (Some c))) (c \<in> set (flatten_ids ids))"
  using ids_wf_filter [OF assms, of "\<lambda>e. e \<noteq> c"]
  by (simp_all add: forget_connection_id_def ids_wf_def Let_def list_ex_iff)

lemma connection_id_None [simp]:
  "record_connection_id ids None = (connection_inventory_update ids False, ids)"
  "forget_connection_id ids None = (connection_inventory_update ids False, ids)"
  by (simp_all add: record_connection_id_def forget_connection_id_def)

definition latest :: "connection_id list \<Rightarrow> connection_id option" where
  "latest xs = (if xs = [] then None else Some (last xs))"

lemma connection_inventory_update_latest [simp]:
  "upd_latest_connection_id (connection_inventory_update ids b) = latest (flatten_ids ids)"
  "upd_tracked_connections (connection_inventory_update ids b) = clamp_word (length (flatten_ids ids))"
  "upd_connection_was_tracked (connection_inventory_update ids b) = b"
  by (simp_all add: connection_inventory_update_def latest_def Let_def)

subsection \<open>How operations act on the tracked connections\<close>

definition inventories_ok :: "path_set \<Rightarrow> bool" where
  "inventories_ok s \<longleftrightarrow>
     distinct (map inventory_key (ps_connection_inventories s)) \<and>
     (\<forall>i \<in> set (ps_connection_inventories s). ids_wf (flatten_ids (inv_connection_ids i)))"

lemma tracked_wf: "inventories_ok s \<Longrightarrow> ids_wf (tracked s k)"
  by (auto simp: tracked_def inventories_ok_def ids_wf_def split: option.split elim: find_splitE)

text \<open>Writing the ids of one inventory, or adding one for a key that has none.\<close>

lemma update_inventory:
  fixes s :: path_set
  assumes "inventories_ok s" and "ids_wf (flatten_ids ids)"
    and "find (\<lambda>i. inventory_key i = k) (ps_connection_inventories s) = Some i"
  defines "s' \<equiv> s\<lparr>ps_connection_inventories :=
      update_first (\<lambda>i. inventory_key i = k) (\<lambda>i. i\<lparr>inv_connection_ids := ids\<rparr>)
        (ps_connection_inventories s)\<rparr>"
  shows "inventories_ok s'" and "tracked s' = (tracked s)(k := flatten_ids ids)"
proof -
  have key: "inventory_key (i\<lparr>inv_connection_ids := ids\<rparr>) = inventory_key i" for i
    by (simp add: inventory_key_def)
  show "inventories_ok s'"
    using assms(1,2)
    by (auto simp: inventories_ok_def s'_def map_key_update_first key dest!: set_update_first_key)
  show "tracked s' = (tracked s)(k := flatten_ids ids)"
    using assms(3)
    by (auto simp: fun_eq_iff tracked_def s'_def find_update_first_key key split: option.splits)
qed

lemma append_inventory:
  fixes s :: path_set
  assumes "inventories_ok s" and "ids_wf (flatten_ids (inv_connection_ids i))"
    and "find (\<lambda>j. inventory_key j = inventory_key i) (ps_connection_inventories s) = None"
  defines "s' \<equiv> s\<lparr>ps_connection_inventories := ps_connection_inventories s @ [i]\<rparr>"
  shows "inventories_ok s'"
    and "tracked s' = (tracked s)(inventory_key i := flatten_ids (inv_connection_ids i))"
proof -
  have "inventory_key i \<notin> inventory_key ` set (ps_connection_inventories s)"
    using assms(3) by (auto simp: find_None_iff)
  with assms(1,2) show "inventories_ok s'" by (auto simp: inventories_ok_def s'_def)
  have "tracked s' k = ((tracked s)(inventory_key i := flatten_ids (inv_connection_ids i))) k" for k
    using assms(3) by (cases "k = inventory_key i")
      (auto simp: s'_def tracked_def find_append split: option.splits)
  then show "tracked s' = (tracked s)(inventory_key i := flatten_ids (inv_connection_ids i))"
    by (rule ext)
qed

lemma record_connection_inventory_spec:
  fixes s :: path_set and peer :: peer_id and kind :: path_kind and relay :: "peer_id option"
    and cid :: "connection_id option"
  assumes "inventories_ok s"
  defines "k \<equiv> path_key peer kind relay"
    and "out \<equiv> record_connection_inventory s peer kind relay cid"
    and "ids \<equiv> (case cid of None \<Rightarrow> tracked s (path_key peer kind relay)
                | Some c \<Rightarrow> track_id c (tracked s (path_key peer kind relay)))"
  shows "inventories_ok (snd out)" and "tracked (snd out) = (tracked s)(k := ids)"
    and "ps_candidates (snd out) = ps_candidates s"
    and "upd_latest_connection_id (fst out) = latest ids"
    and "upd_tracked_connections (fst out) = clamp_word (length ids)"
proof -
  have "inventories_ok (snd out) \<and> tracked (snd out) = (tracked s)(k := ids) \<and>
      ps_candidates (snd out) = ps_candidates s \<and>
      upd_latest_connection_id (fst out) = latest ids \<and>
      upd_tracked_connections (fst out) = clamp_word (length ids)"
  proof (cases "find (\<lambda>i. inventory_key i = k) (ps_connection_inventories s)")
    case None
    let ?start = "replicate MAX_TRACKED_PATH_CONNECTION_IDS None"
    let ?new = "snd (record_connection_id ?start cid)"
    have wf: "ids_wf (flatten_ids ?start)" by (simp add: ids_wf_def)
    have empty: "tracked s k = []" using None by (simp add: tracked_def)
    have new: "flatten_ids ?new = ids"
      using record_connection_id_Some(1) [OF wf] empty
      by (auto simp: ids_def k_def [symmetric] split: option.split)
    have upd: "fst (record_connection_id ?start cid) = connection_inventory_update ?new (cid \<noteq> None)"
      using record_connection_id_Some(2) [OF wf] by (cases cid) auto
    let ?i = "\<lparr>inv_peer = peer, inv_kind = kind, inv_relay_peer = relay, inv_connection_ids = ?new\<rparr>"
    have key: "inventory_key ?i = k" by (simp add: inventory_key_def k_def)
    have ok: "ids_wf (flatten_ids (inv_connection_ids ?i))"
      using new tracked_wf [OF assms(1), of k] ids_wf_track_id empty
      by (auto simp: ids_def k_def [symmetric] split: option.splits)
    have out: "out = (fst (record_connection_id ?start cid),
        s\<lparr>ps_connection_inventories := ps_connection_inventories s @ [?i]\<rparr>)"
      using None by (simp add: out_def record_connection_inventory_def inventory_matches_key
          k_def Let_def case_prod_unfold)
    from append_inventory [OF assms(1) ok] None show ?thesis
      by (simp add: out key upd new)
  next
    case (Some i)
    let ?new = "snd (record_connection_id (inv_connection_ids i) cid)"
    have t: "flatten_ids (inv_connection_ids i) = tracked s k" using Some by (simp add: tracked_def)
    have wf: "ids_wf (flatten_ids (inv_connection_ids i))" using tracked_wf [OF assms(1)] t by simp
    have new: "flatten_ids ?new = ids"
      using record_connection_id_Some(1) [OF wf] t
      by (auto simp: ids_def k_def [symmetric] split: option.split)
    have upd: "fst (record_connection_id (inv_connection_ids i) cid) =
        connection_inventory_update ?new (cid \<noteq> None)"
      using record_connection_id_Some(2) [OF wf] by (cases cid) auto
    have ok: "ids_wf (flatten_ids ?new)"
      using new wf t ids_wf_track_id by (auto simp: ids_def k_def [symmetric] split: option.splits)
    have out: "out = (fst (record_connection_id (inv_connection_ids i) cid),
        s\<lparr>ps_connection_inventories :=
          update_first (\<lambda>i. inventory_key i = k) (\<lambda>i. i\<lparr>inv_connection_ids := ?new\<rparr>)
            (ps_connection_inventories s)\<rparr>)"
      using Some by (simp add: out_def record_connection_inventory_def inventory_matches_key
          k_def Let_def case_prod_unfold)
    from update_inventory [OF assms(1) ok Some] show ?thesis by (simp add: out upd new)
  qed
  then show "inventories_ok (snd out)" "tracked (snd out) = (tracked s)(k := ids)"
    "ps_candidates (snd out) = ps_candidates s" "upd_latest_connection_id (fst out) = latest ids"
    "upd_tracked_connections (fst out) = clamp_word (length ids)"
    by blast+
qed

lemma forget_connection_inventory_spec:
  fixes s :: path_set and peer :: peer_id and kind :: path_kind and relay :: "peer_id option"
    and cid :: "connection_id option"
  assumes "inventories_ok s"
  defines "k \<equiv> path_key peer kind relay"
    and "out \<equiv> forget_connection_inventory s peer kind relay cid"
    and "ids \<equiv> filter (\<lambda>c. Some c \<noteq> cid) (tracked s (path_key peer kind relay))"
  shows "inventories_ok (snd out)" and "tracked (snd out) = (tracked s)(k := ids)"
    and "ps_candidates (snd out) = ps_candidates s"
    and "upd_latest_connection_id (fst out) = latest ids"
    and "upd_tracked_connections (fst out) = clamp_word (length ids)"
    and "upd_connection_was_tracked (fst out) \<longleftrightarrow> cid \<in> Some ` set (tracked s k)"
proof -
  have "inventories_ok (snd out) \<and> tracked (snd out) = (tracked s)(k := ids) \<and>
      ps_candidates (snd out) = ps_candidates s \<and>
      upd_latest_connection_id (fst out) = latest ids \<and>
      upd_tracked_connections (fst out) = clamp_word (length ids) \<and>
      (upd_connection_was_tracked (fst out) \<longleftrightarrow> cid \<in> Some ` set (tracked s k))"
  proof (cases "find (\<lambda>i. inventory_key i = k) (ps_connection_inventories s)")
    case None
    then have "tracked s k = []" by (simp add: tracked_def)
    moreover have "out = (inventory_update_default, s)"
      using None by (simp add: out_def forget_connection_inventory_def inventory_matches_key k_def Let_def)
    ultimately show ?thesis
      using assms(1)
      by (simp add: ids_def k_def [symmetric] inventory_update_default_def latest_def clamp_word_def
          fun_upd_idem)
  next
    case (Some i)
    let ?new = "snd (forget_connection_id (inv_connection_ids i) cid)"
    have t: "flatten_ids (inv_connection_ids i) = tracked s k" using Some by (simp add: tracked_def)
    have wf: "ids_wf (flatten_ids (inv_connection_ids i))" using tracked_wf [OF assms(1)] t by simp
    have new: "flatten_ids ?new = ids"
      using forget_connection_id_Some(1) [OF wf] t
      by (cases cid) (simp_all add: ids_def k_def [symmetric])
    have upd: "fst (forget_connection_id (inv_connection_ids i) cid) =
        connection_inventory_update ?new (cid \<in> Some ` set (tracked s k))"
      using forget_connection_id_Some(2) [OF wf] t by (cases cid) (auto simp: inj_image_mem_iff)
    have ok: "ids_wf (flatten_ids ?new)"
      using new tracked_wf [OF assms(1), of k] by (simp add: ids_def k_def [symmetric] ids_wf_filter)
    have out: "out = (fst (forget_connection_id (inv_connection_ids i) cid),
        s\<lparr>ps_connection_inventories :=
          update_first (\<lambda>i. inventory_key i = k) (\<lambda>i. i\<lparr>inv_connection_ids := ?new\<rparr>)
            (ps_connection_inventories s)\<rparr>)"
      using Some by (simp add: out_def forget_connection_inventory_def inventory_matches_key
          k_def Let_def case_prod_unfold)
    from update_inventory [OF assms(1) ok Some] show ?thesis by (simp add: out upd new)
  qed
  then show "inventories_ok (snd out)" "tracked (snd out) = (tracked s)(k := ids)"
    "ps_candidates (snd out) = ps_candidates s" "upd_latest_connection_id (fst out) = latest ids"
    "upd_tracked_connections (fst out) = clamp_word (length ids)"
    "upd_connection_was_tracked (fst out) \<longleftrightarrow> cid \<in> Some ` set (tracked s k)"
    by blast+
qed

lemma clear_connection_inventory_spec:
  assumes "inventories_ok s"
  shows "inventories_ok (clear_connection_inventory s peer kind relay)"
    and "tracked (clear_connection_inventory s peer kind relay) =
      (tracked s)(path_key peer kind relay := [])"
    and "ps_candidates (clear_connection_inventory s peer kind relay) = ps_candidates s"
  using assms
  by (auto simp: clear_connection_inventory_def inventories_ok_def inventory_matches_key
      distinct_map_filter tracked_def find_filter_key fun_eq_iff)

subsection \<open>The invariant of the path set\<close>

definition candidate_ok :: "(path_key \<Rightarrow> connection_id list) \<Rightarrow> path_candidate \<Rightarrow> bool" where
  "candidate_ok t c \<longleftrightarrow>
     pc_failure_penalty c \<le> PATH_FAILURE_PENALTY_MAX \<and> pc_relay c = (pc_kind c = CircuitRelay) \<and>
     (pc_latest_connection_id c \<noteq> None \<longrightarrow> pc_latest_connection_id c = latest (t (candidate_key c)))"

definition path_set_inv :: "path_set \<Rightarrow> bool" where
  "path_set_inv s \<longleftrightarrow>
     inventories_ok s \<and> distinct (map candidate_key (ps_candidates s)) \<and>
     (\<forall>c \<in> set (ps_candidates s). candidate_ok (tracked s) c)"

lemma candidate_ok_other:
  "candidate_ok t c \<Longrightarrow> candidate_key c \<noteq> k \<Longrightarrow> candidate_ok (t(k := ids)) c"
  by (simp add: candidate_ok_def)

lemma path_set_inv_update:
  assumes "path_set_inv s" and "inventories_ok s'" and "tracked s' = (tracked s)(k := ids)"
    and "ps_candidates s' = update_first (\<lambda>c. candidate_key c = k) f (ps_candidates s)"
    and "\<And>c. candidate_key c = k \<Longrightarrow> candidate_key (f c) = k"
    and "\<And>c. c \<in> set (ps_candidates s) \<Longrightarrow> candidate_key c = k \<Longrightarrow> candidate_ok (tracked s) c \<Longrightarrow>
      candidate_ok (tracked s') (f c)"
  shows "path_set_inv s'"
proof -
  have dist: "distinct (map candidate_key (ps_candidates s))"
    using assms(1) by (simp add: path_set_inv_def)
  have ok: "candidate_ok (tracked s) c" if "c \<in> set (ps_candidates s)" for c
    using that assms(1) by (simp add: path_set_inv_def)
  have "candidate_ok (tracked s') c" if "c \<in> set (ps_candidates s')" for c
    using set_update_first_key [OF dist that [unfolded assms(4)]]
  proof (elim disjE bexE conjE)
    assume "c \<in> set (ps_candidates s)" "candidate_key c \<noteq> k"
    then show ?thesis unfolding assms(3) by (intro candidate_ok_other ok)
  next
    fix y
    assume "y \<in> set (ps_candidates s)" "candidate_key y = k" "c = f y"
    then show ?thesis by (simp add: assms(6) ok)
  qed
  moreover have "map candidate_key (ps_candidates s') = map candidate_key (ps_candidates s)"
    unfolding assms(4) by (rule map_key_update_first) (rule assms(5))
  ultimately show ?thesis using assms(2) dist by (simp add: path_set_inv_def)
qed

lemma path_set_inv_push:
  assumes "path_set_inv s" and "inventories_ok s'"
    and "tracked s' = (tracked s)(candidate_key c := ids)"
    and "ps_candidates s' = ps_candidates s @ [c]" and "candidate_ok (tracked s') c"
    and "find (\<lambda>x. candidate_key x = candidate_key c) (ps_candidates s) = None"
  shows "path_set_inv s'"
proof -
  have fresh: "candidate_key x \<noteq> candidate_key c" if "x \<in> set (ps_candidates s)" for x
    using that assms(6) by (auto simp: find_None_iff)
  then have "candidate_ok (tracked s') x" if "x \<in> set (ps_candidates s)" for x
    using that assms(1) unfolding assms(3)
    by (intro candidate_ok_other) (auto simp: path_set_inv_def)
  moreover have "candidate_key c \<notin> candidate_key ` set (ps_candidates s)"
    using fresh by (metis imageE)
  ultimately show ?thesis using assms(1,2,4,5) by (auto simp: path_set_inv_def)
qed

lemma candidates_only [simp]:
  "tracked (update_candidate p f s) = tracked s"
  "tracked (push_candidate c s) = tracked s"
  "inventories_ok (update_candidate p f s) = inventories_ok s"
  "inventories_ok (push_candidate c s) = inventories_ok s"
  "ps_candidates (update_candidate p f s) = update_first p f (ps_candidates s)"
  "ps_candidates (push_candidate c s) = ps_candidates s @ [c]"
  by (simp_all add: tracked_def inventories_ok_def update_candidate_def push_candidate_def fun_eq_iff)

text \<open>Operations that leave the inventories alone.\<close>

lemma path_set_inv_touch:
  assumes "path_set_inv s"
    and "\<And>c. candidate_key c = k \<Longrightarrow> candidate_key (f c) = k"
    and "\<And>c. candidate_key c = k \<Longrightarrow> candidate_ok (tracked s) c \<Longrightarrow> candidate_ok (tracked s) (f c)"
  shows "path_set_inv (update_candidate (\<lambda>c. candidate_key c = k) f s)"
  by (rule path_set_inv_update [OF assms(1), where k = k and f = f and ids = "tracked s k"])
    (use assms in \<open>simp_all add: path_set_inv_def\<close>)

lemma path_set_inv_add:
  assumes "path_set_inv s" and "candidate_ok (tracked s) c"
    and "find (\<lambda>x. candidate_key x = candidate_key c) (ps_candidates s) = None"
  shows "path_set_inv (push_candidate c s)"
  by (rule path_set_inv_push [OF assms(1), where c = c and ids = "tracked s (candidate_key c)"])
    (use assms in \<open>simp_all add: path_set_inv_def\<close>)

lemma established_new:
  fixes s :: path_set and cid :: "connection_id option"
  assumes "inventories_ok s"
    and "find (\<lambda>c. candidate_key c = path_key peer kind relay) (ps_candidates s) = None"
  defines "out \<equiv> record_connection_inventory s peer kind relay cid"
  obtains c where "snd (record_established_with_details s peer kind relay mtu origin role rel cid now) =
      push_candidate c (snd out)"
    and "candidate_key c = path_key peer kind relay" and "pc_healthy c"
    and "pc_failure_penalty c = 0" and "pc_relay c = (pc_kind c = CircuitRelay)"
    and "pc_latest_connection_id c = upd_latest_connection_id (fst out)"
    and "pc_established_connections c = (if cid \<noteq> None then upd_tracked_connections (fst out) else 1)"
proof
  show "snd (record_established_with_details s peer kind relay mtu origin role rel cid now) =
      push_candidate ((path_candidate_new peer kind)
                    \<lparr>pc_relay_peer := relay, pc_estimated_mtu := mtu,
                     pc_origin := origin, pc_connection_role := role,
                     pc_established_as_relayed := rel,
                     pc_latest_connection_id := upd_latest_connection_id (fst out),
                     pc_first_seen_unix_seconds := now,
                     pc_last_established_unix_seconds := now,
                     pc_established_connections :=
                       (if cid \<noteq> None then upd_tracked_connections (fst out) else 1)\<rparr>) (snd out)"
    unfolding record_established_with_details_def Let_def case_prod_unfold snd_conv
      candidate_matches_key record_connection_inventory_spec(3) [OF assms(1)] assms(2) out_def
    by simp
qed (simp_all add: candidate_key_def path_candidate_new_def)

lemma established_known:
  fixes s :: path_set and cid :: "connection_id option"
  assumes "inventories_ok s"
    and "find (\<lambda>c. candidate_key c = path_key peer kind relay) (ps_candidates s) = Some c0"
  defines "out \<equiv> record_connection_inventory s peer kind relay cid"
  shows "snd (record_established_with_details s peer kind relay mtu origin role rel cid now) =
    update_candidate (\<lambda>c. candidate_key c = path_key peer kind relay)
      (establish_candidate relay mtu origin role rel cid now (fst out)) (snd out)"
  unfolding record_established_with_details_def Let_def case_prod_unfold snd_conv
    candidate_matches_key record_connection_inventory_spec(3) [OF assms(1)] assms(2) out_def
  by simp

lemma establish_candidate_key:
  "candidate_key c = path_key peer kind relay \<Longrightarrow>
     candidate_key (establish_candidate relay mtu origin role rel cid now u c) = path_key peer kind relay"
  by (auto simp: candidate_key_def path_key_def establish_candidate_def split: if_splits)

lemma record_established_inv:
  assumes "path_set_inv s"
  shows "path_set_inv (snd (record_established_with_details s peer kind relay mtu origin role rel cid now))"
proof -
  let ?k = "path_key peer kind relay"
  have ok: "inventories_ok s" using assms by (simp add: path_set_inv_def)
  note spec = record_connection_inventory_spec [OF ok, of peer kind relay cid]
  show ?thesis
  proof (cases "find (\<lambda>c. candidate_key c = ?k) (ps_candidates s)")
    case None
    show ?thesis
    proof (rule established_new [OF ok None, where cid = cid and mtu = mtu and origin = origin
          and role = role and rel = rel and now = now])
      fix c
      assume post: "snd (record_established_with_details s peer kind relay mtu origin role rel cid now) =
          push_candidate c (snd (record_connection_inventory s peer kind relay cid))"
        and key: "candidate_key c = ?k"
        and c: "pc_failure_penalty c = 0" "pc_relay c = (pc_kind c = CircuitRelay)"
          "pc_latest_connection_id c =
            upd_latest_connection_id (fst (record_connection_inventory s peer kind relay cid))"
      show ?thesis
        unfolding post
      proof (rule path_set_inv_push [OF assms, where c = c])
        show "find (\<lambda>x. candidate_key x = candidate_key c) (ps_candidates s) = None"
          using None by (simp only: key)
      qed (simp_all add: spec key c candidate_ok_def)
    qed
  next
    case (Some c0)
    show ?thesis
      unfolding established_known [OF ok Some]
    proof (rule path_set_inv_update [OF assms, where k = ?k])
      fix c
      assume "c \<in> set (ps_candidates s)" and key: "candidate_key c = ?k" and "candidate_ok (tracked s) c"
      with establish_candidate_key [OF key] spec show "candidate_ok
        (tracked (update_candidate (\<lambda>c. candidate_key c = ?k)
          (establish_candidate relay mtu origin role rel cid now
            (fst (record_connection_inventory s peer kind relay cid)))
          (snd (record_connection_inventory s peer kind relay cid))))
        (establish_candidate relay mtu origin role rel cid now
           (fst (record_connection_inventory s peer kind relay cid)) c)"
        by (simp add: candidate_ok_def) (simp add: establish_candidate_def)
    qed (simp_all add: spec establish_candidate_key)
  qed
qed

lemma record_unconfirmed_inv:
  assumes "path_set_inv s"
  shows "path_set_inv (snd (record_unconfirmed_with_details s peer kind relay mtu origin rel now))"
proof (cases "find (\<lambda>c. candidate_key c = path_key peer kind relay) (ps_candidates s)")
  case None
  define c where "c = (path_candidate_new peer kind)
      \<lparr>pc_healthy := False, pc_relay_peer := relay, pc_estimated_mtu := mtu, pc_origin := origin,
       pc_established_as_relayed := rel, pc_latest_connection_id := None,
       pc_first_seen_unix_seconds := now, pc_last_established_unix_seconds := now,
       pc_established_connections := 1\<rparr>"
  have key: "candidate_key c = path_key peer kind relay"
    by (simp add: c_def candidate_key_def path_candidate_new_def)
  have "path_set_inv (push_candidate c s)"
    using assms None
    by (intro path_set_inv_add) (simp_all only: key, simp add: c_def candidate_ok_def path_candidate_new_def)
  then show ?thesis
    unfolding record_unconfirmed_with_details_def Let_def snd_conv candidate_matches_key None c_def
    by simp
next
  case (Some c0)
  show ?thesis
    unfolding record_unconfirmed_with_details_def Let_def snd_conv candidate_matches_key Some
    using path_set_inv_touch [OF assms, of "path_key peer kind relay"
        "\<lambda>c. c\<lparr>pc_healthy := False, pc_relay_peer := relay,
             pc_estimated_mtu := option_or mtu (pc_estimated_mtu c), pc_origin := origin,
             pc_established_as_relayed := rel, pc_latest_connection_id := None,
             pc_first_seen_unix_seconds := option_or (pc_first_seen_unix_seconds c) now,
             pc_last_established_unix_seconds := now, pc_established_connections := 1\<rparr>"]
    by (auto simp: candidate_ok_def candidate_key_def path_key_def)
qed

lemma penalty_step_bound:
  "min (saturating_add_word p PATH_FAILURE_PENALTY_STEP) PATH_FAILURE_PENALTY_MAX \<le> PATH_FAILURE_PENALTY_MAX"
  by simp

lemma penalty_recovery_bound:
  "p \<le> PATH_FAILURE_PENALTY_MAX \<Longrightarrow> saturating_sub_word p r \<le> PATH_FAILURE_PENALTY_MAX"
  using unat_saturating_sub_word [of p r] by (simp add: word_le_nat_alt)

lemma fail_candidate_simps [simp]:
  "candidate_key (fail_candidate c) = candidate_key c"
  "candidate_ok t c \<Longrightarrow> candidate_ok t' (fail_candidate c)"
  "\<not> pc_healthy (fail_candidate c)"
  "pc_peer (fail_candidate c) = pc_peer c"
  by (simp_all add: fail_candidate_def candidate_key_def candidate_ok_def)

lemma mark_unhealthy_inv:
  assumes "path_set_inv s"
  shows "path_set_inv (snd (mark_unhealthy_for_relay s peer kind relay))"
proof -
  let ?k = "path_key peer kind relay"
  let ?s = "update_candidate (\<lambda>c. candidate_key c = ?k) fail_candidate s"
  have "inventories_ok ?s" using assms by (simp add: path_set_inv_def)
  note clear = clear_connection_inventory_spec [OF this, of peer kind relay]
  show ?thesis
    unfolding mark_unhealthy_for_relay_def Let_def snd_conv candidate_matches_key
    by (rule path_set_inv_update [OF assms, where k = ?k and f = fail_candidate])
      (simp_all add: clear)
qed

lemma lose_connection_simps [simp]:
  "candidate_key (lose_connection cid u c) = candidate_key c"
  "pc_peer (lose_connection cid u c) = pc_peer c"
  "pc_failure_penalty (lose_connection cid u c) = pc_failure_penalty c"
  "pc_relay (lose_connection cid u c) = pc_relay c"
  "pc_kind (lose_connection cid u c) = pc_kind c"
  by (simp_all add: lose_connection_def candidate_key_def Let_def)

lemma lose_connection_latest:
  "pc_latest_connection_id (lose_connection cid u c) =
     (if pc_established_connections (lose_connection cid u c) = 0 then None
      else if cid = None \<or> upd_connection_was_tracked u then upd_latest_connection_id u
      else pc_latest_connection_id c)"
  by (simp add: lose_connection_def Let_def)

text \<open>The state after a loss: the candidate's part and the inventories' part.\<close>

lemma record_connection_lost_state:
  fixes s :: path_set and peer :: peer_id and kind :: path_kind and relay :: "peer_id option"
    and cid :: "connection_id option"
  assumes "path_set_inv s"
  defines "k \<equiv> path_key peer kind relay"
    and "u \<equiv> fst (forget_connection_inventory s peer kind relay cid)"
    and "s' \<equiv> snd (record_connection_lost s peer kind relay cid)"
  shows "inventories_ok s'"
    and "ps_candidates s' = update_first (\<lambda>c. candidate_key c = k) (lose_connection cid u) (ps_candidates s)"
    and "tracked s' = (tracked s)(k :=
      (case find (\<lambda>c. candidate_key c = k) (ps_candidates s) of
         Some c \<Rightarrow> if pc_established_connections (lose_connection cid u c) = 0 then []
                    else filter (\<lambda>c. Some c \<noteq> cid) (tracked s k)
       | None \<Rightarrow> filter (\<lambda>c. Some c \<noteq> cid) (tracked s k)))"
proof -
  have "inventories_ok s" using assms(1) by (simp add: path_set_inv_def)
  note spec = forget_connection_inventory_spec [OF this, of peer kind relay cid]
  let ?t = "update_candidate (\<lambda>c. candidate_key c = k) (lose_connection cid u)
      (snd (forget_connection_inventory s peer kind relay cid))"
  have "inventories_ok ?t" using spec by simp
  note clear = clear_connection_inventory_spec [OF this, of peer kind relay]
  have s': "s' = (if is_some_and (\<lambda>c. pc_established_connections c = 0)
        (map_option (lose_connection cid u) (find (\<lambda>c. candidate_key c = k) (ps_candidates s)))
      then clear_connection_inventory ?t peer kind relay else ?t)"
    by (simp add: s'_def record_connection_lost_def Let_def case_prod_unfold candidate_matches_key
        spec(3) u_def k_def)
  show "inventories_ok s'" using clear spec by (simp add: s')
  show "ps_candidates s' = update_first (\<lambda>c. candidate_key c = k) (lose_connection cid u) (ps_candidates s)"
    using clear spec by (simp add: s')
  show "tracked s' = (tracked s)(k :=
      (case find (\<lambda>c. candidate_key c = k) (ps_candidates s) of
         Some c \<Rightarrow> if pc_established_connections (lose_connection cid u c) = 0 then []
                    else filter (\<lambda>c. Some c \<noteq> cid) (tracked s k)
       | None \<Rightarrow> filter (\<lambda>c. Some c \<noteq> cid) (tracked s k)))"
    using clear spec by (auto simp: s' k_def split: option.split)
qed

lemma record_connection_lost_inv:
  assumes "path_set_inv s"
  shows "path_set_inv (snd (record_connection_lost s peer kind relay cid))"
proof -
  let ?k = "path_key peer kind relay" and ?s = "snd (record_connection_lost s peer kind relay cid)"
  let ?u = "fst (forget_connection_inventory s peer kind relay cid)"
  have "inventories_ok s" using assms by (simp add: path_set_inv_def)
  note spec = forget_connection_inventory_spec [OF this, of peer kind relay cid]
  note st = record_connection_lost_state [OF assms, of peer kind relay cid]
  have dist: "distinct (map candidate_key (ps_candidates s))" using assms by (simp add: path_set_inv_def)
  have ok: "candidate_ok (tracked ?s) (lose_connection cid ?u c)"
    if c: "c \<in> set (ps_candidates s)" and key: "candidate_key c = ?k" for c
  proof -
    have c_ok: "candidate_ok (tracked s) c" using c assms by (simp add: path_set_inv_def)
    have "find (\<lambda>c. candidate_key c = ?k) (ps_candidates s) = Some c"
      using find_key_unique [OF dist c] by (simp only: key)
    then have t: "tracked ?s ?k = (if pc_established_connections (lose_connection cid ?u c) = 0 then []
        else filter (\<lambda>c. Some c \<noteq> cid) (tracked s ?k))"
      by (simp add: st(3))
    have "filter (\<lambda>c. Some c \<noteq> cid) (tracked s ?k) = tracked s ?k"
      if "cid = None \<or> \<not> upd_connection_was_tracked ?u"
      using that by (auto simp: spec(6) filter_id_conv)
    with c_ok t key spec(4) show ?thesis
      by (auto simp: candidate_ok_def lose_connection_latest split: if_splits)
  qed
  show ?thesis
    by (rule path_set_inv_update [OF assms st(1,3,2)]) (simp_all add: ok)
qed

text \<open>Mutations of a healthy candidate only concern one key.\<close>

lemma update_first_conj_key:
  assumes "distinct (map key xs)"
  shows "update_first (\<lambda>x. key x = k \<and> q x) f xs =
    update_first (\<lambda>x. key x = k) (\<lambda>x. if q x then f x else x) xs"
  using assms
proof (induction xs)
  case Nil
  then show ?case by simp
next
  case (Cons y ys)
  show ?case
  proof (cases "key y = k \<and> \<not> q y")
    case True
    with Cons.prems have "key z \<noteq> k" if "z \<in> set ys" for z
      using that by (metis distinct.simps(2) image_eqI list.set_map list.simps(9))
    then have "update_first (\<lambda>x. key x = k \<and> q x) f ys = ys"
      by (intro update_first_none) auto
    with True show ?thesis by simp
  next
    case False
    with Cons show ?thesis by auto
  qed
qed

lemma path_set_inv_mtu:
  assumes "path_set_inv s"
  shows "path_set_inv (update_candidate (\<lambda>c. path_candidate_matches peer kind relay c \<and> pc_healthy c)
    (\<lambda>c. c\<lparr>pc_estimated_mtu := m\<rparr>) s)"
proof -
  have dist: "distinct (map candidate_key (ps_candidates s))" using assms by (simp add: path_set_inv_def)
  have "update_candidate (\<lambda>c. path_candidate_matches peer kind relay c \<and> pc_healthy c)
      (\<lambda>c. c\<lparr>pc_estimated_mtu := m\<rparr>) s =
    update_candidate (\<lambda>c. candidate_key c = path_key peer kind relay)
      (\<lambda>c. if pc_healthy c then c\<lparr>pc_estimated_mtu := m\<rparr> else c) s"
    by (simp add: update_candidate_def candidate_matches_key update_first_conj_key [OF dist])
  then show ?thesis
    by (simp only:) (intro path_set_inv_touch [OF assms],
      auto simp: candidate_key_def candidate_ok_def)
qed

lemma mtu_inv:
  assumes "path_set_inv s"
  shows "path_set_inv (snd (lower_path_mtu_for_relay s peer kind relay mtu))"
    and "path_set_inv (snd (raise_path_mtu s peer kind mtu ceil))"
  using assms path_set_inv_mtu [OF assms]
  by (simp_all add: lower_path_mtu_for_relay_def raise_path_mtu_def Let_def split: option.splits)

lemma record_rtt_inv:
  assumes "path_set_inv s"
  shows "path_set_inv (snd (record_rtt_for_relay s peer kind relay rtt))"
proof -
  have "path_set_inv (update_candidate (path_candidate_matches peer kind relay)
      (\<lambda>c. c\<lparr>pc_healthy := True, pc_observed_rtt_ms := Some rtt,
         pc_failure_penalty :=
           saturating_sub_word (pc_failure_penalty c) PATH_FAILURE_PENALTY_RECOVERY_STEP\<rparr>) s)"
    unfolding candidate_matches_key
    by (intro path_set_inv_touch [OF assms])
      (auto simp: candidate_key_def candidate_ok_def penalty_recovery_bound)
  with assms show ?thesis by (simp add: record_rtt_for_relay_def Let_def)
qed

lemma record_stream_rtt_inv:
  "path_set_inv s \<Longrightarrow> path_set_inv (snd (record_stream_rtt s peer kind relay cid rtt))"
  by (simp add: record_stream_rtt_def record_rtt_inv)

lemma forget_peer_inv:
  assumes "path_set_inv s"
  shows "path_set_inv (forget_peer s peer)"
proof -
  have t: "tracked (forget_peer s peer) k = tracked s k" if "fst k \<noteq> peer" for k
  proof -
    have "find (\<lambda>i. inventory_key i = k) (filter (\<lambda>i. inv_peer i \<noteq> peer) is) =
        find (\<lambda>i. inventory_key i = k) is" for "is"
      using that by (induction "is") (auto simp: inventory_key_def path_key_def)
    then show ?thesis by (simp add: tracked_def forget_peer_def)
  qed
  have "candidate_ok (tracked (forget_peer s peer)) c"
    if "c \<in> set (ps_candidates s)" "pc_peer c \<noteq> peer" for c
    using that assms t [of "candidate_key c"]
    by (simp add: path_set_inv_def candidate_ok_def) (simp add: candidate_key_def path_key_def)
  with assms show ?thesis
    by (auto simp: path_set_inv_def inventories_ok_def forget_peer_def distinct_map_filter)
qed

lemma invalidate_connections_inv:
  assumes "path_set_inv s"
  shows "path_set_inv (snd (invalidate_connections s))"
proof -
  let ?s = "snd (invalidate_connections s)"
  have "map candidate_key (ps_candidates ?s) = map candidate_key (ps_candidates s)"
    by (simp add: invalidate_connections_def candidate_key_def)
  moreover have "inventories_ok ?s"
    by (simp add: inventories_ok_def invalidate_connections_def)
  moreover have "candidate_ok (tracked ?s) c" if "c \<in> set (ps_candidates ?s)" for c
    using that assms by (auto simp: path_set_inv_def invalidate_connections_def candidate_ok_def)
  ultimately show ?thesis using assms by (simp add: path_set_inv_def)
qed

lemma upsert_new_inv:
  assumes "path_set_inv s"
  shows "path_set_inv (upsert s (path_candidate_new peer kind))"
proof -
  let ?c = "path_candidate_new peer kind"
  have c: "candidate_ok t ?c" "candidate_key ?c = path_key peer kind None" for t
    by (simp_all add: candidate_ok_def path_candidate_new_def candidate_key_def)
  have m: "path_candidate_matches (pc_peer ?c) (pc_kind ?c) (pc_relay_peer ?c) =
      (\<lambda>x. candidate_key x = candidate_key ?c)"
    by (simp add: candidate_matches_key candidate_key_def)
  show ?thesis
  proof (cases "find (\<lambda>x. candidate_key x = candidate_key ?c) (ps_candidates s)")
    case None
    then show ?thesis
      unfolding upsert_def Let_def m using path_set_inv_add [OF assms c(1) None] by simp
  next
    case (Some d)
    then show ?thesis
      unfolding upsert_def Let_def m
      using path_set_inv_touch [OF assms, of "candidate_key ?c" "\<lambda>_. ?c"] c(1) by simp
  qed
qed

subsection \<open>Reachable path sets\<close>

inductive path_reachable :: "path_set \<Rightarrow> bool" where
  path_new: "path_reachable path_set_new"
| path_upsert: "path_reachable s \<Longrightarrow> path_reachable (upsert s (path_candidate_new peer kind))"
| path_established: "path_reachable s \<Longrightarrow>
    path_reachable (snd (record_established_with_details s peer kind relay mtu origin role rel cid now))"
| path_unconfirmed: "path_reachable s \<Longrightarrow>
    path_reachable (snd (record_unconfirmed_with_details s peer kind relay mtu origin rel now))"
| path_lost: "path_reachable s \<Longrightarrow> path_reachable (snd (record_connection_lost s peer kind relay cid))"
| path_unhealthy: "path_reachable s \<Longrightarrow> path_reachable (snd (mark_unhealthy_for_relay s peer kind relay))"
| path_lower_mtu: "path_reachable s \<Longrightarrow>
    path_reachable (snd (lower_path_mtu_for_relay s peer kind relay new_mtu))"
| path_raise_mtu: "path_reachable s \<Longrightarrow> path_reachable (snd (raise_path_mtu s peer kind new_mtu ceil))"
| path_rtt: "path_reachable s \<Longrightarrow> path_reachable (snd (record_rtt_for_relay s peer kind relay rtt))"
| path_stream_rtt: "path_reachable s \<Longrightarrow>
    path_reachable (snd (record_stream_rtt s peer kind relay connection rtt))"
| path_forget: "path_reachable s \<Longrightarrow> path_reachable (forget_peer s peer)"
| path_invalidate: "path_reachable s \<Longrightarrow> path_reachable (snd (invalidate_connections s))"

lemma path_set_new_inv: "path_set_inv path_set_new"
  by (simp add: path_set_inv_def inventories_ok_def path_set_new_def)

lemma path_reachable_inv: "path_reachable s \<Longrightarrow> path_set_inv s"
  by (induction rule: path_reachable.induct)
    (simp_all add: path_set_new_inv upsert_new_inv record_established_inv record_unconfirmed_inv
      record_connection_lost_inv mark_unhealthy_inv mtu_inv record_rtt_inv record_stream_rtt_inv
      forget_peer_inv invalidate_connections_inv)

text \<open>
  C26: in every reachable path set there is one candidate per peer, kind and (for relays) relay; its
  failure penalty is at most 50; a path remembers at most eight connections, each once; and the
  latest connection a candidate names is the newest of the connections tracked for it.
\<close>

theorem path_set_invariant:
  assumes "path_reachable s"
  shows "distinct (map candidate_key (ps_candidates s)) \<and>
    (\<forall>k. distinct (tracked s k) \<and> length (tracked s k) \<le> MAX_TRACKED_PATH_CONNECTION_IDS) \<and>
    (\<forall>c \<in> set (ps_candidates s).
       pc_failure_penalty c \<le> PATH_FAILURE_PENALTY_MAX \<and>
       (\<forall>cid. pc_latest_connection_id c = Some cid \<longrightarrow>
          tracked s (candidate_key c) \<noteq> [] \<and> last (tracked s (candidate_key c)) = cid))"
proof -
  have inv: "path_set_inv s" by (rule path_reachable_inv [OF assms])
  then have "ids_wf (tracked s k)" for k by (intro tracked_wf) (simp add: path_set_inv_def)
  with inv show ?thesis
    by (auto simp: path_set_inv_def candidate_ok_def ids_wf_def latest_def split: if_splits)
qed

subsection \<open>Selection, establishment and loss\<close>


lemma clamp_ids: "ids_wf xs \<Longrightarrow> clamp_word (length xs) = (word_of_nat (length xs) :: u32)"
  by (simp add: clamp_word_def ids_wf_def MAX_TRACKED_PATH_CONNECTION_IDS_def)

lemma count_ids_zero:
  assumes "ids_wf xs"
  shows "(word_of_nat (length xs) :: u32) = 0 \<longleftrightarrow> xs = []"
  using assms nat_dvd_not_less [of "length xs" "2 ^ 32"]
  by (auto simp: word_of_nat_eq_0_iff ids_wf_def MAX_TRACKED_PATH_CONNECTION_IDS_def)

lemma update_first_fixed: "find p xs = Some x \<Longrightarrow> f x = x \<Longrightarrow> update_first p f xs = xs"
  by (induction xs) (auto split: if_splits)

lemma lose_tracked_connection:
  assumes "ids_wf ids" and "upd_connection_was_tracked u"
    and "upd_latest_connection_id u = latest ids" and "upd_tracked_connections u = clamp_word (length ids)"
  shows "pc_established_connections (lose_connection (Some cid) u c) = word_of_nat (length ids)"
    and "pc_healthy (lose_connection (Some cid) u c) \<longleftrightarrow> pc_healthy c \<and> ids \<noteq> []"
    and "pc_latest_connection_id (lose_connection (Some cid) u c) = latest ids"
  using assms by (auto simp: lose_connection_def Let_def clamp_ids count_ids_zero latest_def)

lemma record_connection_lost_report:
  fixes s :: path_set and cid :: connection_id
  assumes "inventories_ok s" and "find_candidate s peer kind relay = Some c"
  defines "u \<equiv> fst (forget_connection_inventory s peer kind relay (Some cid))"
    and "failure \<equiv> fst (record_connection_lost s peer kind relay (Some cid))"
  shows "failure_connection_was_tracked failure = upd_connection_was_tracked u"
    and "failure_remaining_connections failure = pc_established_connections (lose_connection (Some cid) u c)"
    and "failure_path_healthy failure = pc_healthy (lose_connection (Some cid) u c)"
    and "failure_latest_connection_id failure = pc_latest_connection_id (lose_connection (Some cid) u c)"
  using assms(2) forget_connection_inventory_spec(3) [OF assms(1), of peer kind relay "Some cid"]
  by (simp_all add: failure_def u_def record_connection_lost_def Let_def case_prod_unfold find_candidate_def)

text \<open>
  reporting an established connection makes the path's candidate healthy, records the
  connection as the newest of at most eight distinct ones, and sets the candidate's connection count
  to the number tracked. The connections tracked for every other path are untouched.
\<close>

theorem record_established_effect:
  assumes "path_reachable s"
  shows "\<exists>c. find_candidate
        (snd (record_established_with_details s peer kind relay mtu origin role rel (Some cid) now))
        peer kind relay = Some c \<and>
      pc_healthy c \<and> pc_latest_connection_id c = Some cid \<and>
      pc_established_connections c =
        word_of_nat (length (track_id cid (tracked s (path_key peer kind relay)))) \<and>
      tracked (snd (record_established_with_details s peer kind relay mtu origin role rel (Some cid) now)) =
        (tracked s)(path_key peer kind relay := track_id cid (tracked s (path_key peer kind relay)))"
proof -
  let ?k = "path_key peer kind relay" and ?out = "record_connection_inventory s peer kind relay (Some cid)"
  have ok: "inventories_ok s" using path_reachable_inv [OF assms] by (simp add: path_set_inv_def)
  note spec = record_connection_inventory_spec [OF ok, of peer kind relay "Some cid"]
  have count: "clamp_word (length (track_id cid (tracked s ?k))) =
      (word_of_nat (length (track_id cid (tracked s ?k))) :: u32)"
    by (intro clamp_ids ids_wf_track_id tracked_wf ok)
  have newest: "latest (track_id cid xs) = Some cid" for xs
    by (simp add: latest_def track_id_def Let_def)
  show ?thesis
  proof (cases "find (\<lambda>c. candidate_key c = ?k) (ps_candidates s)")
    case None
    show ?thesis
      by (rule established_new [OF ok None, where cid = "Some cid" and mtu = mtu and origin = origin
          and role = role and rel = rel and now = now])
        (simp add: find_candidate_def candidate_matches_key find_append spec None count newest)
  next
    case (Some c0)
    show ?thesis
      unfolding established_known [OF ok Some] find_candidate_def candidate_matches_key
      by (simp add: find_update_first_key establish_candidate_key spec Some count newest)
        (simp add: establish_candidate_def spec count newest)
  qed
qed

text \<open>
  losing a connection that is tracked for a path removes exactly that connection. The path
  stays healthy only if it was and another connection remains, and then names the newest of those.
  A connection that is not tracked changes no candidate and no tracked connection while the path
  still has connections.
\<close>

theorem record_connection_lost_effect:
  fixes s :: path_set and cid :: connection_id
  assumes "path_reachable s" and "find_candidate s peer kind relay = Some c"
    and "pc_established_connections c \<noteq> 0"
  defines "k \<equiv> path_key peer kind relay"
    and "failure \<equiv> fst (record_connection_lost s peer kind relay (Some cid))"
    and "s' \<equiv> snd (record_connection_lost s peer kind relay (Some cid))"
  shows "if cid \<in> set (tracked s k)
    then failure_connection_was_tracked failure \<and>
      tracked s' = (tracked s)(k := removeAll cid (tracked s k)) \<and>
      failure_remaining_connections failure = word_of_nat (length (removeAll cid (tracked s k))) \<and>
      failure_path_healthy failure = (pc_healthy c \<and> removeAll cid (tracked s k) \<noteq> []) \<and>
      failure_latest_connection_id failure = latest (removeAll cid (tracked s k)) \<and>
      map_option pc_healthy (find_candidate s' peer kind relay) = Some (failure_path_healthy failure)
    else \<not> failure_connection_was_tracked failure \<and>
      tracked s' = tracked s \<and> ps_candidates s' = ps_candidates s"
proof -
  have inv: "path_set_inv s" by (rule path_reachable_inv [OF assms(1)])
  then have ok: "inventories_ok s" by (simp add: path_set_inv_def)
  let ?u = "fst (forget_connection_inventory s peer kind relay (Some cid))"
  let ?rest = "removeAll cid (tracked s k)" and ?c = "lose_connection (Some cid) ?u c"
  have rest: "filter (\<lambda>d. d \<noteq> cid) (tracked s k) = ?rest"
    by (simp add: removeAll_filter_not_eq) (metis (full_types))
  note spec = forget_connection_inventory_spec [OF ok, of peer kind relay "Some cid", folded k_def]
  note st = record_connection_lost_state [OF inv, of peer kind relay "Some cid", folded k_def s'_def]
  note report = record_connection_lost_report [OF ok assms(2), of cid, folded failure_def]
  have found: "find (\<lambda>c. candidate_key c = k) (ps_candidates s) = Some c"
    using assms(2) by (simp add: find_candidate_def candidate_matches_key k_def)
  show ?thesis
  proof (cases "cid \<in> set (tracked s k)")
    case True
    then have was: "upd_connection_was_tracked ?u" by (simp add: spec(6))
    have wf: "ids_wf ?rest" using ids_wf_filter [OF tracked_wf [OF ok]] rest by metis
    note c = lose_tracked_connection [OF wf was, of cid c]
    have "tracked s' = (tracked s)(k := ?rest)"
      using st(3) found c(1) rest spec count_ids_zero [OF wf] by (auto simp: fun_upd_def)
    moreover have "map_option pc_healthy (find_candidate s' peer kind relay) = Some (pc_healthy ?c)"
      by (simp add: find_candidate_def candidate_matches_key st(2) k_def [symmetric]
          find_update_first_key found)
    ultimately show ?thesis using True was c report spec(4,5) rest by simp
  next
    case False
    then have was: "\<not> upd_connection_was_tracked ?u" by (auto simp: spec(6))
    then have same: "?c = c" using assms(3) by (simp add: lose_connection_def)
    have "?rest = tracked s k" using False by simp
    then have "tracked s' = tracked s" using st(3) found same assms(3) rest by (simp add: fun_upd_idem)
    moreover have "ps_candidates s' = ps_candidates s"
      using update_first_fixed [OF found, of "lose_connection (Some cid) ?u"] same st(2) by simp
    ultimately show ?thesis using False was report by simp
  qed
qed

text \<open>
  Marking a path unhealthy removes exactly that path from the healthy ones, so it can no longer
  be selected, and forgets its connections; the connections of the other paths are kept.
\<close>

lemma mark_unhealthy_effect:
  fixes s :: path_set and peer :: peer_id and kind :: path_kind and relay :: "peer_id option"
  assumes "path_reachable s"
  defines "k \<equiv> path_key peer kind relay" and "s' \<equiv> snd (mark_unhealthy_for_relay s peer kind relay)"
  shows "candidate_key ` {c \<in> set (ps_candidates s'). pc_healthy c} =
      candidate_key ` {c \<in> set (ps_candidates s). pc_healthy c} - {k} \<and>
    tracked s' = (tracked s)(k := []) \<and>
    k \<notin> candidate_key ` set_option (best_for s' peer)"
proof -
  let ?t = "update_candidate (\<lambda>c. candidate_key c = k) fail_candidate s"
  have inv: "path_set_inv s" by (rule path_reachable_inv [OF assms(1)])
  then have "inventories_ok ?t" and dist: "distinct (map candidate_key (ps_candidates s))"
    by (simp_all add: path_set_inv_def)
  note clear = clear_connection_inventory_spec [OF this(1), of peer kind relay]
  have s': "s' = clear_connection_inventory ?t peer kind relay"
    by (simp add: s'_def mark_unhealthy_for_relay_def Let_def candidate_matches_key k_def)
  have cs: "ps_candidates s' = update_first (\<lambda>c. candidate_key c = k) fail_candidate (ps_candidates s)"
    by (simp add: s' clear)
  have healthy: "c \<in> set (ps_candidates s') \<and> pc_healthy c \<longleftrightarrow>
      c \<in> set (ps_candidates s) \<and> pc_healthy c \<and> candidate_key c \<noteq> k" for c
  proof
    assume "c \<in> set (ps_candidates s') \<and> pc_healthy c"
    then show "c \<in> set (ps_candidates s) \<and> pc_healthy c \<and> candidate_key c \<noteq> k"
      unfolding cs by (metis set_update_first_key [OF dist] fail_candidate_simps(3))
  next
    assume "c \<in> set (ps_candidates s) \<and> pc_healthy c \<and> candidate_key c \<noteq> k"
    then show "c \<in> set (ps_candidates s') \<and> pc_healthy c"
      unfolding cs by (simp add: set_update_first_other)
  qed
  then have "{c \<in> set (ps_candidates s'). pc_healthy c} =
      {c \<in> set (ps_candidates s). pc_healthy c \<and> candidate_key c \<noteq> k}" by blast
  moreover have "candidate_key c \<noteq> k" if "best_for s' peer = Some c" for c
    using that healthy [of c]
    by (auto simp: best_for_def best_supported_for_def is_selectable_def dest!: max_by_key_SomeD)
  moreover have "tracked s' = (tracked s)(k := [])"
    using clear(2) by (simp add: s' k_def)
  ultimately show ?thesis by (cases "best_for s' peer") auto
qed

definition healthy_sum :: "path_runtime_stats \<Rightarrow> u64" where
  "healthy_sum st =
     healthy_direct_udp_datagram_paths st + healthy_direct_quic_datagram_paths st +
     healthy_direct_quic_stream_paths st + healthy_direct_tcp_stream_paths st + healthy_relay_paths st"

lemma count_kind_sums:
  "healthy_sum (count_kind kind st) = healthy_sum st + 1"
  "peers_with_supported_path (count_kind kind st) = peers_with_supported_path st"
  "peers_without_supported_path (count_kind kind st) = peers_without_supported_path st"
  by (cases kind; simp add: healthy_sum_def)+

lemma count_kinds_sums:
  "healthy_sum (foldl (\<lambda>st c. count_kind (pc_kind c) st) st cs) = healthy_sum st + word_of_nat (length cs) \<and>
   peers_with_supported_path (foldl (\<lambda>st c. count_kind (pc_kind c) st) st cs) = peers_with_supported_path st \<and>
   peers_without_supported_path (foldl (\<lambda>st c. count_kind (pc_kind c) st) st cs) =
     peers_without_supported_path st"
  by (induction cs arbitrary: st) (simp_all add: count_kind_sums)

lemma count_peers_sums:
  fixes q :: "peer_id \<Rightarrow> bool"
  defines "step \<equiv> \<lambda>st peer. if q peer
       then st\<lparr>peers_with_supported_path := peers_with_supported_path st + 1\<rparr>
       else st\<lparr>peers_without_supported_path := peers_without_supported_path st + 1\<rparr>"
  shows "healthy_sum (foldl step st peers) = healthy_sum st \<and>
    peers_with_supported_path (foldl step st peers) =
      peers_with_supported_path st + word_of_nat (length (filter q peers)) \<and>
    peers_without_supported_path (foldl step st peers) =
      peers_without_supported_path st + word_of_nat (length (filter (\<lambda>p. \<not> q p) peers))"
  by (induction peers arbitrary: st) (simp_all add: step_def healthy_sum_def algebra_simps)

text \<open>
  The runtime statistics add up: the counters by kind sum to the number of healthy candidates
  and the peers with and without a supported path sum to the number of peers asked about.
\<close>

lemma runtime_stats_add_up:
  fixes s :: path_set and peers :: "peer_id list" and support :: "peer_id \<Rightarrow> path_transport_support"
  defines "st \<equiv> runtime_stats_for_peers s peers support"
  shows "healthy_sum st = word_of_nat (length (filter pc_healthy (ps_candidates s))) \<and>
    peers_with_supported_path st =
      word_of_nat (length (filter (\<lambda>p. has_supported_path s p (support p)) peers)) \<and>
    peers_with_supported_path st + peers_without_supported_path st = word_of_nat (length peers)"
proof -
  let ?q = "\<lambda>p. has_supported_path s p (support p)"
  have "(word_of_nat (length (filter ?q peers)) :: u64) + word_of_nat (length (filter (\<lambda>p. \<not> ?q p) peers)) =
      word_of_nat (length peers)"
    using sum_length_filter_compl [of ?q peers] by (metis of_nat_add)
  moreover have "healthy_sum path_runtime_stats_default = 0"
    "peers_with_supported_path path_runtime_stats_default = 0"
    "peers_without_supported_path path_runtime_stats_default = 0"
    by (simp_all add: healthy_sum_def path_runtime_stats_default_def)
  ultimately show ?thesis
    by (simp add: st_def runtime_stats_for_peers_def Let_def count_peers_sums [of ?q] count_kinds_sums)
qed

subsection \<open>Sample states\<close>

definition sample_paths :: path_set where
  "sample_paths =
     snd (record_established_with_details
       (snd (record_established_with_details path_set_new (PeerId [1]) DirectQuicStream None (Some 1400)
          Mdns Dialer False (Some 7) (Some 100)))
       (PeerId [1]) DirectQuicStream None None Mdns Listener False (Some 9) (Some 200))"

lemma sample_paths_reachable: "path_reachable sample_paths"
  unfolding sample_paths_def by (intro path_established path_new)

lemma sample_paths_tracked: "tracked sample_paths (path_key (PeerId [1]) DirectQuicStream None) = [7, 9]"
  by code_simp

theorem path_set_invariant_witness:
  "path_reachable sample_paths \<and> distinct (map candidate_key (ps_candidates sample_paths)) \<and>
   length (tracked sample_paths (path_key (PeerId [1]) DirectQuicStream None)) \<le>
     MAX_TRACKED_PATH_CONNECTION_IDS"
  using path_set_invariant [OF sample_paths_reachable] sample_paths_reachable by blast

end
