(* ===== verification/Fifo.thy ===== *)
theory Fifo
  imports Prelude
begin

text \<open>
  The contract of a bounded first-in first-out queue, stated for any operations that satisfy it. A
  queue that refuses an element keeps its contents. The client lemma follows a whole sequence of
  operations: what was accepted, in order, is what came out followed by what is still inside.
\<close>

datatype 'a queue_op = Enq 'a | Deq

fun run_ops ::
    "('q \<Rightarrow> 'a \<Rightarrow> (unit, 'e) result \<times> 'q) \<Rightarrow> ('q \<Rightarrow> 'a option \<times> 'q) \<Rightarrow> 'a queue_op list \<Rightarrow> 'q \<Rightarrow>
     'a list \<times> 'a list \<times> 'q" where
  "run_ops enq deq [] q = ([], [], q)"
| "run_ops enq deq (Enq x # ops) q =
     (let (r, q') = enq q x; (accepted, out, q'') = run_ops enq deq ops q'
      in (if r = Ok () then x # accepted else accepted, out, q''))"
| "run_ops enq deq (Deq # ops) q =
     (let (r, q') = deq q; (accepted, out, q'') = run_ops enq deq ops q'
      in (accepted, (case r of None \<Rightarrow> out | Some x \<Rightarrow> x # out), q''))"

locale bounded_fifo =
  fixes enq :: "'q \<Rightarrow> 'a \<Rightarrow> (unit, 'e) result \<times> 'q"
    and deq :: "'q \<Rightarrow> 'a option \<times> 'q"
    and contents :: "'q \<Rightarrow> 'a list"
    and fits :: "'q \<Rightarrow> 'a \<Rightarrow> bool"
    and inv :: "'q \<Rightarrow> bool"
  assumes enq_inv: "inv q \<Longrightarrow> inv (snd (enq q x))"
    and deq_inv: "inv q \<Longrightarrow> inv (snd (deq q))"
    and enq_Ok_iff: "inv q \<Longrightarrow> fst (enq q x) = Ok () \<longleftrightarrow> fits q x"
    and enq_contents:
      "inv q \<Longrightarrow> contents (snd (enq q x)) = (if fits q x then contents q @ [x] else contents q)"
    and deq_empty: "inv q \<Longrightarrow> contents q = [] \<Longrightarrow> fst (deq q) = None \<and> contents (snd (deq q)) = []"
    and deq_front:
      "inv q \<Longrightarrow> contents q = x # xs \<Longrightarrow> fst (deq q) = Some x \<and> contents (snd (deq q)) = xs"
begin

lemma run_ops_inv: "inv q \<Longrightarrow> inv (snd (snd (run_ops enq deq ops q)))"
proof (induction ops arbitrary: q)
  case Nil
  then show ?case by simp
next
  case (Cons op ops)
  show ?case
  proof (cases op)
    case (Enq x)
    with Cons enq_inv [OF Cons.prems, of x] show ?thesis
      by (simp add: case_prod_unfold Let_def)
  next
    case Deq
    with Cons deq_inv [OF Cons.prems] show ?thesis
      by (simp add: case_prod_unfold Let_def)
  qed
qed

lemma run_ops_fifo:
  assumes "inv q"
  shows "contents q @ fst (run_ops enq deq ops q) =
    fst (snd (run_ops enq deq ops q)) @ contents (snd (snd (run_ops enq deq ops q)))"
  using assms
proof (induction ops arbitrary: q)
  case Nil
  then show ?case by simp
next
  case (Cons op ops)
  show ?case
  proof (cases op)
    case (Enq x)
    from Cons.IH [OF enq_inv [OF Cons.prems, of x]] show ?thesis
      using Enq Cons.prems
      by (auto simp: case_prod_unfold Let_def enq_Ok_iff enq_contents split: if_splits)
  next
    case Deq
    note IH = Cons.IH [OF deq_inv [OF Cons.prems]]
    show ?thesis
    proof (cases "contents q")
      case Nil
      with IH Deq deq_empty [OF Cons.prems Nil] show ?thesis
        by (simp add: case_prod_unfold Let_def)
    next
      case (Cons x xs)
      with IH Deq deq_front [OF Cons.prems Cons] show ?thesis
        by (simp add: case_prod_unfold Let_def)
    qed
  qed
qed

end

end
