(* ===== verification/Queue.thy ===== *)
theory Queue
  imports Wire Fifo
begin

text \<open>
  The outbound packet queues of \<open>src/src/queue.rs\<close>: a bounded queue per peer, and the round-robin
  scheduler over the peers that have something queued.
  \<^item> The lifetime counters (\<open>dropped_*\<close>, \<open>expired_*\<close>) are \<open>u64\<close> and wrap, as in a release build.
  \<^item> \<open>queued_packets\<close> and \<open>queued_bytes\<close> are \<open>usize\<close>. The invariant \<open>peer_queue_inv\<close> shows that
    they are the length and the size of the queue, so the subtractions of the source never underflow.
  \<^item> A \<open>FnMut\<close> readiness test is a predicate: the tests the runner passes only read.
  \<^item> \<open>Instant::now()\<close> is an argument. Only the age statistic of a queue depends on it.
\<close>

subsection \<open>Flow hashing\<close>

definition FLOW_SHARDS :: u8 where
  "FLOW_SHARDS = 16"

definition hash_byte :: "u64 \<Rightarrow> u8 \<Rightarrow> u64" where
  "hash_byte hash byte = (hash XOR ucast byte) * 0x100000001b3"

definition hash_bytes :: "u64 \<Rightarrow> bytes \<Rightarrow> u64" where
  "hash_bytes hash bs = foldl hash_byte hash bs"

definition FNV_OFFSET :: u64 where
  "FNV_OFFSET = 0xcbf29ce484222325"

definition fallback_hash :: "bytes \<Rightarrow> u64" where
  "fallback_hash packet = hash_bytes FNV_OFFSET packet"

definition ipv4_flow_hash :: "bytes \<Rightarrow> u64" where
  "ipv4_flow_hash packet =
     (if length packet < 20 then fallback_hash packet
      else
        let protocol = packet ! 9;
            ihl = unat (packet ! 0 AND 0x0f) * 4;
            hash = hash_bytes FNV_OFFSET (slice 12 16 packet);
            hash = hash_bytes hash (slice 16 20 packet);
            hash = hash_byte hash protocol
        in if protocol \<in> {6, 17} \<and> saturating_add_usize ihl 4 \<le> length packet
           then hash_bytes hash (slice ihl (ihl + 4) packet)
           else hash)"

definition ipv6_flow_hash :: "bytes \<Rightarrow> u64" where
  "ipv6_flow_hash packet =
     (if length packet < 40 then fallback_hash packet
      else
        let next_header = packet ! 6;
            hash = hash_bytes FNV_OFFSET (slice 8 24 packet);
            hash = hash_bytes hash (slice 24 40 packet);
            hash = hash_byte hash next_header
        in if next_header \<in> {6, 17} \<and> 44 \<le> length packet
           then hash_bytes hash (slice 40 44 packet)
           else hash)"

definition version_nibble :: "bytes \<Rightarrow> u8 option" where
  "version_nibble packet = (case packet of [] \<Rightarrow> None | b # _ \<Rightarrow> Some (drop_bit 4 b))"

definition flow_shard :: "bytes \<Rightarrow> u8" where
  "flow_shard packet =
     (let hash = (if version_nibble packet = Some 4 then ipv4_flow_hash packet
                  else if version_nibble packet = Some 6 then ipv6_flow_hash packet
                  else fallback_hash packet)
      in ucast (hash mod ucast FLOW_SHARDS))"

definition requires_ordered_delivery :: "bytes \<Rightarrow> bool" where
  "requires_ordered_delivery packet =
     (if version_nibble packet = Some 4 \<and> 10 \<le> length packet then packet ! 9 = 6
      else if version_nibble packet = Some 6 \<and> 7 \<le> length packet then packet ! 6 = 6
      else True)"

subsection \<open>Packets and statistics\<close>

record packet =
  pkt_peer :: peer_id
  pkt_session_id :: "session_id option"
  pkt_sequence :: sequence
  pkt_flow_shard :: u8
  pkt_bytes :: bytes
  pkt_enqueued_at :: instant

definition packet_new_at :: "peer_id \<Rightarrow> sequence \<Rightarrow> bytes \<Rightarrow> instant \<Rightarrow> packet" where
  "packet_new_at peer seq bs enqueued_at =
     \<lparr>pkt_peer = peer, pkt_session_id = None, pkt_sequence = seq, pkt_flow_shard = flow_shard bs,
      pkt_bytes = bs, pkt_enqueued_at = enqueued_at\<rparr>"

definition packet_new :: "instant \<Rightarrow> peer_id \<Rightarrow> sequence \<Rightarrow> bytes \<Rightarrow> packet" where
  "packet_new now peer seq bs =
     \<lparr>pkt_peer = peer, pkt_session_id = None, pkt_sequence = seq, pkt_flow_shard = flow_shard bs,
      pkt_bytes = bs, pkt_enqueued_at = now\<rparr>"

definition packet_new_for_session ::
    "instant \<Rightarrow> peer_id \<Rightarrow> session_id \<Rightarrow> sequence \<Rightarrow> bytes \<Rightarrow> packet" where
  "packet_new_for_session now peer session seq bs =
     \<lparr>pkt_peer = peer, pkt_session_id = Some session, pkt_sequence = seq,
      pkt_flow_shard = flow_shard bs, pkt_bytes = bs, pkt_enqueued_at = now\<rparr>"

definition packet_len :: "packet \<Rightarrow> usize" where
  "packet_len p = length (pkt_bytes p)"

definition packet_is_empty :: "packet \<Rightarrow> bool" where
  "packet_is_empty p = (pkt_bytes p = [])"

definition packet_requires_ordered_delivery :: "packet \<Rightarrow> bool" where
  "packet_requires_ordered_delivery p = requires_ordered_delivery (pkt_bytes p)"

definition packet_is_expired :: "packet \<Rightarrow> instant \<Rightarrow> duration \<Rightarrow> bool" where
  "packet_is_expired p now max_age = (now - pkt_enqueued_at p > max_age)"

definition duration_millis :: "instant \<Rightarrow> instant \<Rightarrow> u64" where
  "duration_millis now before = clamp_word ((now - before) div 1000000)"

record queue_stats =
  qs_queued_packets :: usize
  qs_queued_bytes :: usize
  qs_oldest_packet_age_millis :: u64
  qs_dropped_packets :: u64
  qs_dropped_bytes :: u64
  qs_expired_packets :: u64
  qs_expired_bytes :: u64

definition queue_stats_default :: queue_stats where
  "queue_stats_default =
     \<lparr>qs_queued_packets = 0, qs_queued_bytes = 0, qs_oldest_packet_age_millis = 0,
      qs_dropped_packets = 0, qs_dropped_bytes = 0, qs_expired_packets = 0, qs_expired_bytes = 0\<rparr>"

definition queue_stats_add :: "queue_stats \<Rightarrow> queue_stats \<Rightarrow> queue_stats" where
  "queue_stats_add a b =
     \<lparr>qs_queued_packets = qs_queued_packets a + qs_queued_packets b,
      qs_queued_bytes = qs_queued_bytes a + qs_queued_bytes b,
      qs_oldest_packet_age_millis =
        (if qs_oldest_packet_age_millis a > qs_oldest_packet_age_millis b
         then qs_oldest_packet_age_millis a else qs_oldest_packet_age_millis b),
      qs_dropped_packets = qs_dropped_packets a + qs_dropped_packets b,
      qs_dropped_bytes = qs_dropped_bytes a + qs_dropped_bytes b,
      qs_expired_packets = qs_expired_packets a + qs_expired_packets b,
      qs_expired_bytes = qs_expired_bytes a + qs_expired_bytes b\<rparr>"

datatype enqueue_error =
    PacketTooLarge (packet_bytes: usize) (byte_limit: usize)
  | QueueFull (packet_bytes: usize)

subsection \<open>The queue of one peer\<close>

record peer_queue =
  pq_max_packets :: usize
  pq_max_bytes :: usize
  pq_max_packet_age :: duration
  pq_stats :: queue_stats
  pq_packets :: "packet list"

definition peer_queue_with_packet_ttl :: "usize \<Rightarrow> usize \<Rightarrow> duration \<Rightarrow> peer_queue" where
  "peer_queue_with_packet_ttl max_packets max_bytes max_packet_age =
     \<lparr>pq_max_packets = max_packets, pq_max_bytes = max_bytes, pq_max_packet_age = max_packet_age,
      pq_stats = queue_stats_default, pq_packets = []\<rparr>"

definition peer_queue_new :: "usize \<Rightarrow> usize \<Rightarrow> peer_queue" where
  "peer_queue_new max_packets max_bytes =
     peer_queue_with_packet_ttl max_packets max_bytes 1000000000"

definition record_drop :: "peer_queue \<Rightarrow> usize \<Rightarrow> peer_queue" where
  "record_drop q n =
     q\<lparr>pq_stats := (pq_stats q)\<lparr>qs_dropped_packets := qs_dropped_packets (pq_stats q) + 1,
                               qs_dropped_bytes := qs_dropped_bytes (pq_stats q) + clamp_word n\<rparr>\<rparr>"

definition record_expire :: "peer_queue \<Rightarrow> usize \<Rightarrow> peer_queue" where
  "record_expire q n =
     (let q = record_drop q n
      in q\<lparr>pq_stats := (pq_stats q)\<lparr>qs_expired_packets := qs_expired_packets (pq_stats q) + 1,
                                   qs_expired_bytes := qs_expired_bytes (pq_stats q) + clamp_word n\<rparr>\<rparr>)"

definition peer_queue_enqueue :: "peer_queue \<Rightarrow> packet \<Rightarrow> (unit, enqueue_error) result \<times> peer_queue" where
  "peer_queue_enqueue q p =
     (let n = packet_len p in
      if n > pq_max_bytes q
      then (Err (PacketTooLarge n (pq_max_bytes q)), record_drop q n)
      else if length (pq_packets q) \<ge> pq_max_packets q \<or>
              saturating_add_usize (qs_queued_bytes (pq_stats q)) n > pq_max_bytes q
      then (Err (QueueFull n), record_drop q n)
      else (Ok (), q\<lparr>pq_stats := (pq_stats q)\<lparr>qs_queued_packets := qs_queued_packets (pq_stats q) + 1,
                                              qs_queued_bytes := qs_queued_bytes (pq_stats q) + n\<rparr>,
                     pq_packets := pq_packets q @ [p]\<rparr>))"

text \<open>The accounting that follows the removal of a packet.\<close>

definition take_out :: "peer_queue \<Rightarrow> packet \<Rightarrow> packet list \<Rightarrow> peer_queue" where
  "take_out q p rest =
     q\<lparr>pq_stats := (pq_stats q)\<lparr>qs_queued_packets := qs_queued_packets (pq_stats q) - 1,
                               qs_queued_bytes := qs_queued_bytes (pq_stats q) - packet_len p\<rparr>,
       pq_packets := rest\<rparr>"

definition peer_queue_dequeue :: "peer_queue \<Rightarrow> packet option \<times> peer_queue" where
  "peer_queue_dequeue q =
     (case pq_packets q of [] \<Rightarrow> (None, q) | p # rest \<Rightarrow> (Some p, take_out q p rest))"

definition peer_queue_dequeue_ready :: "peer_queue \<Rightarrow> (packet \<Rightarrow> bool) \<Rightarrow> packet option \<times> peer_queue" where
  "peer_queue_dequeue_ready q is_ready =
     (case position is_ready (pq_packets q) of
        None \<Rightarrow> (None, q)
      | Some index \<Rightarrow>
          (let p = pq_packets q ! index
           in (Some p, take_out q p (remove_at index (pq_packets q)))))"

text \<open>\<open>while let Some(packet) = self.dequeue()\<close>, recording each packet as expired.\<close>

function expire_all :: "peer_queue \<Rightarrow> peer_queue" where
  "expire_all q =
     (case peer_queue_dequeue q of
        (None, q') \<Rightarrow> q'
      | (Some p, q') \<Rightarrow> expire_all (record_expire q' (packet_len p)))"
  by auto
termination
  by (relation "measure (\<lambda>q. length (pq_packets q))")
    (auto simp: peer_queue_dequeue_def take_out_def record_expire_def record_drop_def Let_def
      split: list.splits)

fun expire_first :: "nat \<Rightarrow> peer_queue \<Rightarrow> peer_queue" where
  "expire_first 0 q = q"
| "expire_first (Suc n) q =
     expire_first n
       (case peer_queue_dequeue q of
          (None, q') \<Rightarrow> q'
        | (Some p, q') \<Rightarrow> record_expire q' (packet_len p))"

definition peer_queue_drop_expired :: "peer_queue \<Rightarrow> instant \<Rightarrow> peer_queue" where
  "peer_queue_drop_expired q now =
     (case position (\<lambda>p. \<not> packet_is_expired p now (pq_max_packet_age q)) (pq_packets q) of
        None \<Rightarrow> expire_all q
      | Some first_fresh \<Rightarrow> expire_first first_fresh q)"

definition peer_queue_stats_at :: "peer_queue \<Rightarrow> instant \<Rightarrow> queue_stats" where
  "peer_queue_stats_at q now =
     (pq_stats q)\<lparr>qs_oldest_packet_age_millis :=
        (case pq_packets q of [] \<Rightarrow> 0 | p # _ \<Rightarrow> duration_millis now (pkt_enqueued_at p))\<rparr>"

subsection \<open>The queues of all peers\<close>

record peer_queues =
  pqs_max_packets_per_peer :: usize
  pqs_max_bytes_per_peer :: usize
  pqs_max_packet_age :: duration
  pqs_queues :: "(peer_id, peer_queue) hash_map"
  pqs_ready :: "peer_id list"
  pqs_retired_stats :: queue_stats

definition peer_queues_with_packet_ttl :: "usize \<Rightarrow> usize \<Rightarrow> duration \<Rightarrow> peer_queues" where
  "peer_queues_with_packet_ttl max_packets max_bytes max_age =
     \<lparr>pqs_max_packets_per_peer = max_packets, pqs_max_bytes_per_peer = max_bytes,
      pqs_max_packet_age = max_age, pqs_queues = [], pqs_ready = [],
      pqs_retired_stats = queue_stats_default\<rparr>"

definition peer_queues_new :: "usize \<Rightarrow> usize \<Rightarrow> peer_queues" where
  "peer_queues_new max_packets max_bytes =
     peer_queues_with_packet_ttl max_packets max_bytes 1000000000"

text \<open>\<open>queue.stats().queued_packets > 0\<close>: the field does not depend on the time of the snapshot.\<close>

definition has_queued :: "peer_queue \<Rightarrow> bool" where
  "has_queued q \<longleftrightarrow> qs_queued_packets (pq_stats q) > 0"

text \<open>\<open>entry(peer).or_insert_with(...)\<close>: the queue of the peer, created when it is missing.\<close>

definition queue_mut :: "peer_queues \<Rightarrow> peer_id \<Rightarrow> peer_queue" where
  "queue_mut s peer =
     (case hm_get (pqs_queues s) peer of
        Some q \<Rightarrow> q
      | None \<Rightarrow> peer_queue_with_packet_ttl (pqs_max_packets_per_peer s) (pqs_max_bytes_per_peer s)
                  (pqs_max_packet_age s))"

definition put_queue :: "peer_queues \<Rightarrow> peer_id \<Rightarrow> peer_queue \<Rightarrow> peer_queues" where
  "put_queue s peer q = s\<lparr>pqs_queues := hm_insert (pqs_queues s) peer q\<rparr>"

definition push_ready :: "bool \<Rightarrow> peer_id \<Rightarrow> peer_queues \<Rightarrow> peer_queues" where
  "push_ready again peer s = (if again then s\<lparr>pqs_ready := pqs_ready s @ [peer]\<rparr> else s)"

definition peer_queues_enqueue :: "peer_queues \<Rightarrow> packet \<Rightarrow> (unit, enqueue_error) result \<times> peer_queues" where
  "peer_queues_enqueue s p =
     (let peer = pkt_peer p;
          was_empty = is_none_or (\<lambda>q. qs_queued_packets (pq_stats q) = 0) (hm_get (pqs_queues s) peer)
      in case peer_queue_enqueue (queue_mut s peer) p of
           (Inl e, q) \<Rightarrow> (Err e, put_queue s peer q)
         | (Inr _, q) \<Rightarrow> (Ok (), push_ready was_empty peer (put_queue s peer q)))"

definition peer_queues_dequeue :: "peer_queues \<Rightarrow> packet option \<times> peer_queues" where
  "peer_queues_dequeue s =
     (case pqs_ready s of
        [] \<Rightarrow> (None, s)
      | peer # rest \<Rightarrow>
          (let s = s\<lparr>pqs_ready := rest\<rparr> in
           case hm_get (pqs_queues s) peer of
             None \<Rightarrow> (None, s)
           | Some q \<Rightarrow>
               (case peer_queue_dequeue q of
                  (None, q) \<Rightarrow> (None, put_queue s peer q)
                | (Some p, q) \<Rightarrow> (Some p, push_ready (has_queued q) peer (put_queue s peer q)))))"

text \<open>\<open>for _ in 0..ready_len\<close> of \<open>dequeue_ready_packet\<close>, one round per recursion.\<close>

fun dequeue_ready_rounds ::
    "nat \<Rightarrow> (peer_id \<Rightarrow> packet \<Rightarrow> bool) \<Rightarrow> peer_queues \<Rightarrow> packet option \<times> peer_queues" where
  "dequeue_ready_rounds 0 is_ready s = (None, s)"
| "dequeue_ready_rounds (Suc n) is_ready s =
     (case pqs_ready s of
        [] \<Rightarrow> (None, s)
      | peer # rest \<Rightarrow>
          (let s = s\<lparr>pqs_ready := rest\<rparr> in
           case hm_get (pqs_queues s) peer of
             None \<Rightarrow> dequeue_ready_rounds n is_ready s
           | Some q \<Rightarrow>
               (case peer_queue_dequeue_ready q (is_ready peer) of
                  (None, q) \<Rightarrow>
                    dequeue_ready_rounds n is_ready (push_ready (has_queued q) peer (put_queue s peer q))
                | (Some p, q) \<Rightarrow> (Some p, push_ready (has_queued q) peer (put_queue s peer q)))))"

definition dequeue_ready_packet ::
    "peer_queues \<Rightarrow> (peer_id \<Rightarrow> packet \<Rightarrow> bool) \<Rightarrow> packet option \<times> peer_queues" where
  "dequeue_ready_packet s is_ready = dequeue_ready_rounds (length (pqs_ready s)) is_ready s"

definition peer_queues_dequeue_ready :: "peer_queues \<Rightarrow> (peer_id \<Rightarrow> bool) \<Rightarrow> packet option \<times> peer_queues" where
  "peer_queues_dequeue_ready s is_ready = dequeue_ready_packet s (\<lambda>peer _. is_ready peer)"

fun drop_expired_rounds :: "nat \<Rightarrow> instant \<Rightarrow> peer_queues \<Rightarrow> peer_queues" where
  "drop_expired_rounds 0 now s = s"
| "drop_expired_rounds (Suc n) now s =
     (case pqs_ready s of
        [] \<Rightarrow> s
      | peer # rest \<Rightarrow>
          (let s = s\<lparr>pqs_ready := rest\<rparr> in
           case hm_get (pqs_queues s) peer of
             None \<Rightarrow> drop_expired_rounds n now s
           | Some q \<Rightarrow>
               (let q = peer_queue_drop_expired q now
                in drop_expired_rounds n now (push_ready (has_queued q) peer (put_queue s peer q)))))"

definition peer_queues_drop_expired :: "peer_queues \<Rightarrow> instant \<Rightarrow> peer_queues" where
  "peer_queues_drop_expired s now = drop_expired_rounds (length (pqs_ready s)) now s"

definition peer_stats_at :: "peer_queues \<Rightarrow> peer_id \<Rightarrow> instant \<Rightarrow> queue_stats" where
  "peer_stats_at s peer now =
     (case hm_get (pqs_queues s) peer of
        None \<Rightarrow> queue_stats_default
      | Some q \<Rightarrow> peer_queue_stats_at q now)"

definition total_stats_at :: "peer_queues \<Rightarrow> instant \<Rightarrow> queue_stats" where
  "total_stats_at s now =
     foldl (\<lambda>total q. queue_stats_add total (peer_queue_stats_at q now))
       (pqs_retired_stats s) (map snd (pqs_queues s))"

text \<open>\<open>while let Some(packet) = queue.dequeue()\<close> of \<open>retain_peers\<close>, counting the packets.\<close>

function discard_all :: "peer_queue \<Rightarrow> u64 \<Rightarrow> peer_queue \<times> u64" where
  "discard_all q discarded =
     (case peer_queue_dequeue q of
        (None, q') \<Rightarrow> (q', discarded)
      | (Some p, q') \<Rightarrow> discard_all (record_drop q' (packet_len p)) (discarded + 1))"
  by auto
termination
  by (relation "measure (\<lambda>(q, _). length (pq_packets q))")
    (auto simp: peer_queue_dequeue_def take_out_def record_drop_def split: list.splits)

fun retain_queues ::
    "(peer_id \<Rightarrow> bool) \<Rightarrow> instant \<Rightarrow> (peer_id, peer_queue) hash_map \<Rightarrow> queue_stats \<Rightarrow> u64 \<Rightarrow>
     (peer_id, peer_queue) hash_map \<times> queue_stats \<times> u64" where
  "retain_queues retain now [] retired discarded = ([], retired, discarded)"
| "retain_queues retain now ((peer, q) # queues) retired discarded =
     (if retain peer
      then let (kept, retired, discarded) = retain_queues retain now queues retired discarded
           in ((peer, q) # kept, retired, discarded)
      else let (q, discarded) = discard_all q discarded
           in retain_queues retain now queues
                (queue_stats_add retired (peer_queue_stats_at q now)) discarded)"

definition peer_queues_retain_peers ::
    "peer_queues \<Rightarrow> (peer_id \<Rightarrow> bool) \<Rightarrow> instant \<Rightarrow> u64 \<times> peer_queues" where
  "peer_queues_retain_peers s retain now =
     (let (queues, retired, discarded) =
            retain_queues retain now (pqs_queues s) (pqs_retired_stats s) 0
      in (discarded, s\<lparr>pqs_queues := queues, pqs_retired_stats := retired,
                       pqs_ready := filter (hm_contains queues) (pqs_ready s)\<rparr>))"

definition queued_peers :: "peer_queues \<Rightarrow> peer_id list" where
  "queued_peers s = map fst (filter (\<lambda>(_, q). has_queued q) (pqs_queues s))"

definition peer_has_ready_packet :: "peer_queues \<Rightarrow> peer_id \<Rightarrow> (packet \<Rightarrow> bool) \<Rightarrow> bool" where
  "peer_has_ready_packet s peer is_ready =
     is_some_and (\<lambda>q. list_ex is_ready (pq_packets q)) (hm_get (pqs_queues s) peer)"

declare expire_all.simps [simp del] discard_all.simps [simp del]

subsection \<open>The queue of one peer is a bounded first-in first-out queue\<close>

definition peer_queue_inv :: "peer_queue \<Rightarrow> bool" where
  "peer_queue_inv q \<longleftrightarrow>
     qs_queued_packets (pq_stats q) = length (pq_packets q) \<and>
     qs_queued_bytes (pq_stats q) = sum_list (map packet_len (pq_packets q)) \<and>
     length (pq_packets q) \<le> pq_max_packets q \<and>
     sum_list (map packet_len (pq_packets q)) \<le> pq_max_bytes q \<and>
     pq_max_bytes q < usize_max"

definition peer_queue_fits :: "peer_queue \<Rightarrow> packet \<Rightarrow> bool" where
  "peer_queue_fits q p \<longleftrightarrow>
     length (pq_packets q) < pq_max_packets q \<and>
     sum_list (map packet_len (pq_packets q)) + packet_len p \<le> pq_max_bytes q"

text \<open>Packets that are queued or were counted as dropped, modulo the width of the counter.\<close>

definition accounted :: "queue_stats \<Rightarrow> u64" where
  "accounted st = word_of_nat (qs_queued_packets st) + qs_dropped_packets st"

lemma take_out_simps [simp]:
  "pq_packets (take_out q p rest) = rest"
  "pq_max_packets (take_out q p rest) = pq_max_packets q"
  "pq_max_bytes (take_out q p rest) = pq_max_bytes q"
  "pq_max_packet_age (take_out q p rest) = pq_max_packet_age q"
  by (simp_all add: take_out_def)

lemma record_simps [simp]:
  "pq_packets (record_drop q n) = pq_packets q"
  "pq_max_packets (record_drop q n) = pq_max_packets q"
  "pq_max_bytes (record_drop q n) = pq_max_bytes q"
  "pq_max_packet_age (record_drop q n) = pq_max_packet_age q"
  "pq_packets (record_expire q n) = pq_packets q"
  "pq_max_packets (record_expire q n) = pq_max_packets q"
  "pq_max_bytes (record_expire q n) = pq_max_bytes q"
  "pq_max_packet_age (record_expire q n) = pq_max_packet_age q"
  "peer_queue_inv (record_drop q n) = peer_queue_inv q"
  "peer_queue_inv (record_expire q n) = peer_queue_inv q"
  "accounted (pq_stats (record_drop q n)) = accounted (pq_stats q) + 1"
  "accounted (pq_stats (record_expire q n)) = accounted (pq_stats q) + 1"
  by (simp_all add: record_drop_def record_expire_def peer_queue_inv_def accounted_def Let_def)

lemma peer_queue_inv_new [simp]:
  "mb < usize_max \<Longrightarrow> peer_queue_inv (peer_queue_with_packet_ttl mp mb age)"
  by (simp add: peer_queue_inv_def peer_queue_with_packet_ttl_def queue_stats_default_def)

lemma peer_queue_new_simps [simp]:
  "pq_packets (peer_queue_with_packet_ttl mp mb age) = []"
  "pq_max_packets (peer_queue_with_packet_ttl mp mb age) = mp"
  "pq_max_bytes (peer_queue_with_packet_ttl mp mb age) = mb"
  "pq_max_packet_age (peer_queue_with_packet_ttl mp mb age) = age"
  "pq_stats (peer_queue_with_packet_ttl mp mb age) = queue_stats_default"
  by (simp_all add: peer_queue_with_packet_ttl_def)

text \<open>Taking any packet out keeps the invariant and the accounts.\<close>

lemma take_out_inv:
  assumes "peer_queue_inv q" and "mset (pq_packets q) = add_mset p (mset rest)"
  shows "peer_queue_inv (take_out q p rest)"
    and "accounted (pq_stats (take_out q p rest)) + 1 = accounted (pq_stats q)"
    and "sum_list (map packet_len rest) + packet_len p = sum_list (map packet_len (pq_packets q))"
proof -
  have len: "length (pq_packets q) = Suc (length rest)"
    using arg_cong [OF assms(2), of size] by simp
  have "sum_mset (image_mset packet_len (mset (pq_packets q))) =
      packet_len p + sum_mset (image_mset packet_len (mset rest))"
    using assms(2) by simp
  then have sum: "sum_list (map packet_len (pq_packets q)) =
      packet_len p + sum_list (map packet_len rest)"
    by (metis mset_map sum_mset_sum_list)
  show "peer_queue_inv (take_out q p rest)"
    using assms(1) len sum by (simp add: peer_queue_inv_def take_out_def)
  show "accounted (pq_stats (take_out q p rest)) + 1 = accounted (pq_stats q)"
    using assms(1) len by (simp add: peer_queue_inv_def take_out_def accounted_def)
  show "sum_list (map packet_len rest) + packet_len p = sum_list (map packet_len (pq_packets q))"
    using sum by simp
qed

lemma peer_queue_enqueue_cases:
  assumes "peer_queue_inv q"
  shows "peer_queue_enqueue q p =
    (if peer_queue_fits q p
     then (Ok (), q\<lparr>pq_stats := (pq_stats q)\<lparr>qs_queued_packets := Suc (length (pq_packets q)),
             qs_queued_bytes := sum_list (map packet_len (pq_packets q)) + packet_len p\<rparr>,
           pq_packets := pq_packets q @ [p]\<rparr>)
     else (Err (if packet_len p > pq_max_bytes q then PacketTooLarge (packet_len p) (pq_max_bytes q)
                else QueueFull (packet_len p)), record_drop q (packet_len p)))"
  using assms
  by (auto simp: peer_queue_enqueue_def peer_queue_fits_def peer_queue_inv_def Let_def
      saturating_add_exceeds_iff not_le not_less)

lemma peer_queue_enqueue_inv:
  assumes "peer_queue_inv q"
  shows "peer_queue_inv (snd (peer_queue_enqueue q p))"
    and "accounted (pq_stats (snd (peer_queue_enqueue q p))) = accounted (pq_stats q) + 1"
  using assms
  by (auto simp: peer_queue_enqueue_cases, auto simp: accounted_def peer_queue_fits_def peer_queue_inv_def)

lemma peer_queue_dequeue_inv:
  assumes "peer_queue_inv q"
  shows "peer_queue_inv (snd (peer_queue_dequeue q))"
  using assms take_out_inv(1) [OF assms]
  by (auto simp: peer_queue_dequeue_def split: list.splits)

interpretation peer_fifo: bounded_fifo peer_queue_enqueue peer_queue_dequeue pq_packets
  peer_queue_fits peer_queue_inv
  by (unfold_locales, rule peer_queue_enqueue_inv(1), assumption, rule peer_queue_dequeue_inv,
    assumption) (auto simp: peer_queue_enqueue_cases peer_queue_dequeue_def)

text \<open>
  C25: whatever sequence of enqueues and dequeues runs on the queue of a peer, the packets it
  accepted come out in the order they went in and exactly the others are still queued, and the
  queue stays within its packet and byte limits with the counters equal to its length and size.
\<close>

theorem peer_queue_first_in_first_out:
  assumes "max_bytes < usize_max"
    and "run_ops peer_queue_enqueue peer_queue_dequeue ops
           (peer_queue_with_packet_ttl max_packets max_bytes max_age) = (accepted, out, q)"
  shows "accepted = out @ pq_packets q \<and>
    qs_queued_packets (pq_stats q) = length (pq_packets q) \<and>
    qs_queued_bytes (pq_stats q) = sum_list (map packet_len (pq_packets q)) \<and>
    length (pq_packets q) \<le> pq_max_packets q \<and>
    sum_list (map packet_len (pq_packets q)) \<le> pq_max_bytes q"
proof -
  have inv: "peer_queue_inv (peer_queue_with_packet_ttl max_packets max_bytes max_age)"
    using assms(1) by simp
  from peer_fifo.run_ops_fifo [OF inv, of ops] peer_fifo.run_ops_inv [OF inv, of ops] assms(2)
  show ?thesis by (simp add: peer_queue_inv_def)
qed

theorem peer_queue_first_in_first_out_witness:
  "let a = packet_new_at (PeerId [1]) 1 [1, 2] 0; b = packet_new_at (PeerId [1]) 2 [3] 0;
       c = packet_new_at (PeerId [1]) 3 [4, 5, 6] 0;
       r = run_ops peer_queue_enqueue peer_queue_dequeue [Enq a, Enq b, Enq c, Deq]
             (peer_queue_with_packet_ttl 2 4 0)
   in fst r = [a, b] \<and> fst (snd r) = [a] \<and> fst r = fst (snd r) @ pq_packets (snd (snd r))"
proof -
  have r: "run_ops peer_queue_enqueue peer_queue_dequeue
      [Enq (packet_new_at (PeerId [1]) 1 [1, 2] 0), Enq (packet_new_at (PeerId [1]) 2 [3] 0),
       Enq (packet_new_at (PeerId [1]) 3 [4, 5, 6] 0), Deq] (peer_queue_with_packet_ttl 2 4 0) =
      (fst r, fst (snd r), snd (snd r))"
    if "r = run_ops peer_queue_enqueue peer_queue_dequeue
      [Enq (packet_new_at (PeerId [1]) 1 [1, 2] 0), Enq (packet_new_at (PeerId [1]) 2 [3] 0),
       Enq (packet_new_at (PeerId [1]) 3 [4, 5, 6] 0), Deq] (peer_queue_with_packet_ttl 2 4 0)" for r
    using that by simp
  have lim: "4 < usize_max" by (simp add: usize_max_def)
  show ?thesis
    unfolding Let_def
    using peer_queue_first_in_first_out [OF lim r [OF refl]]
    by (intro conjI) (code_simp, code_simp, blast)
qed

subsection \<open>Expiry and discarding\<close>

lemma expire_first_inv:
  assumes "peer_queue_inv q" and "n \<le> length (pq_packets q)"
  shows "peer_queue_inv (expire_first n q) \<and>
    accounted (pq_stats (expire_first n q)) = accounted (pq_stats q) \<and>
    pq_packets (expire_first n q) = drop n (pq_packets q) \<and>
    pq_max_packets (expire_first n q) = pq_max_packets q \<and>
    pq_max_bytes (expire_first n q) = pq_max_bytes q \<and>
    pq_max_packet_age (expire_first n q) = pq_max_packet_age q"
  using assms
proof (induction n arbitrary: q)
  case 0
  then show ?case by simp
next
  case (Suc n)
  then obtain p rest where q: "pq_packets q = p # rest" by (cases "pq_packets q") auto
  have "mset (pq_packets q) = add_mset p (mset rest)" by (simp add: q)
  note out = take_out_inv [OF Suc.prems(1) this]
  from Suc.IH [of "record_expire (take_out q p rest) (packet_len p)"] out Suc.prems(2) show ?case
    by (simp add: peer_queue_dequeue_def q)
qed

lemma expire_first_counts:
  assumes "n \<le> length (pq_packets q)"
  shows "qs_expired_packets (pq_stats (expire_first n q)) =
      qs_expired_packets (pq_stats q) + word_of_nat n \<and>
    qs_expired_bytes (pq_stats (expire_first n q)) =
      qs_expired_bytes (pq_stats q) + sum_list (map (clamp_word \<circ> packet_len) (take n (pq_packets q)))"
  using assms
proof (induction n arbitrary: q)
  case 0
  then show ?case by simp
next
  case (Suc n)
  then obtain p rest where q: "pq_packets q = p # rest" by (cases "pq_packets q") auto
  from Suc.IH [of "record_expire (take_out q p rest) (packet_len p)"] Suc.prems show ?case
    by (simp add: peer_queue_dequeue_def q record_expire_def record_drop_def take_out_def Let_def
        algebra_simps)
qed

lemma expire_all_eq: "expire_all q = expire_first (length (pq_packets q)) q"
proof (induction "length (pq_packets q)" arbitrary: q)
  case 0
  then show ?case by (subst expire_all.simps) (simp add: peer_queue_dequeue_def)
next
  case (Suc n)
  then obtain p rest where q: "pq_packets q = p # rest" by (cases "pq_packets q") auto
  with Suc show ?case by (subst expire_all.simps) (simp add: peer_queue_dequeue_def)
qed

lemma drop_expired_eq:
  "peer_queue_drop_expired q now =
     expire_first (length (takeWhile (\<lambda>p. packet_is_expired p now (pq_max_packet_age q)) (pq_packets q))) q"
proof (cases "position (\<lambda>p. \<not> packet_is_expired p now (pq_max_packet_age q)) (pq_packets q)")
  case None
  then have "takeWhile (\<lambda>p. packet_is_expired p now (pq_max_packet_age q)) (pq_packets q) = pq_packets q"
    by (simp add: position_None_iff takeWhile_eq_all_conv)
  with None show ?thesis
    by (simp add: peer_queue_drop_expired_def expire_all_eq del: takeWhile_eq_all_conv)
next
  case (Some i)
  with position_Some_takeWhile [OF Some] show ?thesis
    by (simp add: peer_queue_drop_expired_def)
qed

lemma drop_expired_inv:
  assumes "peer_queue_inv q"
  shows "peer_queue_inv (peer_queue_drop_expired q now)"
    and "accounted (pq_stats (peer_queue_drop_expired q now)) = accounted (pq_stats q)"
    and "pq_packets (peer_queue_drop_expired q now) =
      dropWhile (\<lambda>p. packet_is_expired p now (pq_max_packet_age q)) (pq_packets q)"
    and "pq_max_packets (peer_queue_drop_expired q now) = pq_max_packets q"
    and "pq_max_bytes (peer_queue_drop_expired q now) = pq_max_bytes q"
    and "pq_max_packet_age (peer_queue_drop_expired q now) = pq_max_packet_age q"
  using expire_first_inv [OF assms length_takeWhile_le]
  by (simp_all add: drop_expired_eq drop_length_takeWhile)

lemma discard_all_inv:
  assumes "peer_queue_inv q"
  shows "peer_queue_inv (fst (discard_all q d)) \<and>
    accounted (pq_stats (fst (discard_all q d))) = accounted (pq_stats q) \<and>
    pq_packets (fst (discard_all q d)) = [] \<and>
    snd (discard_all q d) = d + word_of_nat (length (pq_packets q))"
  using assms
proof (induction "length (pq_packets q)" arbitrary: q d)
  case 0
  then show ?case by (subst (1 2 3 4) discard_all.simps) (simp add: peer_queue_dequeue_def)
next
  case (Suc n)
  then obtain p rest where q: "pq_packets q = p # rest" by (cases "pq_packets q") auto
  have "mset (pq_packets q) = add_mset p (mset rest)" by (simp add: q)
  note out = take_out_inv [OF Suc.prems this]
  have step: "discard_all q d = discard_all (record_drop (take_out q p rest) (packet_len p)) (d + 1)"
    by (subst discard_all.simps) (simp add: peer_queue_dequeue_def q)
  from Suc.hyps(1) [of "record_drop (take_out q p rest) (packet_len p)" "d + 1"] Suc.hyps(2) out
  show ?case unfolding step by (simp add: q algebra_simps)
qed

text \<open>
  Dropping expired packets removes exactly the leading run of packets older than the limit,
  so that the packet at the front is fresh, and counts each of them and its bytes as expired.
\<close>

lemma drop_expired_behaviour:
  fixes q :: peer_queue and now :: instant
  assumes "peer_queue_inv q"
  defines "expired \<equiv> takeWhile (\<lambda>p. packet_is_expired p now (pq_max_packet_age q)) (pq_packets q)"
    and "q' \<equiv> peer_queue_drop_expired q now"
  shows "pq_packets q = expired @ pq_packets q' \<and>
    (case pq_packets q' of [] \<Rightarrow> True | p # _ \<Rightarrow> \<not> packet_is_expired p now (pq_max_packet_age q)) \<and>
    qs_expired_packets (pq_stats q') = qs_expired_packets (pq_stats q) + word_of_nat (length expired) \<and>
    qs_expired_bytes (pq_stats q') =
      qs_expired_bytes (pq_stats q) + sum_list (map (clamp_word \<circ> packet_len) expired) \<and>
    accounted (pq_stats q') = accounted (pq_stats q)"
proof -
  let ?old = "\<lambda>p. packet_is_expired p now (pq_max_packet_age q)"
  have packets: "pq_packets q' = dropWhile ?old (pq_packets q)"
    by (simp add: q'_def drop_expired_inv [OF assms(1)])
  moreover have "case dropWhile ?old (pq_packets q) of [] \<Rightarrow> True | p # _ \<Rightarrow> \<not> ?old p"
    by (auto simp: dropWhile_eq_Cons_conv split: list.split)
  moreover have "take (length expired) (pq_packets q) = expired"
    by (simp add: expired_def takeWhile_eq_take [symmetric])
  ultimately show ?thesis
    using expire_first_counts [of "length expired" q] drop_expired_inv(2) [OF assms(1)]
      length_takeWhile_le [of ?old "pq_packets q"]
    by (simp add: expired_def q'_def drop_expired_eq)
qed

subsection \<open>Packets of one flow share a shard\<close>

definition ipv4_header_len :: "bytes \<Rightarrow> nat" where
  "ipv4_header_len packet = unat (packet ! 0 AND 0x0f) * 4"

definition ipv4_flow_key :: "bytes \<Rightarrow> bytes \<times> bytes \<times> u8 \<times> bytes" where
  "ipv4_flow_key packet =
     (slice 12 16 packet, slice 16 20 packet, packet ! 9,
      if packet ! 9 \<in> {6, 17} then slice (ipv4_header_len packet) (ipv4_header_len packet + 4) packet
      else [])"

lemma ipv4_header_len_bound: "ipv4_header_len packet \<le> 60"
proof -
  have "unat (packet ! 0 AND 0x0f) \<le> 15"
    using word_and_le1 [of "packet ! 0" "0x0f"] by (simp add: word_le_nat_alt)
  then show ?thesis by (simp add: ipv4_header_len_def)
qed

lemma ipv4_flow_hash_key:
  assumes "20 \<le> length packet"
    and "packet ! 9 \<in> {6, 17} \<Longrightarrow> ipv4_header_len packet + 4 \<le> length packet"
  shows "ipv4_flow_hash packet =
    (case ipv4_flow_key packet of (src, dst, proto, ports) \<Rightarrow>
       hash_bytes (hash_byte (hash_bytes (hash_bytes FNV_OFFSET src) dst) proto) ports)"
proof -
  have "saturating_add_usize (ipv4_header_len packet) 4 = ipv4_header_len packet + 4"
    using ipv4_header_len_bound [of packet] by (simp add: saturating_add_usize_def usize_max_def)
  with assms show ?thesis
    by (auto simp: ipv4_flow_hash_def ipv4_flow_key_def ipv4_header_len_def [symmetric] Let_def
        hash_bytes_def)
qed

text \<open>
  the shard of a packet is below 16, and two complete IPv4 packets with the same addresses,
  protocol and, for TCP and UDP, ports have the same shard even if their header options differ.
\<close>

theorem same_flow_same_shard:
  assumes "\<And>p. p \<in> {a, b} \<Longrightarrow> version_nibble p = Some 4 \<and> 20 \<le> length p"
    and "\<And>p. p \<in> {a, b} \<Longrightarrow> p ! 9 \<in> {6, 17} \<Longrightarrow> ipv4_header_len p + 4 \<le> length p"
    and "ipv4_flow_key a = ipv4_flow_key b"
  shows "flow_shard a = flow_shard b \<and> flow_shard a < FLOW_SHARDS"
proof -
  have "ipv4_flow_hash p =
      (case ipv4_flow_key p of (src, dst, proto, ports) \<Rightarrow>
         hash_bytes (hash_byte (hash_bytes (hash_bytes FNV_OFFSET src) dst) proto) ports)"
    if "p \<in> {a, b}" for p
    using assms(1) [OF that] assms(2) [OF that] by (intro ipv4_flow_hash_key) blast+
  from this [of a] this [of b] assms(3) have "ipv4_flow_hash a = ipv4_flow_hash b"
    by simp
  moreover have "ucast (h mod ucast FLOW_SHARDS) < FLOW_SHARDS" for h :: u64
    using order.strict_trans1 [OF take_bit_nat_less_eq_self [of 8 "unat h mod 16"]]
    by (simp add: FLOW_SHARDS_def word_less_nat_alt unat_mod unsigned_ucast_eq)
  ultimately show ?thesis
    using assms(1) [of a] assms(1) [of b] by (simp add: flow_shard_def Let_def)
qed

end
