(* ===== verification/Scheduler.thy ===== *)
theory Scheduler
  imports Queue
begin

text \<open>
  Properties of the round-robin scheduler over the peers' queues (\<open>PeerQueues\<close> of
  \<open>src/src/queue.rs\<close>): the ready list names exactly the peers with queued packets, each once; the
  scheduler is work conserving and serves every waiting peer within one round; every packet offered
  is delivered, queued or counted as dropped, and never two of these.
\<close>

subsection \<open>The invariant\<close>

definition queue_ok :: "peer_queues \<Rightarrow> peer_id \<Rightarrow> peer_queue \<Rightarrow> bool" where
  "queue_ok s peer q \<longleftrightarrow>
     peer_queue_inv q \<and> pq_max_packets q = pqs_max_packets_per_peer s \<and>
     pq_max_bytes q = pqs_max_bytes_per_peer s \<and> pq_max_packet_age q = pqs_max_packet_age s \<and>
     (\<forall>p \<in> set (pq_packets q). pkt_peer p = peer)"

definition backlog :: "peer_queues \<Rightarrow> peer_id set" where
  "backlog s = {peer. \<exists>q. hm_get (pqs_queues s) peer = Some q \<and> pq_packets q \<noteq> []}"

definition queues_ok :: "peer_queues \<Rightarrow> bool" where
  "queues_ok s \<longleftrightarrow>
     hm_wf (pqs_queues s) \<and> pqs_max_bytes_per_peer s < usize_max \<and>
     (\<forall>peer q. hm_get (pqs_queues s) peer = Some q \<longrightarrow> queue_ok s peer q)"

definition peer_queues_inv :: "peer_queues \<Rightarrow> bool" where
  "peer_queues_inv s \<longleftrightarrow> queues_ok s \<and> distinct (pqs_ready s) \<and> set (pqs_ready s) = backlog s"

definition queue_total :: "peer_queues \<Rightarrow> u64" where
  "queue_total s =
     accounted (pqs_retired_stats s) + sum_list (map (accounted \<circ> pq_stats \<circ> snd) (pqs_queues s))"

lemma put_push_simps [simp]:
  "pqs_queues (put_queue s peer q) = hm_insert (pqs_queues s) peer q"
  "pqs_ready (put_queue s peer q) = pqs_ready s"
  "pqs_retired_stats (put_queue s peer q) = pqs_retired_stats s"
  "pqs_queues (push_ready b peer s) = pqs_queues s"
  "pqs_ready (push_ready b peer s) = (if b then pqs_ready s @ [peer] else pqs_ready s)"
  "pqs_retired_stats (push_ready b peer s) = pqs_retired_stats s"
  "pqs_max_packets_per_peer (put_queue s peer q) = pqs_max_packets_per_peer s"
  "pqs_max_bytes_per_peer (put_queue s peer q) = pqs_max_bytes_per_peer s"
  "pqs_max_packet_age (put_queue s peer q) = pqs_max_packet_age s"
  "pqs_max_packets_per_peer (push_ready b peer s) = pqs_max_packets_per_peer s"
  "pqs_max_bytes_per_peer (push_ready b peer s) = pqs_max_bytes_per_peer s"
  "pqs_max_packet_age (push_ready b peer s) = pqs_max_packet_age s"
  by (simp_all add: put_queue_def push_ready_def)

lemma sum_list_hm_insert:
  fixes f :: "'v \<Rightarrow> 'b::ab_group_add"
  shows "sum_list (map (f \<circ> snd) (hm_insert m k v)) =
    sum_list (map (f \<circ> snd) m) + f v - (case hm_get m k of None \<Rightarrow> 0 | Some w \<Rightarrow> f w)"
  by (induction m) (auto simp: hm_insert_def hm_get_def)

lemma has_queued_iff: "peer_queue_inv q \<Longrightarrow> has_queued q \<longleftrightarrow> pq_packets q \<noteq> []"
  by (simp add: has_queued_def peer_queue_inv_def)

lemma queue_ok_get:
  "peer_queues_inv s \<Longrightarrow> hm_get (pqs_queues s) peer = Some q \<Longrightarrow> queue_ok s peer q"
  by (simp add: peer_queues_inv_def queues_ok_def)

lemma ready_head:
  assumes "peer_queues_inv s" and "peer \<in> set (pqs_ready s)"
  obtains q where "hm_get (pqs_queues s) peer = Some q" and "pq_packets q \<noteq> []" and "queue_ok s peer q"
proof -
  from assms obtain q where "hm_get (pqs_queues s) peer = Some q" "pq_packets q \<noteq> []"
    by (auto simp: peer_queues_inv_def backlog_def)
  with queue_ok_get [OF assms(1)] that show ?thesis by blast
qed

lemma queues_ok_put:
  "queues_ok s \<Longrightarrow> queue_ok s peer q \<Longrightarrow> queues_ok (put_queue s peer q)"
  by (auto simp: queues_ok_def queue_ok_def)

lemma push_ready_inv_simps [simp]:
  "queues_ok (push_ready b peer s) = queues_ok s"
  "queues_ok (s\<lparr>pqs_ready := r\<rparr>) = queues_ok s"
  "backlog (push_ready b peer s) = backlog s"
  "backlog (s\<lparr>pqs_ready := r\<rparr>) = backlog s"
  "queue_ok (s\<lparr>pqs_ready := r\<rparr>) peer q = queue_ok s peer q"
  "queue_total (push_ready b peer s) = queue_total s"
  "queue_total (s\<lparr>pqs_ready := r\<rparr>) = queue_total s"
  by (simp_all add: queues_ok_def queue_ok_def backlog_def queue_total_def)

text \<open>Serving the peer at the head of the ready list, whatever is done to its queue.\<close>

lemma serve_inv:
  assumes inv: "peer_queues_inv s" and ready: "pqs_ready s = peer # rest"
    and get: "hm_get (pqs_queues s) peer = Some q" and ok: "queue_ok s peer q'"
  defines "s' \<equiv> push_ready (has_queued q') peer (put_queue (s\<lparr>pqs_ready := rest\<rparr>) peer q')"
  shows "peer_queues_inv s'"
    and "queue_total s' = queue_total s + accounted (pq_stats q') - accounted (pq_stats q)"
proof -
  have nonempty: "has_queued q' \<longleftrightarrow> pq_packets q' \<noteq> []"
    using ok by (simp add: queue_ok_def has_queued_iff)
  have "backlog s = insert peer (set rest)" "distinct (peer # rest)"
    using inv ready by (auto simp: peer_queues_inv_def)
  then have "backlog s - {peer} = set rest" by auto
  moreover have "backlog s' = (backlog s - {peer}) \<union> (if has_queued q' then {peer} else {})"
    by (auto simp: backlog_def s'_def nonempty split: if_splits)
  ultimately have "set (pqs_ready s') = backlog s'"
    by (auto simp: s'_def)
  moreover have "distinct (pqs_ready s')"
    using inv ready by (auto simp: s'_def peer_queues_inv_def)
  moreover have "queues_ok s'"
    using inv ok by (simp add: s'_def peer_queues_inv_def queues_ok_put)
  ultimately show "peer_queues_inv s'" by (simp add: peer_queues_inv_def)
  show "queue_total s' = queue_total s + accounted (pq_stats q') - accounted (pq_stats q)"
    using sum_list_hm_insert [of "accounted \<circ> pq_stats" "pqs_queues s" peer q'] get
    by (simp add: queue_total_def s'_def comp_assoc)
qed

subsection \<open>Every operation preserves the invariant\<close>

lemma peer_queues_inv_start:
  "mb < usize_max \<Longrightarrow> peer_queues_inv (peer_queues_with_packet_ttl mp mb age)"
  by (simp add: peer_queues_inv_def queues_ok_def backlog_def peer_queues_with_packet_ttl_def)

lemma queue_mut_ok: "peer_queues_inv s \<Longrightarrow> queue_ok s peer (queue_mut s peer)"
  by (auto simp: queue_mut_def peer_queues_inv_def queues_ok_def queue_ok_def split: option.split)

lemma was_empty_iff:
  assumes "peer_queues_inv s"
  shows "is_none_or (\<lambda>q. qs_queued_packets (pq_stats q) = 0) (hm_get (pqs_queues s) peer) \<longleftrightarrow>
    peer \<notin> set (pqs_ready s)"
proof (cases "hm_get (pqs_queues s) peer")
  case None
  with assms show ?thesis by (auto simp: peer_queues_inv_def backlog_def)
next
  case (Some q)
  with queue_ok_get [OF assms Some] assms show ?thesis
    by (auto simp: peer_queues_inv_def backlog_def queue_ok_def peer_queue_inv_def)
qed

lemma enqueue_total:
  assumes "peer_queues_inv s"
  shows "queue_total (put_queue s peer q) =
    queue_total s + accounted (pq_stats q) - accounted (pq_stats (queue_mut s peer))"
  using sum_list_hm_insert [of "accounted \<circ> pq_stats" "pqs_queues s" peer q]
  by (auto simp: queue_total_def comp_assoc queue_mut_def accounted_def queue_stats_default_def
      split: option.splits)

lemma peer_queues_enqueue_inv:
  assumes "peer_queues_inv s"
  shows "peer_queues_inv (snd (peer_queues_enqueue s p))"
    and "queue_total (snd (peer_queues_enqueue s p)) = queue_total s + 1"
proof -
  let ?peer = "pkt_peer p" and ?q = "queue_mut s (pkt_peer p)"
  let ?q' = "snd (peer_queue_enqueue ?q p)"
  note ok = queue_mut_ok [OF assms, of ?peer]
  then have inv: "peer_queue_inv ?q" by (simp add: queue_ok_def)
  have q': "pq_packets ?q' = (if peer_queue_fits ?q p then pq_packets ?q @ [p] else pq_packets ?q)"
    by (simp add: peer_fifo.enq_contents [OF inv])
  have ok': "queue_ok s ?peer ?q'"
    using ok peer_queue_enqueue_inv(1) [OF inv, of p] q'
    by (auto simp: queue_ok_def) (auto simp: peer_queue_enqueue_cases)
  have result: "peer_queues_enqueue s p =
     (if peer_queue_fits ?q p
      then (Ok (), push_ready (?peer \<notin> set (pqs_ready s)) ?peer (put_queue s ?peer ?q'))
      else (fst (peer_queue_enqueue ?q p), put_queue s ?peer ?q'))"
    using inv by (auto simp: peer_queues_enqueue_def was_empty_iff [OF assms]
        peer_queue_enqueue_cases Let_def)
  have old: "?peer \<in> set (pqs_ready s) \<longleftrightarrow> pq_packets ?q \<noteq> []"
    using assms by (auto simp: peer_queues_inv_def backlog_def queue_mut_def split: option.split)
  have "backlog (put_queue s ?peer ?q') =
      (if peer_queue_fits ?q p then insert ?peer (backlog s) else backlog s)"
    using old assms by (auto simp: backlog_def q' peer_queues_inv_def split: if_splits)
  moreover have "queues_ok (put_queue s ?peer ?q')"
    using assms ok' by (simp add: peer_queues_inv_def queues_ok_put)
  ultimately show "peer_queues_inv (snd (peer_queues_enqueue s p))"
    using assms old unfolding peer_queues_inv_def result
    by (cases "peer_queue_fits ?q p") (simp_all, blast)
  show "queue_total (snd (peer_queues_enqueue s p)) = queue_total s + 1"
    using enqueue_total [OF assms, of ?peer ?q'] peer_queue_enqueue_inv(2) [OF inv, of p]
    by (simp add: result)
qed

lemma peer_queue_dequeue_front:
  assumes "queue_ok s peer q" and "pq_packets q = p # rest"
  shows "peer_queue_dequeue q = (Some p, take_out q p rest)"
    and "queue_ok s peer (take_out q p rest)"
    and "accounted (pq_stats (take_out q p rest)) + 1 = accounted (pq_stats q)"
proof -
  have m: "mset (pq_packets q) = add_mset p (mset rest)" by (simp add: assms(2))
  from assms have inv: "peer_queue_inv q" by (simp add: queue_ok_def)
  show "peer_queue_dequeue q = (Some p, take_out q p rest)"
    by (simp add: peer_queue_dequeue_def assms(2))
  show "queue_ok s peer (take_out q p rest)"
    using assms take_out_inv(1) [OF inv m] by (simp add: queue_ok_def)
  show "accounted (pq_stats (take_out q p rest)) + 1 = accounted (pq_stats q)"
    by (rule take_out_inv(2) [OF inv m])
qed

lemma peer_queues_dequeue_cases:
  assumes inv: "peer_queues_inv s" and ready: "pqs_ready s = peer # rest"
  obtains q p ps where "hm_get (pqs_queues s) peer = Some q" and "pq_packets q = p # ps"
    and "peer_queues_dequeue s =
      (Some p, push_ready (has_queued (take_out q p ps)) peer
         (put_queue (s\<lparr>pqs_ready := rest\<rparr>) peer (take_out q p ps)))"
    and "queue_ok s peer q" and "queue_ok s peer (take_out q p ps)"
    and "accounted (pq_stats (take_out q p ps)) + 1 = accounted (pq_stats q)"
proof -
  from ready have "peer \<in> set (pqs_ready s)" by simp
  with inv obtain q where q: "hm_get (pqs_queues s) peer = Some q" "pq_packets q \<noteq> []" "queue_ok s peer q"
    by (rule ready_head)
  from q(2) obtain p ps where packets: "pq_packets q = p # ps" by (cases "pq_packets q") auto
  note front = peer_queue_dequeue_front [OF q(3) packets]
  with q packets ready show ?thesis
    by (intro that [OF q(1) packets]) (simp_all add: peer_queues_dequeue_def)
qed

lemma peer_queues_dequeue_inv:
  assumes "peer_queues_inv s"
  shows "peer_queues_inv (snd (peer_queues_dequeue s))"
    and "queue_total (snd (peer_queues_dequeue s)) =
      queue_total s - (if fst (peer_queues_dequeue s) = None then 0 else 1)"
proof -
  have "peer_queues_inv (snd (peer_queues_dequeue s)) \<and>
    queue_total (snd (peer_queues_dequeue s)) =
      queue_total s - (if fst (peer_queues_dequeue s) = None then 0 else 1)"
  proof (cases "pqs_ready s")
    case Nil
    with assms show ?thesis by (simp add: peer_queues_dequeue_def)
  next
    case (Cons peer rest)
    from peer_queues_dequeue_cases [OF assms Cons] obtain q p ps
      where q: "hm_get (pqs_queues s) peer = Some q"
        and out: "peer_queues_dequeue s =
          (Some p, push_ready (has_queued (take_out q p ps)) peer
             (put_queue (s\<lparr>pqs_ready := rest\<rparr>) peer (take_out q p ps)))"
        and ok: "queue_ok s peer (take_out q p ps)"
        and acc: "accounted (pq_stats (take_out q p ps)) + 1 = accounted (pq_stats q)"
      by metis
    from serve_inv [OF assms Cons q ok] show ?thesis
      by (simp add: out acc [symmetric])
  qed
  then show "peer_queues_inv (snd (peer_queues_dequeue s))"
    and "queue_total (snd (peer_queues_dequeue s)) =
      queue_total s - (if fst (peer_queues_dequeue s) = None then 0 else 1)"
    by blast+
qed

lemma peer_queue_dequeue_ready_cases:
  assumes "queue_ok s peer q"
  shows "(case find f (pq_packets q) of
       None \<Rightarrow> peer_queue_dequeue_ready q f = (None, q)
     | Some p \<Rightarrow> \<exists>q'. peer_queue_dequeue_ready q f = (Some p, q') \<and> queue_ok s peer q' \<and>
         accounted (pq_stats q') + 1 = accounted (pq_stats q))"
proof (cases "position f (pq_packets q)")
  case None
  then have "find f (pq_packets q) = None" by (simp add: position_None_iff find_None_iff)
  with None show ?thesis by (simp add: peer_queue_dequeue_ready_def)
next
  case (Some i)
  let ?p = "pq_packets q ! i" and ?rest = "remove_at i (pq_packets q)"
  from position_SomeD [OF Some] have "mset (pq_packets q) = add_mset ?p (mset ?rest)"
    by (intro remove_at_split) simp
  moreover from assms have "peer_queue_inv q" by (simp add: queue_ok_def)
  ultimately have "peer_queue_inv (take_out q ?p ?rest)"
    "accounted (pq_stats (take_out q ?p ?rest)) + 1 = accounted (pq_stats q)"
    by (simp_all add: take_out_inv)
  moreover have "pkt_peer r = peer" if "r \<in> set ?rest" for r
    using that set_remove_at_subset [of i "pq_packets q"] assms by (auto simp: queue_ok_def)
  ultimately show ?thesis
    using assms Some position_find [OF Some]
    by (simp add: peer_queue_dequeue_ready_def queue_ok_def Let_def)
qed

lemma hm_insert_same: "hm_get m k = Some v \<Longrightarrow> hm_insert m k v = m"
  by (simp add: hm_get_def hm_insert_def update_triv)

text \<open>A peer without a ready packet is moved to the back and nothing else changes.\<close>

lemma rotate_unready:
  assumes "peer_queues_inv s" and "pqs_ready s = peer # rest"
    and "hm_get (pqs_queues s) peer = Some q" and "pq_packets q \<noteq> []" and "queue_ok s peer q"
  shows "push_ready (has_queued q) peer (put_queue (s\<lparr>pqs_ready := rest\<rparr>) peer q) =
    s\<lparr>pqs_ready := rest @ [peer]\<rparr>"
  using assms by (simp add: push_ready_def put_queue_def queue_ok_def has_queued_iff hm_insert_same)

definition ready_packet :: "peer_queues \<Rightarrow> (peer_id \<Rightarrow> packet \<Rightarrow> bool) \<Rightarrow> peer_id \<Rightarrow> packet option" where
  "ready_packet s f peer =
     (case hm_get (pqs_queues s) peer of None \<Rightarrow> None | Some q \<Rightarrow> find (f peer) (pq_packets q))"

lemma dequeue_ready_rounds_spec:
  assumes "peer_queues_inv s" and "n \<le> length (pqs_ready s)"
  shows "case find (\<lambda>peer. ready_packet s f peer \<noteq> None) (take n (pqs_ready s)) of
      None \<Rightarrow> dequeue_ready_rounds n f s =
        (None, s\<lparr>pqs_ready := drop n (pqs_ready s) @ take n (pqs_ready s)\<rparr>)
    | Some peer \<Rightarrow> fst (dequeue_ready_rounds n f s) = ready_packet s f peer \<and>
        peer_queues_inv (snd (dequeue_ready_rounds n f s)) \<and>
        queue_total (snd (dequeue_ready_rounds n f s)) = queue_total s - 1"
  using assms
proof (induction n arbitrary: s)
  case 0
  then show ?case by simp
next
  case (Suc n)
  then obtain peer rest where ready: "pqs_ready s = peer # rest" by (cases "pqs_ready s") auto
  then have "peer \<in> set (pqs_ready s)" by simp
  with Suc.prems(1) obtain q where q: "hm_get (pqs_queues s) peer = Some q" "pq_packets q \<noteq> []"
    "queue_ok s peer q" by (rule ready_head)
  note cases = peer_queue_dequeue_ready_cases [OF q(3), of "f peer"]
  show ?case
  proof (cases "find (f peer) (pq_packets q)")
    case (Some p)
    with cases obtain q' where q': "peer_queue_dequeue_ready q (f peer) = (Some p, q')"
      "queue_ok s peer q'" "accounted (pq_stats q') + 1 = accounted (pq_stats q)" by auto
    from serve_inv [OF Suc.prems(1) ready q(1) q'(2)] show ?thesis
      using Some q(1) q'(1) by (simp add: ready ready_packet_def q'(3) [symmetric])
  next
    case None
    let ?t = "s\<lparr>pqs_ready := rest @ [peer]\<rparr>"
    from None cases have skip: "dequeue_ready_rounds (Suc n) f s = dequeue_ready_rounds n f ?t"
      using rotate_unready [OF Suc.prems(1) ready q] by (simp add: ready q)
    have inv: "peer_queues_inv ?t" using Suc.prems(1) ready by (auto simp: peer_queues_inv_def)
    have same: "ready_packet ?t f = ready_packet s f" by (simp add: ready_packet_def fun_eq_iff)
    from Suc.IH [OF inv] Suc.prems(2) None q show ?thesis
      unfolding skip by (simp add: ready same ready_packet_def [of s f peer] split: option.splits)
  qed
qed

lemma dequeue_ready_packet_spec:
  assumes "peer_queues_inv s"
  shows "case find (\<lambda>peer. ready_packet s f peer \<noteq> None) (pqs_ready s) of
      None \<Rightarrow> dequeue_ready_packet s f = (None, s)
    | Some peer \<Rightarrow> fst (dequeue_ready_packet s f) = ready_packet s f peer \<and>
        peer_queues_inv (snd (dequeue_ready_packet s f)) \<and>
        queue_total (snd (dequeue_ready_packet s f)) = queue_total s - 1"
  using dequeue_ready_rounds_spec [OF assms order_refl, of f]
  by (simp add: dequeue_ready_packet_def split: option.splits)

lemma dequeue_ready_packet_inv:
  assumes "peer_queues_inv s"
  shows "peer_queues_inv (snd (dequeue_ready_packet s f))"
    and "queue_total (snd (dequeue_ready_packet s f)) =
      queue_total s - (if fst (dequeue_ready_packet s f) = None then 0 else 1)"
proof -
  note spec = dequeue_ready_packet_spec [OF assms, of f]
  show "peer_queues_inv (snd (dequeue_ready_packet s f))"
    using assms spec by (auto split: option.splits)
  show "queue_total (snd (dequeue_ready_packet s f)) =
      queue_total s - (if fst (dequeue_ready_packet s f) = None then 0 else 1)"
    using spec by (auto split: option.splits elim: find_splitE)
qed

lemma drop_expired_rounds_inv:
  assumes "peer_queues_inv s"
  shows "peer_queues_inv (drop_expired_rounds n now s) \<and>
    queue_total (drop_expired_rounds n now s) = queue_total s"
  using assms
proof (induction n arbitrary: s)
  case 0
  then show ?case by simp
next
  case (Suc n)
  show ?case
  proof (cases "pqs_ready s")
    case Nil
    with Suc.prems show ?thesis by simp
  next
    case (Cons peer rest)
    then have "peer \<in> set (pqs_ready s)" by simp
    with Suc.prems obtain q where q: "hm_get (pqs_queues s) peer = Some q" "queue_ok s peer q"
      by (rule ready_head)
    let ?q = "peer_queue_drop_expired q now"
    from q(2) have inv: "peer_queue_inv q" by (simp add: queue_ok_def)
    from q(2) drop_expired_inv [OF inv, of now] have "queue_ok s peer ?q"
      by (auto simp: queue_ok_def dest: set_dropWhileD)
    note served = serve_inv [OF Suc.prems Cons q(1) this]
    from Suc.IH [OF served(1)] served(2) show ?thesis
      by (simp add: Cons q drop_expired_inv(2) [OF inv] Let_def)
  qed
qed

lemma retain_queues_spec:
  assumes "\<forall>q \<in> snd ` set queues. peer_queue_inv q"
  shows "case retain_queues retain now queues retired d of (kept, retired', d') \<Rightarrow>
     kept = hm_retain (\<lambda>peer _. retain peer) queues \<and>
     accounted retired' + sum_list (map (accounted \<circ> pq_stats \<circ> snd) kept) =
       accounted retired + sum_list (map (accounted \<circ> pq_stats \<circ> snd) queues) \<and>
     d' = d + word_of_nat (sum_list (map (\<lambda>(peer, q). length (pq_packets q))
            (filter (\<lambda>(peer, q). \<not> retain peer) queues)))"
  using assms
proof (induction queues arbitrary: retired d)
  case Nil
  then show ?case by (simp add: hm_retain_def)
next
  case (Cons entry queues)
  obtain peer q where entry: "entry = (peer, q)" by force
  with Cons.prems have inv: "peer_queue_inv q" and rest: "\<forall>q \<in> snd ` set queues. peer_queue_inv q"
    by auto
  show ?case
  proof (cases "retain peer")
    case True
    with Cons.IH [OF rest, of retired d] show ?thesis
      by (auto simp: entry hm_retain_def case_prod_unfold Let_def algebra_simps)
  next
    case False
    have add: "accounted (queue_stats_add retired (peer_queue_stats_at (fst (discard_all q d)) now)) =
        accounted retired + accounted (pq_stats (fst (discard_all q d)))"
      by (simp add: accounted_def queue_stats_add_def peer_queue_stats_at_def algebra_simps)
    from False Cons.IH [OF rest, of "queue_stats_add retired (peer_queue_stats_at (fst (discard_all q d)) now)"
        "snd (discard_all q d)"] discard_all_inv [OF inv, of d] show ?thesis
      by (auto simp: entry hm_retain_def case_prod_unfold Let_def algebra_simps add)
  qed
qed

lemma retain_peers_spec:
  assumes "peer_queues_inv s"
  shows "pqs_queues (snd (peer_queues_retain_peers s retain now)) =
      hm_retain (\<lambda>peer _. retain peer) (pqs_queues s)"
    and "pqs_ready (snd (peer_queues_retain_peers s retain now)) =
      filter (hm_contains (hm_retain (\<lambda>peer _. retain peer) (pqs_queues s))) (pqs_ready s)"
    and "queue_total (snd (peer_queues_retain_peers s retain now)) = queue_total s"
    and "fst (peer_queues_retain_peers s retain now) =
      word_of_nat (sum_list (map (\<lambda>(peer, q). length (pq_packets q))
        (filter (\<lambda>(peer, q). \<not> retain peer) (pqs_queues s))))"
proof -
  have "\<forall>q \<in> snd ` set (pqs_queues s). peer_queue_inv q"
    using assms by (auto simp: peer_queues_inv_def queues_ok_def queue_ok_def hm_get_Some_iff)
  note spec = retain_queues_spec
    [OF this, where retain = retain and now = now and retired = "pqs_retired_stats s" and d = 0]
  then show "pqs_queues (snd (peer_queues_retain_peers s retain now)) =
      hm_retain (\<lambda>peer _. retain peer) (pqs_queues s)"
    and "pqs_ready (snd (peer_queues_retain_peers s retain now)) =
      filter (hm_contains (hm_retain (\<lambda>peer _. retain peer) (pqs_queues s))) (pqs_ready s)"
    and "queue_total (snd (peer_queues_retain_peers s retain now)) = queue_total s"
    and "fst (peer_queues_retain_peers s retain now) =
      word_of_nat (sum_list (map (\<lambda>(peer, q). length (pq_packets q))
        (filter (\<lambda>(peer, q). \<not> retain peer) (pqs_queues s))))"
    by (auto simp: peer_queues_retain_peers_def case_prod_unfold queue_total_def Let_def)
qed

lemma retain_peers_inv:
  assumes "peer_queues_inv s"
  shows "peer_queues_inv (snd (peer_queues_retain_peers s retain now))"
proof -
  let ?t = "snd (peer_queues_retain_peers s retain now)"
  note spec = retain_peers_spec [OF assms, of retain now]
  have wf: "hm_wf (pqs_queues s)" using assms by (simp add: peer_queues_inv_def queues_ok_def)
  have limits: "pqs_max_packets_per_peer ?t = pqs_max_packets_per_peer s"
    "pqs_max_bytes_per_peer ?t = pqs_max_bytes_per_peer s" "pqs_max_packet_age ?t = pqs_max_packet_age s"
    by (simp_all add: peer_queues_retain_peers_def case_prod_unfold Let_def)
  have get: "hm_get (pqs_queues ?t) peer = Some q \<longleftrightarrow>
      hm_get (pqs_queues s) peer = Some q \<and> retain peer" for peer q
    by (auto simp: spec(1) hm_get_retain [OF wf] split: option.splits)
  have contains: "hm_contains (pqs_queues ?t) peer \<longleftrightarrow> hm_contains (pqs_queues s) peer \<and> retain peer" for peer
    by (auto simp: hm_contains_def get)
  have "hm_wf (pqs_queues ?t)" by (simp add: spec(1) wf)
  then have ok: "queues_ok ?t"
    using assms by (auto simp: peer_queues_inv_def queues_ok_def queue_ok_def get limits)
  have waiting: "backlog ?t = backlog s \<inter> {peer. retain peer}"
    by (auto simp: backlog_def get)
  have "peer \<in> backlog s \<Longrightarrow> hm_contains (pqs_queues s) peer" for peer
    by (auto simp: backlog_def hm_contains_def)
  with assms ok show ?thesis
    unfolding peer_queues_inv_def waiting spec(2) by (auto simp: spec(1) [symmetric] contains)
qed

subsection \<open>Runs of the scheduler\<close>

text \<open>
  The states the program can reach by any sequence of operations, with the number of packets offered
  to \<open>enqueue\<close> and the number of packets the dequeue operations returned.
\<close>

definition returned :: "packet option \<Rightarrow> nat" where
  "returned r = (if r = None then 0 else 1)"

inductive queues_run :: "nat \<Rightarrow> nat \<Rightarrow> peer_queues \<Rightarrow> bool" where
  run_start: "max_bytes < usize_max \<Longrightarrow>
    queues_run 0 0 (peer_queues_with_packet_ttl max_packets max_bytes max_age)"
| run_enqueue: "queues_run n d s \<Longrightarrow> queues_run (Suc n) d (snd (peer_queues_enqueue s p))"
| run_dequeue: "queues_run n d s \<Longrightarrow>
    queues_run n (d + returned (fst (peer_queues_dequeue s))) (snd (peer_queues_dequeue s))"
| run_dequeue_ready: "queues_run n d s \<Longrightarrow>
    queues_run n (d + returned (fst (dequeue_ready_packet s f))) (snd (dequeue_ready_packet s f))"
| run_drop_expired: "queues_run n d s \<Longrightarrow> queues_run n d (peer_queues_drop_expired s now)"
| run_retain: "queues_run n d s \<Longrightarrow> queues_run n d (snd (peer_queues_retain_peers s retain now))"

lemmas scheduler_inv = peer_queues_enqueue_inv peer_queues_dequeue_inv dequeue_ready_packet_inv
  retain_peers_inv

lemma queues_run_inv: "queues_run n d s \<Longrightarrow> peer_queues_inv s"
  by (induction rule: queues_run.induct)
    (simp_all add: peer_queues_inv_start scheduler_inv drop_expired_rounds_inv
      peer_queues_drop_expired_def)

lemma queues_run_total: "queues_run n d s \<Longrightarrow> word_of_nat n = word_of_nat d + queue_total s"
proof (induction rule: queues_run.induct)
  case (run_start max_bytes max_packets max_age)
  then show ?case
    by (simp add: queue_total_def peer_queues_with_packet_ttl_def accounted_def queue_stats_default_def)
next
  case (run_enqueue n d s p)
  with queues_run_inv [OF run_enqueue.hyps] show ?case by (simp add: scheduler_inv)
next
  case (run_dequeue n d s)
  with queues_run_inv [OF run_dequeue.hyps] show ?case by (simp add: scheduler_inv returned_def)
next
  case (run_dequeue_ready n d s f)
  with queues_run_inv [OF run_dequeue_ready.hyps] show ?case by (simp add: scheduler_inv returned_def)
next
  case (run_drop_expired n d s now)
  with queues_run_inv [OF run_drop_expired.hyps] show ?case
    by (simp add: drop_expired_rounds_inv peer_queues_drop_expired_def)
next
  case (run_retain n d s retain now)
  with queues_run_inv [OF run_retain.hyps] show ?case by (simp add: retain_peers_spec)
qed

lemma queue_ok_bounds:
  assumes "queue_ok s peer q"
  shows "qs_queued_packets (pq_stats q) = length (pq_packets q) \<and>
    qs_queued_bytes (pq_stats q) = sum_list (map packet_len (pq_packets q)) \<and>
    length (pq_packets q) \<le> pqs_max_packets_per_peer s \<and>
    sum_list (map packet_len (pq_packets q)) \<le> pqs_max_bytes_per_peer s \<and>
    (\<forall>p \<in> set (pq_packets q). pkt_peer p = peer)"
  using assms by (auto simp: queue_ok_def peer_queue_inv_def)

lemma accounted_add: "accounted (queue_stats_add a b) = accounted a + accounted b"
  by (simp add: accounted_def queue_stats_add_def algebra_simps)

lemma accounted_stats_at: "accounted (peer_queue_stats_at q now) = accounted (pq_stats q)"
  by (simp add: accounted_def peer_queue_stats_at_def)

lemma accounted_total_stats: "accounted (total_stats_at s now) = queue_total s"
proof -
  have "accounted (foldl (\<lambda>total q. queue_stats_add total (peer_queue_stats_at q now)) a qs) =
      accounted a + sum_list (map (accounted \<circ> pq_stats) qs)" for a qs
    by (induction qs arbitrary: a) (simp_all add: accounted_add accounted_stats_at algebra_simps)
  then show ?thesis by (simp add: total_stats_at_def queue_total_def comp_assoc)
qed

text \<open>
  C22: in every state the scheduler reaches, each peer's queue is within the packet and byte limits
  with exact counters and holds only that peer's packets, and the ready list names exactly the peers
  with queued packets, each once.
\<close>

theorem scheduler_invariant:
  assumes "queues_run n d s"
  shows "distinct (pqs_ready s) \<and>
    (\<forall>peer. peer \<in> set (pqs_ready s) \<longleftrightarrow> peer \<in> set (queued_peers s)) \<and>
    (\<forall>peer q. hm_get (pqs_queues s) peer = Some q \<longrightarrow>
       qs_queued_packets (pq_stats q) = length (pq_packets q) \<and>
       qs_queued_bytes (pq_stats q) = sum_list (map packet_len (pq_packets q)) \<and>
       length (pq_packets q) \<le> pqs_max_packets_per_peer s \<and>
       sum_list (map packet_len (pq_packets q)) \<le> pqs_max_bytes_per_peer s \<and>
       (\<forall>p \<in> set (pq_packets q). pkt_peer p = peer))"
proof -
  have inv: "peer_queues_inv s" by (rule queues_run_inv [OF assms])
  then have ok: "queue_ok s peer q" if "hm_get (pqs_queues s) peer = Some q" for peer q
    using that by (rule queue_ok_get)
  have "peer \<in> set (queued_peers s) \<longleftrightarrow> peer \<in> backlog s" for peer
  proof -
    have wf: "hm_wf (pqs_queues s)" using inv by (simp add: peer_queues_inv_def queues_ok_def)
    have "peer \<in> set (queued_peers s) \<longleftrightarrow> (\<exists>q. hm_get (pqs_queues s) peer = Some q \<and> has_queued q)"
      by (force simp: queued_peers_def hm_get_Some_iff [OF wf])
    then show ?thesis using ok by (auto simp: backlog_def queue_ok_def has_queued_iff)
  qed
  with inv queue_ok_bounds [OF ok] show ?thesis
    by (simp add: peer_queues_inv_def)
qed

text \<open>
  C23: no packet is lost without trace. After any run, the packets offered are the packets
  delivered, the packets still queued and the packets counted as dropped, modulo the width of the
  drop counter, as the total statistics report them at any time.
\<close>

theorem packets_accounted_for:
  assumes "queues_run offered delivered s"
  shows "word_of_nat offered =
    word_of_nat delivered + word_of_nat (qs_queued_packets (total_stats_at s now)) +
    qs_dropped_packets (total_stats_at s now)"
  using queues_run_total [OF assms] accounted_total_stats [of s now]
  by (simp add: accounted_def add.assoc)

text \<open>
  selecting a packet by readiness fails, leaving the state as it was, exactly when no queued
  packet is ready. Otherwise it returns the oldest ready packet of the first peer in the round-robin
  order that has one.
\<close>

theorem dequeue_ready_packet_first_ready:
  assumes "queues_run n d s"
  shows "(case find (\<lambda>peer. peer_has_ready_packet s peer (f peer)) (pqs_ready s) of
      None \<Rightarrow> dequeue_ready_packet s f = (None, s)
    | Some peer \<Rightarrow> (\<exists>q. hm_get (pqs_queues s) peer = Some q \<and> find (f peer) (pq_packets q) \<noteq> None \<and>
         fst (dequeue_ready_packet s f) = find (f peer) (pq_packets q))) \<and>
    (fst (dequeue_ready_packet s f) = None \<longleftrightarrow>
       (\<forall>peer. \<not> peer_has_ready_packet s peer (f peer)))"
proof -
  have inv: "peer_queues_inv s" by (rule queues_run_inv [OF assms])
  have eq: "peer_has_ready_packet s peer (f peer) \<longleftrightarrow> ready_packet s f peer \<noteq> None" for peer
    by (simp add: peer_has_ready_packet_def ready_packet_def is_some_and_def list_ex_find
        split: option.split)
  have waiting: "peer \<in> set (pqs_ready s)" if "ready_packet s f peer \<noteq> None" for peer
  proof -
    from that obtain q where "hm_get (pqs_queues s) peer = Some q" "pq_packets q \<noteq> []"
      by (auto simp: ready_packet_def split: option.splits) (metis find.simps(1) option.distinct(1))
    with inv show ?thesis by (auto simp: peer_queues_inv_def backlog_def)
  qed
  note spec = dequeue_ready_packet_spec [OF inv, of f]
  show ?thesis
  proof (cases "find (\<lambda>peer. ready_packet s f peer \<noteq> None) (pqs_ready s)")
    case None
    then have "\<forall>peer. ready_packet s f peer = None"
      using waiting unfolding find_None_iff by blast
    with None spec show ?thesis by (simp add: eq)
  next
    case (Some peer)
    then have some: "ready_packet s f peer \<noteq> None" by (auto elim: find_splitE)
    with Some spec show ?thesis
      by (auto simp: eq ready_packet_def split: option.splits)
  qed
qed

lemma dequeue_rotates:
  assumes "peer_queues_inv s" and "pqs_ready s = peer # rest"
  shows "\<exists>tail. pqs_ready (snd (peer_queues_dequeue s)) = rest @ tail"
    and "other \<noteq> peer \<Longrightarrow>
      hm_get (pqs_queues (snd (peer_queues_dequeue s))) other = hm_get (pqs_queues s) other"
  by (rule peer_queues_dequeue_cases [OF assms], auto)+

text \<open>
  C24: the scheduler is work conserving and fair. The peer at position \<open>k\<close> of the ready list is served
  by the dequeue after \<open>k\<close> further ones, with the packet that is now at the front of its queue.
\<close>

theorem round_robin_service:
  assumes "queues_run n d s" and "k < length (pqs_ready s)"
  shows "\<exists>q p. hm_get (pqs_queues s) (pqs_ready s ! k) = Some q \<and> pq_packets q \<noteq> [] \<and>
    p = hd (pq_packets q) \<and>
    fst (peer_queues_dequeue (((\<lambda>t. snd (peer_queues_dequeue t)) ^^ k) s)) = Some p"
proof -
  have "peer_queues_inv s" by (rule queues_run_inv [OF assms(1)])
  then show ?thesis using assms(2)
  proof (induction k arbitrary: s)
    case 0
    then obtain peer rest where ready: "pqs_ready s = peer # rest" by (cases "pqs_ready s") auto
    show ?case
      by (rule peer_queues_dequeue_cases [OF 0(1) ready]) (simp add: ready)
  next
    case (Suc k)
    then obtain peer rest where ready: "pqs_ready s = peer # rest" by (cases "pqs_ready s") auto
    let ?t = "snd (peer_queues_dequeue s)"
    from dequeue_rotates(1) [OF Suc.prems(1) ready] obtain tail where tail: "pqs_ready ?t = rest @ tail"
      by blast
    from Suc.prems(2) ready have k: "k < length rest" by simp
    then have at: "pqs_ready ?t ! k = pqs_ready s ! Suc k" by (simp add: tail ready nth_append)
    have "rest ! k \<noteq> peer"
      using Suc.prems(1) k by (auto simp: peer_queues_inv_def ready)
    then have same: "hm_get (pqs_queues ?t) (pqs_ready s ! Suc k) =
        hm_get (pqs_queues s) (pqs_ready s ! Suc k)"
      using dequeue_rotates(2) [OF Suc.prems(1) ready] by (simp add: ready)
    from Suc.IH [OF peer_queues_dequeue_inv(1) [OF Suc.prems(1)]] k show ?case
      unfolding at same by (simp add: tail funpow_Suc_right del: funpow.simps)
  qed
qed

text \<open>A run with two waiting peers, to apply the properties to.\<close>

definition sample_packet :: "u8 \<Rightarrow> sequence \<Rightarrow> packet" where
  "sample_packet peer seq = packet_new_at (PeerId [peer]) seq [peer, 2] 0"

definition sample_queues :: peer_queues where
  "sample_queues =
     snd (peer_queues_enqueue (snd (peer_queues_enqueue (snd (peer_queues_enqueue
       (peer_queues_with_packet_ttl 2 8 5) (sample_packet 1 1))) (sample_packet 1 2))) (sample_packet 2 1))"

lemma sample_queues_run: "queues_run 3 0 sample_queues"
proof -
  have "queues_run 0 0 (peer_queues_with_packet_ttl 2 8 5)"
    by (rule run_start) (simp add: usize_max_def)
  from run_enqueue [OF run_enqueue [OF run_enqueue [OF this]]] show ?thesis
    by (simp add: sample_queues_def eval_nat_numeral)
qed

lemma sample_queues_ready: "pqs_ready sample_queues = [PeerId [1], PeerId [2]]"
  by code_simp

theorem scheduler_invariant_witness:
  "queues_run 3 0 sample_queues \<and> distinct (pqs_ready sample_queues) \<and>
   PeerId [2] \<in> set (queued_peers sample_queues)"
proof -
  have "PeerId [2] \<in> set (pqs_ready sample_queues)" by (simp add: sample_queues_ready)
  with scheduler_invariant [OF sample_queues_run] sample_queues_run show ?thesis by blast
qed

theorem packets_accounted_for_witness:
  "queues_run 3 0 sample_queues \<and>
   (3 :: u64) = word_of_nat (qs_queued_packets (total_stats_at sample_queues 9)) +
     qs_dropped_packets (total_stats_at sample_queues 9)"
  using packets_accounted_for [OF sample_queues_run, of 9] sample_queues_run by simp

theorem round_robin_service_witness:
  "queues_run 3 0 sample_queues \<and> 1 < length (pqs_ready sample_queues) \<and>
   fst (peer_queues_dequeue (((\<lambda>t. snd (peer_queues_dequeue t)) ^^ 1) sample_queues)) =
     Some (sample_packet 2 1)"
proof -
  have len: "1 < length (pqs_ready sample_queues)" by (simp add: sample_queues_ready)
  have "map_option (\<lambda>q. hd (pq_packets q)) (hm_get (pqs_queues sample_queues) (PeerId [2])) =
      Some (sample_packet 2 1)"
    by code_simp
  with round_robin_service [OF sample_queues_run len] sample_queues_run len show ?thesis
    by (auto simp: sample_queues_ready)
qed

end
