(* ===== verification/Route.thy ===== *)
theory Route
  imports Peer
begin

text \<open>
  Addresses, prefixes and the route table of \<open>src/src/route.rs\<close>. An IPv4 address is its 32-bit
  value and an IPv6 address its 128-bit value, as \<open>u32::from\<close> and \<open>u128::from\<close> give them. The
  fields of \<open>IpCidr\<close> are private and \<open>IpCidr::new\<close> is the only constructor, so every prefix of
  the program satisfies \<open>cidr_wf\<close>.
\<close>

subsection \<open>Addresses and prefixes\<close>

datatype ip_addr = V4 u32 | V6 u128

record ip_cidr =
  cidr_address :: ip_addr
  cidr_prefix_len :: u8

record route =
  route_owner :: peer_id
  route_prefix :: ip_cidr
  route_metric :: u16

datatype route_error =
    InvalidPrefix u8 u8
  | ConflictingOwnership peer_id peer_id ip_cidr ip_cidr
  | UnauthorizedSource peer_id ip_addr

fun max_prefix :: "ip_addr \<Rightarrow> u8" where
  "max_prefix (V4 _) = 32"
| "max_prefix (V6 _) = 128"

definition cidr_new :: "ip_addr \<Rightarrow> u8 \<Rightarrow> (ip_cidr, route_error) result" where
  "cidr_new address prefix_len =
     (if prefix_len > max_prefix address
      then Err (InvalidPrefix prefix_len (max_prefix address))
      else Ok \<lparr>cidr_address = address, cidr_prefix_len = prefix_len\<rparr>)"

definition cidr_wf :: "ip_cidr \<Rightarrow> bool" where
  "cidr_wf c \<longleftrightarrow> cidr_prefix_len c \<le> max_prefix (cidr_address c)"

definition prefix_matches :: "'a::len word \<Rightarrow> 'a word \<Rightarrow> u8 \<Rightarrow> bool" where
  "prefix_matches network address prefix_len =
     (let host_bits = LENGTH('a) - unat prefix_len;
          mask = (if prefix_len = 0 then 0 else push_bit host_bits (NOT 0))
      in network AND mask = address AND mask)"

definition cidr_contains :: "ip_cidr \<Rightarrow> ip_addr \<Rightarrow> bool" where
  "cidr_contains c candidate =
     (case (cidr_address c, candidate) of
        (V4 network, V4 address) \<Rightarrow> prefix_matches network address (cidr_prefix_len c)
      | (V6 network, V6 address) \<Rightarrow> prefix_matches network address (cidr_prefix_len c)
      | _ \<Rightarrow> False)"

definition cidr_overlaps :: "ip_cidr \<Rightarrow> ip_cidr \<Rightarrow> bool" where
  "cidr_overlaps c d =
     (case (cidr_address c, cidr_address d) of
        (V4 _, V4 _) \<Rightarrow> cidr_contains c (cidr_address d) \<or> cidr_contains d (cidr_address c)
      | (V6 _, V6 _) \<Rightarrow> cidr_contains c (cidr_address d) \<or> cidr_contains d (cidr_address c)
      | _ \<Rightarrow> False)"

subsection \<open>The route table\<close>

record route_table =
  table_routes :: "route list"

definition route_table_new :: route_table where
  "route_table_new = \<lparr>table_routes = []\<rparr>"

text \<open>Longer prefixes first, then the smaller metric, then the smaller owner.\<close>

definition route_sort_key :: "route \<Rightarrow> int \<times> nat \<times> bytes" where
  "route_sort_key r =
     (- int (unat (cidr_prefix_len (route_prefix r))), unat (route_metric r),
      as_bytes (route_owner r))"

definition sort_routes :: "route_table \<Rightarrow> route_table" where
  "sort_routes t = t\<lparr>table_routes := sort_key route_sort_key (table_routes t)\<rparr>"

definition table_insert :: "route_table \<Rightarrow> route \<Rightarrow> route_table" where
  "table_insert t r = sort_routes (t\<lparr>table_routes := table_routes t @ [r]\<rparr>)"

definition insert_authorized :: "route_table \<Rightarrow> route \<Rightarrow> (unit, route_error) result \<times> route_table" where
  "insert_authorized t r =
     (if r \<in> set (table_routes t) then (Ok (), t)
      else
        case find (\<lambda>existing. route_owner existing \<noteq> route_owner r \<and>
                     cidr_overlaps (route_prefix existing) (route_prefix r)) (table_routes t) of
          Some existing \<Rightarrow>
            (Err (ConflictingOwnership (route_owner existing) (route_owner r)
                    (route_prefix existing) (route_prefix r)), t)
        | None \<Rightarrow> (Ok (), sort_routes (t\<lparr>table_routes := table_routes t @ [r]\<rparr>)))"

definition routes_for :: "route_table \<Rightarrow> peer_id \<Rightarrow> route list" where
  "routes_for t owner = filter (\<lambda>r. route_owner r = owner) (table_routes t)"

definition resolve :: "route_table \<Rightarrow> ip_addr \<Rightarrow> route option" where
  "resolve t destination = find (\<lambda>r. cidr_contains (route_prefix r) destination) (table_routes t)"

definition authorize_source ::
    "route_table \<Rightarrow> peer_id \<Rightarrow> ip_addr \<Rightarrow> (unit, route_error) result" where
  "authorize_source t peer source =
     (if list_ex (\<lambda>r. route_owner r = peer \<and> cidr_contains (route_prefix r) source) (table_routes t)
      then Ok () else Err (UnauthorizedSource peer source))"

definition authorizes_route :: "route_table \<Rightarrow> peer_id \<Rightarrow> ip_cidr \<Rightarrow> bool" where
  "authorizes_route t peer prefix \<longleftrightarrow>
     list_ex (\<lambda>r. route_owner r = peer \<and> route_prefix r = prefix) (table_routes t)"

subsection \<open>Addresses derived from an identity\<close>

definition xor_at :: "nat \<Rightarrow> u8 \<Rightarrow> bytes \<Rightarrow> bytes" where
  "xor_at i b xs = xs[i := (xs ! i) XOR b]"

definition builtin_ipv4 :: "peer_id \<Rightarrow> u32" where
  "builtin_ipv4 peer =
     from_be_bytes
       (foldl (\<lambda>address (index, byte). xor_at (index mod 2 + 2) byte address) [100, 64, 0, 0]
          (enumerate 0 (as_bytes peer)))"

definition net_id :: "peer_id \<Rightarrow> bytes" where
  "net_id peer =
     foldl (\<lambda>ident (index, byte). xor_at (index mod 4) byte ident) [222, 173, 190, 239]
       (enumerate 0 (as_bytes peer))"

definition builtin_ipv6 :: "peer_id \<Rightarrow> u128" where
  "builtin_ipv6 peer =
     from_be_bytes
       (take 12 [253, 0, 104, 121, 112, 114, 115, 112, 97, 99, 101, 0, 0, 0, 0, 0] @ net_id peer)"

subsection \<open>Prefixes denote sets of addresses\<close>

lemma prefix_matches_iff_bits:
  fixes network address :: "'a::len word"
  assumes "unat p \<le> LENGTH('a)"
  shows "prefix_matches network address p \<longleftrightarrow>
    (\<forall>i. LENGTH('a) - unat p \<le> i \<and> i < LENGTH('a) \<longrightarrow> bit network i = bit address i)"
proof (cases "p = 0")
  case True
  then show ?thesis by (auto simp: prefix_matches_def)
next
  case False
  then show ?thesis
    by (auto simp: prefix_matches_def Let_def bit_eq_iff bit_simps)
qed

lemma prefix_matches_refl [simp]: "prefix_matches a a p"
  by (simp add: prefix_matches_def Let_def)

lemma prefix_matches_sym: "prefix_matches a b p \<Longrightarrow> prefix_matches b a p"
  by (simp add: prefix_matches_def Let_def)

lemma prefix_matches_meet:
  fixes a b x :: "'a::len word"
  assumes "prefix_matches a x p" and "prefix_matches b x q" and "p \<le> q" and "unat q \<le> LENGTH('a)"
  shows "prefix_matches a b p"
proof -
  from assms(3) have "unat p \<le> unat q" by (simp add: word_le_nat_alt)
  with assms show ?thesis
    by (auto simp: prefix_matches_iff_bits)
qed

lemma cidr_contains_self [simp]: "cidr_contains c (cidr_address c)"
  by (auto simp: cidr_contains_def split: ip_addr.splits)

lemma cidr_overlapsI:
  assumes "cidr_wf c" and "cidr_wf d" and "cidr_contains c x" and "cidr_contains d x"
  shows "cidr_overlaps c d"
proof (cases "cidr_address c")
  case (V4 a)
  with assms(3,4) obtain b y where "cidr_address d = V4 b" "x = V4 y"
    by (auto simp: cidr_contains_def split: ip_addr.splits)
  with V4 assms show ?thesis
    using prefix_matches_meet [of a y "cidr_prefix_len c" b "cidr_prefix_len d"]
      prefix_matches_meet [of b y "cidr_prefix_len d" a "cidr_prefix_len c"]
    by (cases "cidr_prefix_len c \<le> cidr_prefix_len d")
      (auto simp: cidr_overlaps_def cidr_contains_def cidr_wf_def word_le_nat_alt)
next
  case (V6 a)
  with assms(3,4) obtain b y where "cidr_address d = V6 b" "x = V6 y"
    by (auto simp: cidr_contains_def split: ip_addr.splits)
  with V6 assms show ?thesis
    using prefix_matches_meet [of a y "cidr_prefix_len c" b "cidr_prefix_len d"]
      prefix_matches_meet [of b y "cidr_prefix_len d" a "cidr_prefix_len c"]
    by (cases "cidr_prefix_len c \<le> cidr_prefix_len d")
      (auto simp: cidr_overlaps_def cidr_contains_def cidr_wf_def word_le_nat_alt)
qed

lemma cidr_overlapsD: "cidr_overlaps c d \<Longrightarrow> \<exists>x. cidr_contains c x \<and> cidr_contains d x"
proof -
  assume "cidr_overlaps c d"
  then have "cidr_contains c (cidr_address d) \<or> cidr_contains d (cidr_address c)"
    by (auto simp: cidr_overlaps_def split: ip_addr.splits)
  then show ?thesis using cidr_contains_self by blast
qed

lemma cidr_new_wf: "cidr_new address prefix_len = Ok c \<Longrightarrow> cidr_wf c"
  by (auto simp: cidr_new_def cidr_wf_def split: if_splits)

text \<open>
  The overlap test of two prefixes, which only compares each network address with the other
  prefix, holds exactly when some address is in both.
\<close>

lemma cidr_overlaps_iff_common_address:
  assumes "cidr_wf c" and "cidr_wf d"
  shows "cidr_overlaps c d \<longleftrightarrow> (\<exists>x. cidr_contains c x \<and> cidr_contains d x)"
  using cidr_overlapsI [OF assms] cidr_overlapsD [of c d] by blast

subsection \<open>The table stays sorted and every address has one owner\<close>

text \<open>
  The tables of the program are built from \<open>RouteTable::new\<close> by \<open>insert_authorized\<close> alone
  (\<open>Config::compile_routes_with_membership\<close> in \<open>src/src/config.rs\<close>); \<open>insert\<close> skips the
  ownership check.
\<close>

inductive authorized_table :: "route_table \<Rightarrow> bool" where
  authorized_new: "authorized_table route_table_new"
| authorized_insert:
    "authorized_table t \<Longrightarrow> cidr_wf (route_prefix r) \<Longrightarrow> authorized_table (snd (insert_authorized t r))"

definition table_sorted :: "route_table \<Rightarrow> bool" where
  "table_sorted t \<longleftrightarrow> sorted (map route_sort_key (table_routes t))"

definition table_exclusive :: "route_table \<Rightarrow> bool" where
  "table_exclusive t \<longleftrightarrow>
     (\<forall>r \<in> set (table_routes t). \<forall>r' \<in> set (table_routes t).
        route_owner r \<noteq> route_owner r' \<longrightarrow> \<not> cidr_overlaps (route_prefix r) (route_prefix r'))"

definition table_prefixes_wf :: "route_table \<Rightarrow> bool" where
  "table_prefixes_wf t \<longleftrightarrow> (\<forall>r \<in> set (table_routes t). cidr_wf (route_prefix r))"

definition table_inv :: "route_table \<Rightarrow> bool" where
  "table_inv t \<longleftrightarrow> table_sorted t \<and> table_exclusive t \<and> table_prefixes_wf t \<and> distinct (table_routes t)"

lemmas table_inv_defs = table_inv_def table_sorted_def table_exclusive_def table_prefixes_wf_def

lemma cidr_overlaps_sym: "cidr_overlaps c d \<longleftrightarrow> cidr_overlaps d c"
  by (auto simp: cidr_overlaps_def split: ip_addr.splits)

lemma sort_routes_simps [simp]:
  "mset (table_routes (sort_routes t)) = mset (table_routes t)"
  "set (table_routes (sort_routes t)) = set (table_routes t)"
  "distinct (table_routes (sort_routes t)) = distinct (table_routes t)"
  "table_sorted (sort_routes t)"
  by (simp_all add: sort_routes_def table_sorted_def)

lemma route_table_new_inv: "table_inv route_table_new"
  by (simp add: table_inv_defs route_table_new_def)

lemma table_insert_sorted: "table_sorted (table_insert t r)"
  by (simp add: table_insert_def)

lemma set_table_insert [simp]: "set (table_routes (table_insert t r)) = insert r (set (table_routes t))"
  by (simp add: table_insert_def)

text \<open>What \<open>insert_authorized\<close> does, on each of its branches.\<close>

definition conflicting :: "route_table \<Rightarrow> route \<Rightarrow> bool" where
  "conflicting t r \<longleftrightarrow>
     (\<exists>e \<in> set (table_routes t). route_owner e \<noteq> route_owner r \<and>
        cidr_overlaps (route_prefix e) (route_prefix r))"

lemma insert_authorized_duplicate:
  "r \<in> set (table_routes t) \<Longrightarrow> insert_authorized t r = (Ok (), t)"
  by (simp add: insert_authorized_def)

lemma insert_authorized_fresh:
  "r \<notin> set (table_routes t) \<Longrightarrow> \<not> conflicting t r \<Longrightarrow> insert_authorized t r = (Ok (), table_insert t r)"
  by (auto simp: insert_authorized_def conflicting_def table_insert_def find_None_iff
      split: option.splits dest!: find_Some_iff [THEN iffD1])

lemma insert_authorized_conflict:
  assumes "r \<notin> set (table_routes t)" and "conflicting t r"
  shows "\<exists>e \<in> set (table_routes t). route_owner e \<noteq> route_owner r \<and>
      cidr_overlaps (route_prefix e) (route_prefix r) \<and>
      insert_authorized t r =
        (Err (ConflictingOwnership (route_owner e) (route_owner r) (route_prefix e) (route_prefix r)), t)"
proof -
  let ?P = "\<lambda>e. route_owner e \<noteq> route_owner r \<and> cidr_overlaps (route_prefix e) (route_prefix r)"
  from assms(2) have "find ?P (table_routes t) \<noteq> None"
    by (auto simp: conflicting_def find_None_iff)
  then obtain e where e: "find ?P (table_routes t) = Some e" by blast
  then have "e \<in> set (table_routes t) \<and> ?P e"
    by (auto elim: find_splitE)
  with e assms(1) show ?thesis by (auto simp: insert_authorized_def)
qed

lemma table_insert_inv:
  assumes "table_inv t" and "cidr_wf (route_prefix r)" and "r \<notin> set (table_routes t)"
    and "\<not> conflicting t r"
  shows "table_inv (table_insert t r)"
  using assms cidr_overlaps_sym
  by (auto simp: table_inv_def table_insert_sorted table_exclusive_def table_prefixes_wf_def
      conflicting_def table_insert_def)

lemma insert_authorized_inv:
  assumes "table_inv t" and "cidr_wf (route_prefix r)"
  shows "table_inv (snd (insert_authorized t r))"
proof (cases "r \<in> set (table_routes t)")
  case True
  with assms show ?thesis by (simp add: insert_authorized_duplicate)
next
  case False
  show ?thesis
  proof (cases "conflicting t r")
    case True
    with False assms insert_authorized_conflict show ?thesis by fastforce
  next
    case no: False
    with False assms show ?thesis by (simp add: insert_authorized_fresh table_insert_inv)
  qed
qed

lemma authorized_table_inv: "authorized_table t \<Longrightarrow> table_inv t"
  by (induction rule: authorized_table.induct) (simp_all add: route_table_new_inv insert_authorized_inv)

text \<open>
  inserting an authorized route succeeds exactly when no route of another owner overlaps it or
  the route is already there. On success the table holds the old routes and the new one, and
  inserting it again changes nothing; on a conflict the table is unchanged and the error names an
  existing route of another owner that overlaps.
\<close>

theorem insert_authorized_behaviour:
  fixes t :: route_table and r :: route
  defines "out \<equiv> insert_authorized t r"
  shows "(fst out \<noteq> Ok () \<longleftrightarrow> r \<notin> set (table_routes t) \<and> conflicting t r) \<and>
    (if fst out = Ok ()
     then set (table_routes (snd out)) = insert r (set (table_routes t)) \<and>
          insert_authorized (snd out) r = (Ok (), snd out)
     else snd out = t \<and>
          (\<exists>e \<in> set (table_routes t). route_owner e \<noteq> route_owner r \<and>
             cidr_overlaps (route_prefix e) (route_prefix r) \<and>
             fst out = Err (ConflictingOwnership (route_owner e) (route_owner r)
                              (route_prefix e) (route_prefix r))))"
proof (cases "r \<in> set (table_routes t)")
  case True
  then show ?thesis by (auto simp: out_def insert_authorized_duplicate)
next
  case False
  show ?thesis
  proof (cases "conflicting t r")
    case True
    with False insert_authorized_conflict [OF False True] show ?thesis
      by (auto simp: out_def)
  next
    case no: False
    with False show ?thesis
      by (simp add: out_def insert_authorized_fresh insert_authorized_duplicate)
  qed
qed

subsection \<open>Looking addresses up\<close>

lemma resolve_None_iff:
  "resolve t a = None \<longleftrightarrow> (\<forall>r \<in> set (table_routes t). \<not> cidr_contains (route_prefix r) a)"
  by (auto simp: resolve_def find_None_iff)

lemma resolve_SomeD:
  assumes "resolve t a = Some r"
  shows "r \<in> set (table_routes t)" and "cidr_contains (route_prefix r) a"
  using assms by (auto simp: resolve_def elim: find_splitE)

lemma resolve_least_key:
  assumes "table_sorted t" and "resolve t a = Some r" and "r' \<in> set (table_routes t)"
    and "cidr_contains (route_prefix r') a"
  shows "route_sort_key r \<le> route_sort_key r'"
proof -
  from assms(2) obtain us vs where split: "table_routes t = us @ r # vs"
    and before: "\<And>u. u \<in> set us \<Longrightarrow> \<not> cidr_contains (route_prefix u) a"
    by (auto simp: resolve_def elim: find_splitE)
  with assms(3,4) have "r' \<in> set (r # vs)" by auto
  with assms(1) split show ?thesis
    by (auto simp: table_sorted_def sorted_append)
qed

lemma route_sort_key_leD:
  assumes "route_sort_key r \<le> route_sort_key r'"
  shows "cidr_prefix_len (route_prefix r') \<le> cidr_prefix_len (route_prefix r)"
    and "cidr_prefix_len (route_prefix r') = cidr_prefix_len (route_prefix r) \<Longrightarrow>
      route_metric r \<le> route_metric r'"
  using assms by (auto simp: route_sort_key_def word_le_nat_alt simp del: of_nat_unat)

lemma same_owner_if_common_address:
  assumes "table_inv t" and "r \<in> set (table_routes t)" and "r' \<in> set (table_routes t)"
    and "cidr_contains (route_prefix r) a" and "cidr_contains (route_prefix r') a"
  shows "route_owner r = route_owner r'"
  using assms cidr_overlapsI [of "route_prefix r" "route_prefix r'" a]
  by (auto simp: table_inv_defs)

lemma authorize_source_Ok_iff:
  "authorize_source t p a = Ok () \<longleftrightarrow>
     (\<exists>r \<in> set (table_routes t). route_owner r = p \<and> cidr_contains (route_prefix r) a)"
  by (auto simp: authorize_source_def list_ex_iff)

lemma authorize_source_resolve:
  assumes "table_inv t"
  shows "authorize_source t p a = Ok () \<longleftrightarrow> map_option route_owner (resolve t a) = Some p"
proof (cases "resolve t a")
  case None
  then have "\<forall>r \<in> set (table_routes t). \<not> cidr_contains (route_prefix r) a"
    by (simp only: resolve_None_iff)
  then have "authorize_source t p a \<noteq> Ok ()"
    unfolding authorize_source_Ok_iff by blast
  with None show ?thesis by simp
next
  case (Some r)
  note r = resolve_SomeD [OF Some]
  have "route_owner r = p" if "r' \<in> set (table_routes t)" "route_owner r' = p"
      "cidr_contains (route_prefix r') a" for r'
    using same_owner_if_common_address [OF assms that(1) r(1) that(3) r(2)] that(2) by simp
  with r have "authorize_source t p a = Ok () \<longleftrightarrow> route_owner r = p"
    unfolding authorize_source_Ok_iff by blast
  with Some show ?thesis by simp
qed

text \<open>
  The contract a packet path relies on: who may send from an address is exactly who packets to
  that address are delivered to.
\<close>

locale address_ownership =
  fixes owner_of :: "'t \<Rightarrow> 'a \<Rightarrow> 'p option"
    and may_use :: "'t \<Rightarrow> 'p \<Rightarrow> 'a \<Rightarrow> bool"
    and inv :: "'t \<Rightarrow> bool"
  assumes may_use_iff: "inv t \<Longrightarrow> may_use t p a \<longleftrightarrow> owner_of t a = Some p"
begin

lemma may_use_unique: "inv t \<Longrightarrow> may_use t p a \<Longrightarrow> may_use t q a \<Longrightarrow> p = q"
  by (simp add: may_use_iff)

lemma only_owner_may_use: "inv t \<Longrightarrow> owner_of t a = Some p \<Longrightarrow> q \<noteq> p \<Longrightarrow> \<not> may_use t q a"
  by (simp add: may_use_iff)

end

interpretation table_ownership: address_ownership
  "\<lambda>t a. map_option route_owner (resolve t a)" "\<lambda>t p a. authorize_source t p a = Ok ()" table_inv
  by unfold_locales (rule authorize_source_resolve)

text \<open>A table with two routes of one owner, one inside the other, to apply the properties to.\<close>

definition sample_route :: "u8 \<Rightarrow> u32 \<Rightarrow> route" where
  "sample_route len net =
     \<lparr>route_owner = PeerId [7], route_prefix = \<lparr>cidr_address = V4 net, cidr_prefix_len = len\<rparr>,
      route_metric = 0\<rparr>"

definition sample_table :: route_table where
  "sample_table =
     snd (insert_authorized
       (snd (insert_authorized route_table_new (sample_route 8 0x0a000000)))
       (sample_route 16 0x0a010000))"

lemma sample_table_authorized: "authorized_table sample_table"
  unfolding sample_table_def
  by (intro authorized_insert authorized_new) (simp_all add: cidr_wf_def sample_route_def)

text \<open>
  C20: in every table the program builds, resolving an address finds a route when one matches, and
  the route found has the longest prefix among the matching routes, the smallest metric among
  those, and the same owner as every other matching route.
\<close>

theorem resolve_longest_prefix:
  assumes "authorized_table t"
  shows "case resolve t a of
      None \<Rightarrow> \<forall>r \<in> set (table_routes t). \<not> cidr_contains (route_prefix r) a
    | Some r \<Rightarrow> r \<in> set (table_routes t) \<and> cidr_contains (route_prefix r) a \<and>
        (\<forall>r' \<in> set (table_routes t). cidr_contains (route_prefix r') a \<longrightarrow>
           cidr_prefix_len (route_prefix r') \<le> cidr_prefix_len (route_prefix r) \<and>
           (cidr_prefix_len (route_prefix r') = cidr_prefix_len (route_prefix r) \<longrightarrow>
              route_metric r \<le> route_metric r') \<and>
           route_owner r' = route_owner r)"
proof (cases "resolve t a")
  case None
  then have "\<forall>r \<in> set (table_routes t). \<not> cidr_contains (route_prefix r) a"
    by (simp only: resolve_None_iff)
  with None show ?thesis by simp
next
  case (Some r)
  note inv = authorized_table_inv [OF assms] and r = resolve_SomeD [OF Some]
  from inv have "table_sorted t" by (simp add: table_inv_def)
  note least = resolve_least_key [OF this Some]
  have "cidr_prefix_len (route_prefix r') \<le> cidr_prefix_len (route_prefix r) \<and>
      (cidr_prefix_len (route_prefix r') = cidr_prefix_len (route_prefix r) \<longrightarrow>
         route_metric r \<le> route_metric r') \<and> route_owner r' = route_owner r"
    if "r' \<in> set (table_routes t)" "cidr_contains (route_prefix r') a" for r'
    using route_sort_key_leD [OF least [OF that]]
      same_owner_if_common_address [OF inv that(1) r(1) that(2) r(2)] by blast
  then show ?thesis unfolding Some option.case by (intro conjI r ballI impI) auto
qed

theorem resolve_longest_prefix_witness:
  "authorized_table sample_table \<and>
   resolve sample_table (V4 0x0a010203) = Some (sample_route 16 0x0a010000) \<and>
   cidr_contains (route_prefix (sample_route 8 0x0a000000)) (V4 0x0a010203) \<and>
   cidr_prefix_len (route_prefix (sample_route 8 0x0a000000)) \<le>
     cidr_prefix_len (route_prefix (sample_route 16 0x0a010000))"
proof -
  have r: "resolve sample_table (V4 0x0a010203) = Some (sample_route 16 0x0a010000)"
    and m: "sample_route 8 0x0a000000 \<in> set (table_routes sample_table)"
    and c: "cidr_contains (route_prefix (sample_route 8 0x0a000000)) (V4 0x0a010203)"
    by code_simp+
  from resolve_longest_prefix [OF sample_table_authorized, of "V4 0x0a010203"] m c
  have "cidr_prefix_len (route_prefix (sample_route 8 0x0a000000)) \<le>
     cidr_prefix_len (route_prefix (sample_route 16 0x0a010000))"
    unfolding r option.case by blast
  with r c sample_table_authorized show ?thesis by blast
qed

text \<open>
  C21: in every table the program builds, a peer may send from an address exactly when packets to
  that address are routed to it, so no two peers may send from one address.
\<close>

theorem source_authorization_matches_routing:
  assumes "authorized_table t"
  shows "(authorize_source t p a = Ok () \<longleftrightarrow> (\<exists>r. resolve t a = Some r \<and> route_owner r = p)) \<and>
    (authorize_source t p a = Ok () \<and> authorize_source t q a = Ok () \<longrightarrow> p = q)"
proof -
  have inv: "table_inv t" by (rule authorized_table_inv [OF assms])
  from table_ownership.may_use_iff [OF inv, of p a]
    table_ownership.may_use_unique [OF inv, of p a q]
  show ?thesis by auto
qed

theorem source_authorization_matches_routing_witness:
  "authorized_table sample_table \<and>
   authorize_source sample_table (PeerId [7]) (V4 0x0a010203) = Ok () \<and>
   (\<exists>r. resolve sample_table (V4 0x0a010203) = Some r \<and> route_owner r = PeerId [7])"
proof -
  have "authorize_source sample_table (PeerId [7]) (V4 0x0a010203) = Ok ()" by code_simp
  with source_authorization_matches_routing
      [OF sample_table_authorized, of "PeerId [7]" "V4 0x0a010203" "PeerId [7]"]
  show ?thesis using sample_table_authorized by blast
qed

subsection \<open>Addresses derived from an identity stay in the overlay ranges\<close>

lemma length_xor_at [simp]: "length (xor_at i b xs) = length xs"
  by (simp add: xor_at_def)

lemma xor_at_fold_length:
  "length (foldl (\<lambda>xs (i, b). xor_at (pos i) b xs) xs ibs) = length xs"
  by (induction ibs arbitrary: xs) auto

lemma xor_at_fold_other:
  "(\<And>i. pos i \<noteq> k) \<Longrightarrow> foldl (\<lambda>xs (i, b). xor_at (pos i) b xs) xs ibs ! k = xs ! k"
  by (induction ibs arbitrary: xs) (auto simp: xor_at_def)

lemma length_net_id [simp]: "length (net_id peer) = 4"
  by (simp add: net_id_def xor_at_fold_length)

lemma drop_bit_from_be_bytes:
  "8 * length xs + 8 * length ys \<le> LENGTH('a) \<Longrightarrow>
     drop_bit (8 * length ys) (from_be_bytes (xs @ ys) :: 'a::len word) = from_be_bytes xs"
proof (induction ys rule: rev_induct)
  case Nil
  then show ?case by simp
next
  case (snoc y ys)
  let ?w = "from_be_bytes (xs @ ys) :: 'a word"
  have "8 * length (xs @ ys) + 8 \<le> LENGTH('a)" using snoc.prems by simp
  then have step: "drop_bit 8 (push_bit 8 ?w OR ucast y) = ?w"
    by (rule drop_bit_8_from_be_bytes)
  have "drop_bit (8 * length (ys @ [y])) (from_be_bytes (xs @ ys @ [y]) :: 'a word) =
      drop_bit (8 * length ys) (drop_bit 8 (push_bit 8 ?w OR ucast y))"
    using from_be_bytes_snoc [of "xs @ ys" y, where 'a = 'a] by (simp add: add.commute del: drop_bit_or)
  also have "\<dots> = from_be_bytes xs"
    using snoc by (simp add: step del: drop_bit_or)
  finally show ?case .
qed

lemma prefix_matches_drop_bit:
  fixes network address :: "'a::len word"
  assumes "unat p \<le> LENGTH('a)"
  shows "prefix_matches network address p \<longleftrightarrow>
    drop_bit (LENGTH('a) - unat p) network = drop_bit (LENGTH('a) - unat p) address"
proof -
  have "drop_bit m network = drop_bit m address \<longleftrightarrow>
      (\<forall>i < LENGTH('a). m \<le> i \<longrightarrow> bit network i = bit address i)" for m
  proof
    assume eq: "drop_bit m network = drop_bit m address"
    have "bit network i = bit address i" if "m \<le> i" for i
      using arg_cong [OF eq, of "\<lambda>w. bit w (i - m)"] that by (simp add: bit_simps)
    then show "\<forall>i < LENGTH('a). m \<le> i \<longrightarrow> bit network i = bit address i" by simp
  next
    assume "\<forall>i < LENGTH('a). m \<le> i \<longrightarrow> bit network i = bit address i"
    then show "drop_bit m network = drop_bit m address"
      by (intro bit_word_eqI) (auto simp: bit_simps dest: bit_imp_le_length)
  qed
  then show ?thesis using prefix_matches_iff_bits [OF assms] by auto
qed

text \<open>
  The address derived from an identity is in 100.64.0.0/16 for IPv4, and in the /96 that
  begins with the bytes of \<open>fd 00\<close> and \<open>hyprspace\<close> for IPv6, whatever the identity.
\<close>

lemma builtin_addresses_in_overlay_ranges:
  "cidr_contains \<lparr>cidr_address = V4 0x64400000, cidr_prefix_len = 16\<rparr> (V4 (builtin_ipv4 peer)) \<and>
   cidr_contains \<lparr>cidr_address = V6 0xfd006879707273706163650000000000, cidr_prefix_len = 96\<rparr>
     (V6 (builtin_ipv6 peer))"
proof -
  define a where "a = foldl (\<lambda>address (index, byte). xor_at (index mod 2 + 2) byte address)
      [100, 64, 0, 0] (enumerate 0 (as_bytes peer))"
  have len: "length a = 4" by (simp add: a_def xor_at_fold_length)
  have "a ! 0 = 100" "a ! 1 = 64"
    using xor_at_fold_other [of "\<lambda>i. i mod 2 + 2" 0] xor_at_fold_other [of "\<lambda>i. i mod 2 + 2" 1]
    by (simp_all add: a_def)
  with len have "a = [100, 64] @ drop 2 a"
    by (auto simp: eval_nat_numeral length_Suc_conv)
  then have "builtin_ipv4 peer = from_be_bytes ([100, 64] @ drop 2 a)"
    by (simp only: builtin_ipv4_def a_def [symmetric])
  then have "drop_bit 16 (builtin_ipv4 peer) = from_be_bytes [100, 64]"
    using drop_bit_from_be_bytes [of "[100, 64]" "drop 2 a", where 'a = 32] len by simp
  also have "\<dots> = drop_bit 16 0x64400000" by code_simp
  finally have v4: "drop_bit 16 (builtin_ipv4 peer) = drop_bit 16 0x64400000" .
  have "drop_bit (8 * length (net_id peer)) (builtin_ipv6 peer) =
      from_be_bytes (take 12 [253, 0, 104, 121, 112, 114, 115, 112, 97, 99, 101, 0, 0, 0, 0, 0])"
    unfolding builtin_ipv6_def by (rule drop_bit_from_be_bytes) simp
  also have "\<dots> = drop_bit 32 0xfd006879707273706163650000000000" by code_simp
  finally have v6: "drop_bit 32 (builtin_ipv6 peer) = drop_bit 32 0xfd006879707273706163650000000000"
    by simp
  from v4 have "prefix_matches 0x64400000 (builtin_ipv4 peer) 16"
    using prefix_matches_drop_bit [of 16 "0x64400000 :: u32" "builtin_ipv4 peer"] by simp
  moreover from v6 have "prefix_matches 0xfd006879707273706163650000000000 (builtin_ipv6 peer) 96"
    using prefix_matches_drop_bit
      [of 96 "0xfd006879707273706163650000000000 :: u128" "builtin_ipv6 peer"] by simp
  ultimately show ?thesis by (simp add: cidr_contains_def)
qed

end
