(* ===== verification/Replay.thy ===== *)
theory Replay
  imports Wire
begin

text \<open>
  The replay window of one session (\<open>ReplayWindow\<close> of \<open>src/src/runtime/forward.rs\<close>): the highest
  sequence accepted and a bit for each of the 64 sequences up to it. The window refines the set of
  sequences accepted so far.
\<close>

definition REPLAY_WINDOW_BITS :: u64 where
  "REPLAY_WINDOW_BITS = 64"

record replay_window =
  rw_highest :: "sequence option"
  rw_seen :: u64
  rw_updated_at :: instant

datatype replay_accept_error = Duplicate | TooOld

definition replay_window_new :: "instant \<Rightarrow> replay_window" where
  "replay_window_new now = \<lparr>rw_highest = None, rw_seen = 0, rw_updated_at = now\<rparr>"

definition replay_accept ::
    "replay_window \<Rightarrow> sequence \<Rightarrow> instant \<Rightarrow> (unit, replay_accept_error) result \<times> replay_window" where
  "replay_accept w s now =
     (case rw_highest w of
        None \<Rightarrow> (Ok (), w\<lparr>rw_highest := Some s, rw_seen := 1, rw_updated_at := now\<rparr>)
      | Some highest \<Rightarrow>
          if s > highest then
            (let shift = s - highest;
                 seen = (if shift \<ge> REPLAY_WINDOW_BITS then 1
                         else push_bit (unat shift) (rw_seen w) OR 1)
             in (Ok (), w\<lparr>rw_seen := seen, rw_highest := Some s, rw_updated_at := now\<rparr>))
          else
            (let offset = highest - s in
             if offset \<ge> REPLAY_WINDOW_BITS then (Err TooOld, w)
             else
               let b = push_bit (unat offset) 1 in
               if rw_seen w AND b \<noteq> 0 then (Err Duplicate, w)
               else (Ok (), w\<lparr>rw_seen := rw_seen w OR b, rw_updated_at := now\<rparr>)))"

definition replay_is_expired :: "replay_window \<Rightarrow> instant \<Rightarrow> duration \<Rightarrow> bool" where
  "replay_is_expired w now ttl = (now - rw_updated_at w > ttl)"

subsection \<open>The set a window represents\<close>

definition represents :: "replay_window \<Rightarrow> nat set \<Rightarrow> bool" where
  "represents w S \<longleftrightarrow>
     (case rw_highest w of
        None \<Rightarrow> S = {}
      | Some h \<Rightarrow> unat h \<in> S \<and> (\<forall>x \<in> S. x \<le> unat h) \<and>
          (\<forall>i < 64. bit (rw_seen w) i \<longleftrightarrow> i \<le> unat h \<and> unat h - i \<in> S))"

text \<open>The specification: too old is 64 or more behind an accepted sequence.\<close>

definition too_old :: "nat set \<Rightarrow> sequence \<Rightarrow> bool" where
  "too_old S s \<longleftrightarrow> (\<exists>x \<in> S. unat s + 64 \<le> x)"

lemma represents_new [simp]: "represents (replay_window_new now) {}"
  by (simp add: represents_def replay_window_new_def)

lemma unat_sub_le: "b \<le> a \<Longrightarrow> unat (a - b) = unat a - unat b"
  by (simp add: unat_sub)

lemma window_bits: "REPLAY_WINDOW_BITS \<le> d \<longleftrightarrow> 64 \<le> unat d"
  by (simp add: REPLAY_WINDOW_BITS_def word_le_nat_alt)

lemma word_and_single_bit: "w AND 2 ^ n = 0 \<longleftrightarrow> \<not> bit w n" for w :: "'a::len word"
  by (simp add: bit_iff_and_push_bit_not_eq_0)

lemma represents_advance:
  assumes "represents w S" and "rw_highest w = Some h" and "h < s"
  defines "seen \<equiv> (if s - h \<ge> REPLAY_WINDOW_BITS then 1 else push_bit (unat (s - h)) (rw_seen w) OR 1)"
  shows "represents (w\<lparr>rw_seen := seen, rw_highest := Some s, rw_updated_at := now\<rparr>) (insert (unat s) S)"
proof -
  have lt: "unat h < unat s" using assms(3) by (simp add: word_less_nat_alt)
  have d: "unat (s - h) = unat s - unat h" using assms(3) by (intro unat_sub_le) simp
  from assms(1,2) have max: "\<And>x. x \<in> S \<Longrightarrow> x \<le> unat h"
    and bits: "\<And>i. i < 64 \<Longrightarrow> bit (rw_seen w) i \<longleftrightarrow> i \<le> unat h \<and> unat h - i \<in> S"
    by (auto simp: represents_def)
  have "bit seen i \<longleftrightarrow> i \<le> unat s \<and> unat s - i \<in> insert (unat s) S" if i: "i < 64" for i
  proof (cases "i < unat s - unat h")
    case True
    then have "i \<noteq> 0 \<Longrightarrow> unat s - i \<notin> insert (unat s) S" using max [of "unat s - i"] lt by auto
    with True i show ?thesis by (cases "i = 0") (auto simp: seen_def d bit_simps)
  next
    case False
    then have "i \<noteq> 0" and eq: "i \<le> unat s \<Longrightarrow> unat s - i = unat h - (i - (unat s - unat h))"
      and le: "i \<le> unat s \<longleftrightarrow> i - (unat s - unat h) \<le> unat h" using lt by linarith+
    with False i have "bit seen i \<longleftrightarrow> bit (rw_seen w) (i - (unat s - unat h))"
      by (auto simp: seen_def d bit_simps window_bits)
    also have "\<dots> \<longleftrightarrow> i - (unat s - unat h) \<le> unat h \<and> unat h - (i - (unat s - unat h)) \<in> S"
      using i by (intro bits) simp
    also have "\<dots> \<longleftrightarrow> i \<le> unat s \<and> unat s - i \<in> S" using le eq by metis
    finally show ?thesis using \<open>i \<noteq> 0\<close> lt by auto
  qed
  moreover have "x \<le> unat s" if "x \<in> S" for x using max [OF that] lt by simp
  ultimately show ?thesis by (simp add: represents_def)
qed

lemma represents_fill:
  assumes "represents w S" and "rw_highest w = Some h" and "s \<le> h" and "unat h - unat s < 64"
  shows "bit (rw_seen w) (unat (h - s)) \<longleftrightarrow> unat s \<in> S"
    and "represents (w\<lparr>rw_seen := rw_seen w OR push_bit (unat (h - s)) 1, rw_updated_at := now\<rparr>)
      (insert (unat s) S)"
proof -
  have le: "unat s \<le> unat h" using assms(3) by (simp add: word_le_nat_alt)
  have d: "unat (h - s) = unat h - unat s" using assms(3) by (rule unat_sub_le)
  from assms(1,2) have max: "\<And>x. x \<in> S \<Longrightarrow> x \<le> unat h" and h: "unat h \<in> S"
    and bits: "\<And>i. i < 64 \<Longrightarrow> bit (rw_seen w) i \<longleftrightarrow> i \<le> unat h \<and> unat h - i \<in> S"
    by (auto simp: represents_def)
  show "bit (rw_seen w) (unat (h - s)) \<longleftrightarrow> unat s \<in> S"
    using bits [OF assms(4)] le by (simp add: d)
  have "bit (rw_seen w OR push_bit (unat h - unat s) 1) i \<longleftrightarrow>
      i \<le> unat h \<and> unat h - i \<in> insert (unat s) S" if "i < 64" for i
    using bits [OF that] that le by (auto simp: bit_simps)
  with max h le assms(2)
  show "represents (w\<lparr>rw_seen := rw_seen w OR push_bit (unat (h - s)) 1, rw_updated_at := now\<rparr>)
      (insert (unat s) S)"
    by (auto simp: represents_def d)
qed

lemma replay_accept_refines:
  assumes "represents w S"
  shows "(case replay_accept w s now of
      (Inr _, w') \<Rightarrow> unat s \<notin> S \<and> \<not> too_old S s \<and> represents w' (insert (unat s) S)
    | (Inl Duplicate, w') \<Rightarrow> unat s \<in> S \<and> \<not> too_old S s \<and> w' = w
    | (Inl TooOld, w') \<Rightarrow> too_old S s \<and> w' = w)"
proof (cases "rw_highest w")
  case None
  with assms have "S = {}" by (simp add: represents_def)
  moreover have "represents (w\<lparr>rw_highest := Some s, rw_seen := 1, rw_updated_at := now\<rparr>) {unat s}"
    by (auto simp: represents_def bit_simps)
  ultimately show ?thesis using None by (simp add: replay_accept_def too_old_def)
next
  case (Some h)
  with assms have max: "\<And>x. x \<in> S \<Longrightarrow> x \<le> unat h" and h: "unat h \<in> S"
    by (auto simp: represents_def)
  then have old: "too_old S s \<longleftrightarrow> unat s + 64 \<le> unat h"
    by (auto simp: too_old_def intro: order.trans)
  show ?thesis
  proof (cases "h < s")
    case True
    then have "unat h < unat s" by (simp add: word_less_nat_alt)
    with max [of "unat s"] have "unat s \<notin> S" "\<not> too_old S s" by (auto simp: old)
    with Some True represents_advance [OF assms Some True, of now] show ?thesis
      by (simp add: replay_accept_def Let_def)
  next
    case False
    then have le: "s \<le> h" "unat s \<le> unat h" by (simp_all add: word_le_nat_alt not_less)
    have "REPLAY_WINDOW_BITS \<le> h - s \<longleftrightarrow> too_old S s"
      using le by (auto simp: window_bits unat_sub_le old)
    with Some False le represents_fill(1) [OF assms Some le(1)]
      represents_fill(2) [OF assms Some le(1), of now] show ?thesis
      by (auto simp: replay_accept_def Let_def word_and_single_bit old)
  qed
qed

text \<open>
  A replay window accepts a sequence exactly when it was not accepted before and is less than 64
  behind every accepted one; it then represents the set with that sequence added. It reports a
  duplicate exactly for an accepted sequence that is not too old, and errors leave it unchanged.
\<close>

lemma replay_window_refines_set:
  assumes "represents w S"
  shows "(case replay_accept w s now of
      (Inr _, w') \<Rightarrow> unat s \<notin> S \<and> \<not> too_old S s \<and> represents w' (insert (unat s) S)
    | (Inl Duplicate, w') \<Rightarrow> unat s \<in> S \<and> \<not> too_old S s \<and> w' = w
    | (Inl TooOld, w') \<Rightarrow> too_old S s \<and> w' = w)"
  by (rule replay_accept_refines [OF assms])

end
