(* ===== verification/Eviction.thy ===== *)
theory Eviction
  imports Prelude
begin

text \<open>
  Tables of bounded size. Several components keep a hash map that must not grow without bound and
  remove an entry before they insert a new key: the replay windows, the completed membership
  snapshots and the retry deadlines. \<open>evict_oldest\<close> is the step they share
  (\<open>iter().min_by_key(...)\<close> followed by \<open>remove\<close>); the locale is the contract of making room, and the
  bound on the table is proved once from it.
\<close>

definition evict_oldest :: "('v \<Rightarrow> nat) \<Rightarrow> ('k, 'v) hash_map \<Rightarrow> ('k, 'v) hash_map" where
  "evict_oldest stamp m =
     (case min_by_key (\<lambda>(_, v). stamp v) m of
        None \<Rightarrow> m
      | Some (k, _) \<Rightarrow> hm_remove m k)"

lemma hm_wf_evict_oldest: "hm_wf m \<Longrightarrow> hm_wf (evict_oldest stamp m)"
  by (auto simp: evict_oldest_def split: option.split)

lemma hm_get_evict_oldest: "hm_get (evict_oldest stamp m) k = Some v \<Longrightarrow> hm_get m k = Some v"
  by (auto simp: evict_oldest_def split: option.splits if_splits)

lemma length_evict_oldest:
  assumes "hm_wf m" and "m \<noteq> []"
  shows "length (evict_oldest stamp m) = length m - 1"
proof -
  from assms(2) obtain k v where o: "min_by_key (\<lambda>(_, v). stamp v) m = Some (k, v)"
    by (cases "min_by_key (\<lambda>(_, v). stamp v) m") auto
  then have "(k, v) \<in> set m" by (auto dest: min_by_key_SomeD)
  then have "hm_contains m k" by (force simp: hm_contains_iff)
  with o assms(1) show ?thesis by (simp add: evict_oldest_def length_hm_remove)
qed

text \<open>The evicted entry is one with the smallest stamp.\<close>

lemma evict_oldest_removes_minimum:
  assumes "hm_wf m" and "hm_get m k = Some v" and "hm_get (evict_oldest stamp m) k = None"
  shows "\<forall>(j, w) \<in> set m. stamp v \<le> stamp w"
proof -
  from assms(2) have "m \<noteq> []" by auto
  then obtain j w where o: "min_by_key (\<lambda>(_, v). stamp v) m = Some (j, w)"
    by (cases "min_by_key (\<lambda>(_, v). stamp v) m") auto
  with assms(2,3) have "k = j" by (auto simp: evict_oldest_def split: if_splits)
  moreover from o have "(j, w) \<in> set m" by (auto dest: min_by_key_SomeD)
  ultimately have "v = w" using assms(2) hm_get_Some_iff [OF assms(1), of j w] by simp
  with min_by_key_SomeD [OF o] show ?thesis by auto
qed

locale bounded_table =
  fixes make_room :: "('k, 'v) hash_map \<Rightarrow> 'k \<Rightarrow> ('k, 'v) hash_map"
    and capacity :: nat
  assumes room_wf: "hm_wf m \<Longrightarrow> hm_wf (make_room m k)"
    and room_subset: "hm_wf m \<Longrightarrow> hm_get (make_room m k) j = Some v \<Longrightarrow> hm_get m j = Some v"
    and room_keeps: "hm_wf m \<Longrightarrow> hm_contains m k \<Longrightarrow> make_room m k = m"
    and room_free: "hm_wf m \<Longrightarrow> length m \<le> capacity \<Longrightarrow> \<not> hm_contains m k \<Longrightarrow>
      length (make_room m k) < capacity"
begin

lemma insert_wf: "hm_wf m \<Longrightarrow> hm_wf (hm_insert (make_room m k) k v)"
  by (simp add: room_wf)

lemma insert_bounded:
  assumes "hm_wf m" and "length m \<le> capacity"
  shows "length (hm_insert (make_room m k) k v) \<le> capacity"
proof (cases "hm_contains m k")
  case True
  with assms show ?thesis by (simp add: room_keeps length_hm_insert)
next
  case False
  with room_free [OF assms False] show ?thesis by (simp add: length_hm_insert)
qed

lemma insert_subset:
  "hm_wf m \<Longrightarrow> hm_get (hm_insert (make_room m k) k v) j = Some w \<Longrightarrow> j \<noteq> k \<Longrightarrow> hm_get m j = Some w"
  by (simp add: room_subset)

end

text \<open>Removing the oldest entry when the table is full and the key is new is a way to make room.\<close>

definition evict_if_full :: "nat \<Rightarrow> ('v \<Rightarrow> nat) \<Rightarrow> ('k, 'v) hash_map \<Rightarrow> 'k \<Rightarrow> ('k, 'v) hash_map" where
  "evict_if_full cap stamp m k =
     (if length m \<ge> cap \<and> \<not> hm_contains m k then evict_oldest stamp m else m)"

lemma evict_if_full_bounded:
  fixes stamp :: "'v \<Rightarrow> nat"
  assumes "0 < cap"
  shows "bounded_table (evict_if_full cap stamp) cap"
proof
  fix m :: "('k \<times> 'v) list" and k
  assume wf: "hm_wf m" and len: "length m \<le> cap" and new: "\<not> hm_contains m k"
  show "length (evict_if_full cap stamp m k) < cap"
  proof (cases "length m < cap")
    case True
    then show ?thesis by (simp add: evict_if_full_def)
  next
    case False
    with len assms have full: "length m = cap" "m \<noteq> []" by auto
    with length_evict_oldest [OF wf full(2)] assms new show ?thesis
      by (simp add: evict_if_full_def)
  qed
qed (auto simp: evict_if_full_def hm_wf_evict_oldest dest: hm_get_evict_oldest split: if_splits)

end
