(* ===== verification/Forward.thy ===== *)
theory Forward
  imports Scheduler Route Replay Eviction
begin

text \<open>
  The packet path of the forwarder (\<open>src/src/runtime/forward.rs\<close>): what it checks before a packet from
  the tunnel is queued for a peer, before a queued packet is framed, and before a frame from a peer
  reaches the tunnel. The record has the fields these operations read and write; the fields that only
  rebuild the authorization from membership and configuration are not part of it.
  \<^item> \<open>'l\<close> is the libp2p identity type, and \<open>sha256\<close> and \<open>libp2p_to_bytes\<close> the parameters of
    \<open>PeerId::from_libp2p\<close>.
  \<^item> \<open>ForwardError\<close> has the constructors these operations produce. The ones that clash with names of
    other components carry the prefix \<open>Forward\<close>.
  \<^item> \<open>Instant::now()\<close> is an argument.
\<close>

subsection \<open>Parsing addresses out of IP packets\<close>

datatype 'l forward_error =
    ForwardRoute route_error
  | ForwardFrame frame_error
  | ForwardEnqueue enqueue_error
  | NoRoute ip_addr
  | NoTransportPeer peer_id
  | ForwardPacketTooLarge usize usize
  | UnauthorizedLocalSource ip_addr
  | UnauthorizedLocalDestination ip_addr
  | TruncatedIpPacket usize usize
  | UnsupportedIpVersion u8
  | UnauthorizedPeer 'l
  | UnexpectedPayload payload_type
  | PayloadLengthMismatch u16 usize
  | ReplayedPacket peer_id session_id sequence
  | PacketOutsideReplayWindow peer_id session_id sequence

definition ip_version :: "bytes \<Rightarrow> (u8, 'l forward_error) result" where
  "ip_version packet = ok_or (version_nibble packet) (TruncatedIpPacket 0 1)"

definition ipv4_endpoint :: "bytes \<Rightarrow> nat \<Rightarrow> (ip_addr, 'l forward_error) result" where
  "ipv4_endpoint packet offset =
     (if length packet < offset + 4 then Err (TruncatedIpPacket (length packet) (offset + 4))
      else Ok (V4 (from_be_bytes (slice offset (offset + 4) packet))))"

definition ipv6_endpoint :: "bytes \<Rightarrow> nat \<Rightarrow> (ip_addr, 'l forward_error) result" where
  "ipv6_endpoint packet offset =
     (if length packet < offset + 16 then Err (TruncatedIpPacket (length packet) (offset + 16))
      else Ok (V6 (from_be_bytes (slice offset (offset + 16) packet))))"

definition packet_source :: "bytes \<Rightarrow> (ip_addr, 'l forward_error) result" where
  "packet_source packet =
     and_then (ip_version packet) (\<lambda>version.
       if version = 4 then ipv4_endpoint packet 12
       else if version = 6 then ipv6_endpoint packet 8
       else Err (UnsupportedIpVersion version))"

definition packet_destination :: "bytes \<Rightarrow> (ip_addr, 'l forward_error) result" where
  "packet_destination packet =
     and_then (ip_version packet) (\<lambda>version.
       if version = 4 then ipv4_endpoint packet 16
       else if version = 6 then ipv6_endpoint packet 24
       else Err (UnsupportedIpVersion version))"

subsection \<open>The forwarder\<close>

record 'l forwarder =
  fw_local_peer :: peer_id
  fw_routes :: route_table
  fw_peers :: "(peer_id, 'l) hash_map"
  fw_authorized_peers :: "'l set"
  fw_replay_windows :: "(peer_id \<times> session_id, replay_window) hash_map"
  fw_replay_session_ttl :: duration
  fw_max_replay_windows :: usize
  fw_session_id :: session_id
  fw_next_sequence :: sequence
  fw_mtu :: usize

definition authorized_peers_from_transport_peers :: "(peer_id, 'l) hash_map \<Rightarrow> 'l set" where
  "authorized_peers_from_transport_peers peers =
     foldl (\<lambda>authorized (_, peer). insert peer authorized) {} peers"

definition session_id_for_peer :: "peer_id \<Rightarrow> session_id" where
  "session_id_for_peer peer = max (from_be_bytes (take 4 (as_bytes peer))) 1"

definition authorize_local_source :: "'l forwarder \<Rightarrow> ip_addr \<Rightarrow> (unit, 'l forward_error) result" where
  "authorize_local_source f source =
     map_err (\<lambda>_. UnauthorizedLocalSource source)
       (authorize_source (fw_routes f) (fw_local_peer f) source)"

definition authorize_local_destination :: "'l forwarder \<Rightarrow> ip_addr \<Rightarrow> (unit, 'l forward_error) result" where
  "authorize_local_destination f destination =
     map_err (\<lambda>_. UnauthorizedLocalDestination destination)
       (authorize_source (fw_routes f) (fw_local_peer f) destination)"

text \<open>The frame epoch and sequence are the nonce of the packet plane.\<close>

definition take_outbound_sequence :: "'l forwarder \<Rightarrow> (session_id \<times> sequence) \<times> 'l forwarder" where
  "take_outbound_sequence f =
     ((fw_session_id f, fw_next_sequence f),
      if fw_next_sequence f = - 1
      then f\<lparr>fw_session_id := max (fw_session_id f + 1) 1, fw_next_sequence := 0\<rparr>
      else f\<lparr>fw_next_sequence := fw_next_sequence f + 1\<rparr>)"

definition tun_packet_owner :: "'l forwarder \<Rightarrow> bytes \<Rightarrow> (peer_id, 'l forward_error) result" where
  "tun_packet_owner f packet =
     (if length packet > fw_mtu f then Err (ForwardPacketTooLarge (length packet) (fw_mtu f))
      else
        and_then (packet_source packet) (\<lambda>source.
        and_then (authorize_local_source f source) (\<lambda>_.
        and_then (packet_destination packet) (\<lambda>destination.
        and_then (ok_or (resolve (fw_routes f) destination) (NoRoute destination)) (\<lambda>route.
          if \<not> hm_contains (fw_peers f) (route_owner route)
          then Err (NoTransportPeer (route_owner route))
          else Ok (route_owner route))))))"

definition prepare_tun_packet ::
    "'l forwarder \<Rightarrow> instant \<Rightarrow> bytes \<Rightarrow> (packet, 'l forward_error) result \<times> 'l forwarder" where
  "prepare_tun_packet f now packet =
     (case tun_packet_owner f packet of
        Inl e \<Rightarrow> (Err e, f)
      | Inr owner \<Rightarrow>
          (let ((session, s), f) = take_outbound_sequence f
           in (Ok (packet_new_for_session now owner session s packet), f)))"

definition enqueue_tun_packet ::
    "'l forwarder \<Rightarrow> peer_queues \<Rightarrow> instant \<Rightarrow> bytes \<Rightarrow>
     (unit, 'l forward_error) result \<times> 'l forwarder \<times> peer_queues" where
  "enqueue_tun_packet f queues now packet =
     (case prepare_tun_packet f now packet of
        (Inl e, f) \<Rightarrow> (Err e, f, queues)
      | (Inr p, f) \<Rightarrow>
          (let (r, queues) = peer_queues_enqueue queues p
           in (map_err ForwardEnqueue r, f, queues)))"

definition packet_frame :: "'l forwarder \<Rightarrow> packet \<Rightarrow> (frame, 'l forward_error) result" where
  "packet_frame f p =
     map_err ForwardFrame
       (frame_packet (case pkt_session_id p of Some s \<Rightarrow> s | None \<Rightarrow> fw_session_id f)
          (pkt_sequence p) (pkt_bytes p))"

definition queued_packet_frame_with_mtu ::
    "'l forwarder \<Rightarrow> packet \<Rightarrow> u16 \<Rightarrow> (frame, 'l forward_error) result" where
  "queued_packet_frame_with_mtu f p peer_mtu =
     (let mtu = min (fw_mtu f) (unat peer_mtu) in
      if \<not> hm_contains (fw_peers f) (pkt_peer p) then Err (NoTransportPeer (pkt_peer p))
      else if length (pkt_bytes p) > mtu
      then Err (ForwardPacketTooLarge (length (pkt_bytes p)) mtu)
      else
        and_then (packet_source (pkt_bytes p)) (\<lambda>source.
        and_then (authorize_local_source f source) (\<lambda>_.
        and_then (packet_destination (pkt_bytes p)) (\<lambda>destination.
        and_then (ok_or (resolve (fw_routes f) destination) (NoRoute destination)) (\<lambda>route.
          if route_owner route \<noteq> pkt_peer p then Err (NoRoute destination)
          else packet_frame f p)))))"

definition path_probe_frame_with_mtu ::
    "'l forwarder \<Rightarrow> u16 \<Rightarrow> bytes \<Rightarrow> (frame, 'l forward_error) result \<times> 'l forwarder" where
  "path_probe_frame_with_mtu f peer_mtu payload =
     (let mtu = min (fw_mtu f) (unat peer_mtu) in
      if length payload > mtu then (Err (ForwardPacketTooLarge (length payload) mtu), f)
      else
        let ((session, s), f) = take_outbound_sequence f
        in (map_err ForwardFrame (frame_path_probe session s payload), f))"

subsection \<open>Inbound frames\<close>

definition validate_inbound_frame_metadata ::
    "'l forwarder \<Rightarrow> 'l \<Rightarrow> frame \<Rightarrow> payload_type \<Rightarrow> (unit, 'l forward_error) result" where
  "validate_inbound_frame_metadata f peer frame expected =
     (if peer \<notin> fw_authorized_peers f then Err (UnauthorizedPeer peer)
      else if hdr_payload_type (frame_header frame) \<noteq> expected
      then Err (UnexpectedPayload (hdr_payload_type (frame_header frame)))
      else if unat (hdr_payload_len (frame_header frame)) \<noteq> length (frame_payload frame)
      then Err (PayloadLengthMismatch (hdr_payload_len (frame_header frame)) (length (frame_payload frame)))
      else if length (frame_payload frame) > fw_mtu f
      then Err (ForwardPacketTooLarge (length (frame_payload frame)) (fw_mtu f))
      else Ok ())"

definition expire_replay_windows_at :: "'l forwarder \<Rightarrow> instant \<Rightarrow> usize \<times> 'l forwarder" where
  "expire_replay_windows_at f now =
     (let windows = hm_retain (\<lambda>_ w. \<not> replay_is_expired w now (fw_replay_session_ttl f))
                      (fw_replay_windows f)
      in (length (fw_replay_windows f) - length windows, f\<lparr>fw_replay_windows := windows\<rparr>))"

definition prune_oldest_replay_window :: "'l forwarder \<Rightarrow> 'l forwarder" where
  "prune_oldest_replay_window f =
     f\<lparr>fw_replay_windows := evict_oldest rw_updated_at (fw_replay_windows f)\<rparr>"

definition accept_sequence_at ::
    "'l forwarder \<Rightarrow> peer_id \<Rightarrow> session_id \<Rightarrow> sequence \<Rightarrow> instant \<Rightarrow>
     (unit, 'l forward_error) result \<times> 'l forwarder" where
  "accept_sequence_at f peer session s now =
     (let (_, f) = expire_replay_windows_at f now;
          key = (peer, session);
          f = (if length (fw_replay_windows f) \<ge> max (fw_max_replay_windows f) 1 \<and>
                  \<not> hm_contains (fw_replay_windows f) key
               then prune_oldest_replay_window f else f);
          w = (case hm_get (fw_replay_windows f) key of Some w \<Rightarrow> w | None \<Rightarrow> replay_window_new now);
          (r, w) = replay_accept w s now
      in (map_err (\<lambda>e. case e of Duplicate \<Rightarrow> ReplayedPacket peer session s
                            | TooOld \<Rightarrow> PacketOutsideReplayWindow peer session s) r,
          f\<lparr>fw_replay_windows := hm_insert (fw_replay_windows f) key w\<rparr>))"

definition accept_inbound_stream_packet ::
    "(bytes \<Rightarrow> bytes) \<Rightarrow> ('l \<Rightarrow> bytes) \<Rightarrow> 'l forwarder \<Rightarrow> 'l \<Rightarrow> frame \<Rightarrow> (bytes, 'l forward_error) result" where
  "accept_inbound_stream_packet sha256 libp2p_to_bytes f peer frame =
     and_then (validate_inbound_frame_metadata f peer frame IpPacket) (\<lambda>_.
     and_then (packet_source (frame_payload frame)) (\<lambda>source.
     and_then (map_err ForwardRoute
         (authorize_source (fw_routes f) (from_libp2p sha256 libp2p_to_bytes peer) source)) (\<lambda>_.
     and_then (packet_destination (frame_payload frame)) (\<lambda>destination.
     and_then (authorize_local_destination f destination) (\<lambda>_.
       Ok (frame_payload frame))))))"

text \<open>
  \<open>accept_inbound_packet\<close> makes the checks of \<open>accept_inbound_stream_packet\<close> in the same order and
  then consults the replay window.
\<close>

definition accept_inbound_packet ::
    "(bytes \<Rightarrow> bytes) \<Rightarrow> ('l \<Rightarrow> bytes) \<Rightarrow> 'l forwarder \<Rightarrow> 'l \<Rightarrow> frame \<Rightarrow> instant \<Rightarrow>
     (bytes, 'l forward_error) result \<times> 'l forwarder" where
  "accept_inbound_packet sha256 libp2p_to_bytes f peer frame now =
     (let overlay = from_libp2p sha256 libp2p_to_bytes peer in
      case and_then (validate_inbound_frame_metadata f peer frame IpPacket) (\<lambda>_.
           and_then (packet_source (frame_payload frame)) (\<lambda>source.
           and_then (map_err ForwardRoute (authorize_source (fw_routes f) overlay source)) (\<lambda>_.
           and_then (packet_destination (frame_payload frame)) (\<lambda>destination.
             authorize_local_destination f destination)))) of
        Inl e \<Rightarrow> (Err e, f)
      | Inr _ \<Rightarrow>
          (let (r, f) = accept_sequence_at f overlay (hdr_session_id (frame_header frame))
                          (hdr_sequence (frame_header frame)) now
           in (and_then r (\<lambda>_. Ok (frame_payload frame)), f)))"

definition accept_inbound_control_frame ::
    "(bytes \<Rightarrow> bytes) \<Rightarrow> ('l \<Rightarrow> bytes) \<Rightarrow> 'l forwarder \<Rightarrow> 'l \<Rightarrow> frame \<Rightarrow> payload_type \<Rightarrow> instant \<Rightarrow>
     (unit, 'l forward_error) result \<times> 'l forwarder" where
  "accept_inbound_control_frame sha256 libp2p_to_bytes f peer frame expected now =
     (case validate_inbound_frame_metadata f peer frame expected of
        Inl e \<Rightarrow> (Err e, f)
      | Inr _ \<Rightarrow>
          accept_sequence_at f (from_libp2p sha256 libp2p_to_bytes peer)
            (hdr_session_id (frame_header frame)) (hdr_sequence (frame_header frame)) now)"

end
