(* ===== verification/Replay_Table.thy ===== *)
theory Replay_Table
  imports Replay Eviction
begin

text \<open>
  Tables of replay windows, one window per session. The forwarder and every session of the packet plane
  keep such a table, each with its own way to make room for a new window. The locale extends the
  contract of a bounded table: whatever the table forgets, it accepts a sequence exactly when the
  history it still represents allows it.
\<close>

type_synonym 'k replay_windows = "('k, replay_window) hash_map"
type_synonym 'k replay_history = "'k \<Rightarrow> nat set"

definition window_for :: "'k replay_windows \<Rightarrow> 'k \<Rightarrow> instant \<Rightarrow> replay_window" where
  "window_for ws key now = (case hm_get ws key of Some w \<Rightarrow> w | None \<Rightarrow> replay_window_new now)"

text \<open>Judging a sequence with the window of its session, which is created when it is missing.\<close>

definition judge_sequence ::
    "'k replay_windows \<Rightarrow> 'k \<Rightarrow> sequence \<Rightarrow> instant \<Rightarrow>
     (unit, replay_accept_error) result \<times> 'k replay_windows" where
  "judge_sequence ws key s now =
     (let out = replay_accept (window_for ws key now) s now
      in (fst out, hm_insert ws key (snd out)))"

text \<open>
  The history of a table: with each session the sequences accepted since its window was created. A
  window that expires or is evicted takes its history with it.
\<close>

definition table_represents :: "'k replay_windows \<Rightarrow> 'k replay_history \<Rightarrow> bool" where
  "table_represents ws A \<longleftrightarrow> hm_wf ws \<and>
     (\<forall>k. case hm_get ws k of None \<Rightarrow> A k = {} | Some w \<Rightarrow> represents w (A k))"

definition kept_history :: "'k replay_windows \<Rightarrow> 'k replay_history \<Rightarrow> 'k replay_history" where
  "kept_history ws A = (\<lambda>k. if hm_contains ws k then A k else {})"

definition noted ::
    "'k replay_history \<Rightarrow> 'k \<Rightarrow> sequence \<Rightarrow> (unit, replay_accept_error) result \<Rightarrow> 'k replay_history" where
  "noted A key s r = (if r = Ok () then A(key := insert (unat s) (A key)) else A)"

lemma table_represents_Nil: "table_represents [] (\<lambda>_. {})"
  by (simp add: table_represents_def)

lemma table_represents_get:
  assumes "table_represents ws A"
  shows "hm_get ws k = Some w \<Longrightarrow> represents w (A k)" and "hm_get ws k = None \<Longrightarrow> A k = {}"
proof -
  from assms have "case hm_get ws k of None \<Rightarrow> A k = {} | Some w \<Rightarrow> represents w (A k)"
    by (simp only: table_represents_def)
  then show "hm_get ws k = Some w \<Longrightarrow> represents w (A k)" and "hm_get ws k = None \<Longrightarrow> A k = {}" by simp_all
qed

lemma table_represents_wf: "table_represents ws A \<Longrightarrow> hm_wf ws"
  by (simp add: table_represents_def)

lemma table_represents_subset:
  assumes "table_represents ws A" and "hm_wf ws'"
    and "\<And>k w. hm_get ws' k = Some w \<Longrightarrow> hm_get ws k = Some w"
  shows "table_represents ws' (kept_history ws' A)"
proof -
  have "case hm_get ws' k of None \<Rightarrow> kept_history ws' A k = {} | Some w \<Rightarrow> represents w (kept_history ws' A k)" for k
    using table_represents_get(1) [OF assms(1) assms(3), of k]
    by (auto simp: kept_history_def hm_contains_def split: option.split)
  with assms(2) show ?thesis by (simp add: table_represents_def)
qed

lemma window_for_represents:
  assumes "table_represents ws A"
  shows "represents (window_for ws key now) (A key)"
  using table_represents_get [OF assms, of key]
  by (cases "hm_get ws key") (simp_all add: window_for_def)

lemma judge_sequence_result:
  assumes "table_represents ws A"
  shows "fst (judge_sequence ws key s now) = Ok () \<longleftrightarrow> unat s \<notin> A key \<and> \<not> too_old (A key) s"
    and "fst (judge_sequence ws key s now) = Err Duplicate \<longleftrightarrow> unat s \<in> A key \<and> \<not> too_old (A key) s"
    and "fst (judge_sequence ws key s now) = Err TooOld \<longleftrightarrow> too_old (A key) s"
  using replay_accept_refines [OF window_for_represents [OF assms, of key now], of s now]
  by (auto simp: judge_sequence_def Let_def split: prod.splits sum.splits replay_accept_error.splits)

lemma judge_sequence_represents:
  assumes "table_represents ws A"
  shows "table_represents (snd (judge_sequence ws key s now))
    (noted A key s (fst (judge_sequence ws key s now)))"
proof -
  let ?out = "replay_accept (window_for ws key now) s now"
  have new: "represents (snd ?out) (noted A key s (fst ?out) key)"
    using replay_accept_refines [OF window_for_represents [OF assms, of key now], of s now]
      window_for_represents [OF assms, of key now]
    by (cases ?out) (auto simp: noted_def split: sum.splits replay_accept_error.splits)
  have "case hm_get (hm_insert ws key (snd ?out)) k of
      None \<Rightarrow> noted A key s (fst ?out) k = {} | Some w \<Rightarrow> represents w (noted A key s (fst ?out) k)" for k
    using new table_represents_get [OF assms, of k]
    by (cases "k = key") (auto simp: noted_def split: option.split)
  with table_represents_wf [OF assms] show ?thesis
    by (simp add: table_represents_def judge_sequence_def Let_def)
qed

locale replay_registry = bounded_table make_room capacity
  for make_room :: "'k replay_windows \<Rightarrow> 'k \<Rightarrow> 'k replay_windows" and capacity :: nat
begin

lemma room_represents:
  assumes "table_represents ws A"
  shows "table_represents (make_room ws key) (kept_history (make_room ws key) A)"
  by (rule table_represents_subset [OF assms room_wf [OF table_represents_wf [OF assms]]
        room_subset [OF table_represents_wf [OF assms]]])

text \<open>A session that has a window keeps it, with its history, when its own sequence arrives.\<close>

lemma own_history_kept:
  assumes "table_represents ws A"
  shows "kept_history (make_room ws key) A key = A key"
proof (cases "hm_get ws key")
  case None
  then have "A key = {}" by (rule table_represents_get(2) [OF assms])
  then show ?thesis by (simp add: kept_history_def)
next
  case (Some w)
  then have "hm_contains ws key" by (simp add: hm_contains_def)
  then show ?thesis
    using room_keeps [OF table_represents_wf [OF assms]] by (simp add: kept_history_def)
qed

lemma judged_bounded:
  assumes "hm_wf ws" and "length ws \<le> capacity"
  shows "length (snd (judge_sequence (make_room ws key) key s now)) \<le> capacity"
  using insert_bounded [OF assms] by (simp add: judge_sequence_def Let_def)

end

lemma evict_if_full_registry:
  "0 < cap \<Longrightarrow> replay_registry (evict_if_full cap stamp) cap"
  by (simp add: replay_registry_def evict_if_full_bounded)

end
