(* ===== verification/Forward_Inbound.thy ===== *)
theory Forward_Inbound
  imports Forward Replay_Table
begin

text \<open>
  What the forwarder lets in: the bound and the anti-replay guarantee of the table of replay windows,
  and the conditions under which a frame from a peer reaches the tunnel.
\<close>

subsection \<open>The table of replay windows\<close>

interpretation replay_table: replay_registry "evict_if_full (max n 1) rw_updated_at" "max n 1" for n
  by (rule evict_if_full_registry) simp

text \<open>The windows that have not expired, and those left when a session's sequence is about to be judged.\<close>

definition fresh_windows :: "'l forwarder \<Rightarrow> instant \<Rightarrow> (peer_id \<times> session_id) replay_windows" where
  "fresh_windows f now =
     hm_retain (\<lambda>_ w. \<not> replay_is_expired w now (fw_replay_session_ttl f)) (fw_replay_windows f)"

definition live_windows ::
    "'l forwarder \<Rightarrow> peer_id \<times> session_id \<Rightarrow> instant \<Rightarrow> (peer_id \<times> session_id) replay_windows" where
  "live_windows f key now =
     evict_if_full (max (fw_max_replay_windows f) 1) rw_updated_at (fresh_windows f now) key"

definition replay_error :: "peer_id \<Rightarrow> session_id \<Rightarrow> sequence \<Rightarrow> replay_accept_error \<Rightarrow> 'l forward_error" where
  "replay_error peer session s e =
     (case e of Duplicate \<Rightarrow> ReplayedPacket peer session s
              | TooOld \<Rightarrow> PacketOutsideReplayWindow peer session s)"

lemma accept_sequence_at_eq:
  "accept_sequence_at f peer session s now =
     (let out = judge_sequence (live_windows f (peer, session) now) (peer, session) s now
      in (map_err (replay_error peer session s) (fst out), f\<lparr>fw_replay_windows := snd out\<rparr>))"
  by (simp add: accept_sequence_at_def expire_replay_windows_at_def prune_oldest_replay_window_def
      live_windows_def fresh_windows_def evict_if_full_def window_for_def judge_sequence_def
      replay_error_def [abs_def] Let_def case_prod_unfold)

lemma map_err_unit_Ok_iff: "map_err g r = Ok () \<longleftrightarrow> r = Ok ()"
  by (cases r) simp_all

definition note_accept ::
    "'l forwarder \<Rightarrow> peer_id \<Rightarrow> session_id \<Rightarrow> sequence \<Rightarrow> instant \<Rightarrow>
     (peer_id \<times> session_id) replay_history \<Rightarrow> (peer_id \<times> session_id) replay_history" where
  "note_accept f peer session s now A =
     noted (kept_history (live_windows f (peer, session) now) A) (peer, session) s
       (map_err (\<lambda>_. Duplicate) (fst (accept_sequence_at f peer session s now)))"

inductive replay_run :: "'l forwarder \<Rightarrow> (peer_id \<times> session_id) replay_history \<Rightarrow> bool" where
  replay_start: "fw_replay_windows f = [] \<Longrightarrow> replay_run f (\<lambda>_. {})"
| replay_sequence: "replay_run f A \<Longrightarrow>
    replay_run (snd (accept_sequence_at f peer session s now)) (note_accept f peer session s now A)"
| replay_expire: "replay_run f A \<Longrightarrow>
    replay_run (snd (expire_replay_windows_at f now))
      (kept_history (fw_replay_windows (snd (expire_replay_windows_at f now))) A)"
| replay_other: "replay_run f A \<Longrightarrow> fw_replay_windows g = fw_replay_windows f \<Longrightarrow>
    fw_max_replay_windows g = fw_max_replay_windows f \<Longrightarrow> replay_run g A"

definition replay_inv :: "'l forwarder \<Rightarrow> (peer_id \<times> session_id) replay_history \<Rightarrow> bool" where
  "replay_inv f A \<longleftrightarrow>
     table_represents (fw_replay_windows f) A \<and>
     length (fw_replay_windows f) \<le> max (fw_max_replay_windows f) 1"

lemma hm_retain_subset: "hm_wf m \<Longrightarrow> hm_get (hm_retain p m) k = Some v \<Longrightarrow> hm_get m k = Some v"
  by (simp add: hm_get_retain split: option.splits if_splits)

lemma fresh_windows_inv:
  assumes "replay_inv f A"
  shows "table_represents (fresh_windows f now) (kept_history (fresh_windows f now) A)"
    and "length (fresh_windows f now) \<le> max (fw_max_replay_windows f) 1"
proof -
  have tab: "table_represents (fw_replay_windows f) A" using assms by (simp add: replay_inv_def)
  have wf: "hm_wf (fw_replay_windows f)" by (rule table_represents_wf [OF tab])
  show "table_represents (fresh_windows f now) (kept_history (fresh_windows f now) A)"
    by (rule table_represents_subset [OF tab])
      (simp_all add: fresh_windows_def wf hm_retain_subset [OF wf])
  show "length (fresh_windows f now) \<le> max (fw_max_replay_windows f) 1"
    using assms length_hm_retain unfolding replay_inv_def fresh_windows_def by (metis order_trans)
qed

lemma live_windows_inv:
  assumes "replay_inv f A"
  shows "table_represents (live_windows f key now) (kept_history (live_windows f key now) A)"
    and "length (snd (judge_sequence (live_windows f key now) key s now)) \<le> max (fw_max_replay_windows f) 1"
proof -
  note fresh = fresh_windows_inv [OF assms, of now]
  have tab: "table_represents (fw_replay_windows f) A" using assms by (simp add: replay_inv_def)
  have wf: "hm_wf (fw_replay_windows f)" and wf': "hm_wf (fresh_windows f now)"
    by (rule table_represents_wf [OF tab], rule table_represents_wf [OF fresh(1)])
  have "hm_get (fw_replay_windows f) k = Some w" if "hm_get (live_windows f key now) k = Some w" for k w
    using replay_table.room_subset [OF wf' that [unfolded live_windows_def]]
    by (simp add: fresh_windows_def hm_retain_subset [OF wf])
  then show "table_represents (live_windows f key now) (kept_history (live_windows f key now) A)"
    using replay_table.room_wf [OF wf'] by (intro table_represents_subset [OF tab]) (simp_all add: live_windows_def)
  show "length (snd (judge_sequence (live_windows f key now) key s now)) \<le> max (fw_max_replay_windows f) 1"
    unfolding live_windows_def by (rule replay_table.judged_bounded [OF wf' fresh(2)])
qed

lemma accept_sequence_inv:
  assumes "replay_inv f A"
  shows "replay_inv (snd (accept_sequence_at f peer session s now)) (note_accept f peer session s now A)"
proof -
  let ?out = "judge_sequence (live_windows f (peer, session) now) (peer, session) s now"
  have "noted H k s (map_err g (map_err e r)) = noted H k s r"
    for H :: "(peer_id \<times> session_id) replay_history" and g e k s r
    by (simp add: noted_def map_err_unit_Ok_iff)
  then have "note_accept f peer session s now A =
      noted (kept_history (live_windows f (peer, session) now) A) (peer, session) s (fst ?out)"
    unfolding note_accept_def accept_sequence_at_eq Let_def by simp
  with judge_sequence_represents [OF live_windows_inv(1) [OF assms, of "(peer, session)" now],
      of "(peer, session)" s now] live_windows_inv(2) [OF assms, of "(peer, session)" now s]
  show ?thesis by (simp add: replay_inv_def accept_sequence_at_eq Let_def)
qed

lemma replay_run_inv: "replay_run f A \<Longrightarrow> replay_inv f A"
proof (induction rule: replay_run.induct)
  case (replay_start f)
  then show ?case by (simp add: replay_inv_def table_represents_Nil)
next
  case (replay_expire f A now)
  then show ?case
    using fresh_windows_inv [OF replay_expire.IH, of now]
    by (simp add: replay_inv_def expire_replay_windows_at_def fresh_windows_def Let_def)
next
  case (replay_other f A g)
  then show ?case by (simp add: replay_inv_def)
qed (simp add: accept_sequence_inv)

text \<open>What a session's history is when its sequence arrives: all of it, unless its window has expired.\<close>

lemma history_at_arrival:
  assumes "replay_inv f A"
  shows "kept_history (live_windows f key now) A key =
    (case hm_get (fw_replay_windows f) key of
       None \<Rightarrow> {}
     | Some w \<Rightarrow> if replay_is_expired w now (fw_replay_session_ttl f) then {} else A key)"
proof -
  have tab: "table_represents (fw_replay_windows f) A" using assms by (simp add: replay_inv_def)
  note wf = table_represents_wf [OF tab]
  have "kept_history (live_windows f key now) A key = kept_history (fresh_windows f now) A key"
  proof (cases "hm_contains (fresh_windows f now) key")
    case True
    then show ?thesis
      using replay_table.room_keeps [OF table_represents_wf [OF fresh_windows_inv(1) [OF assms]]]
      by (simp add: live_windows_def)
  next
    case False
    moreover have "\<not> hm_contains (live_windows f key now) key"
    proof
      assume "hm_contains (live_windows f key now) key"
      then obtain w where "hm_get (live_windows f key now) key = Some w" by (auto simp: hm_contains_def)
      from replay_table.room_subset [OF table_represents_wf [OF fresh_windows_inv(1) [OF assms]]
          this [unfolded live_windows_def]] False
      show False by (simp add: hm_contains_def)
    qed
    ultimately show ?thesis by (simp add: kept_history_def)
  qed
  then show ?thesis
    by (auto simp: kept_history_def hm_contains_def fresh_windows_def hm_get_retain [OF wf] split: option.split)
qed

text \<open>
  C8: whatever frames of whatever sessions arrive, a sequence number is accepted exactly when it was
  not accepted since the session's window was created and is less than 64 behind. A window that has
  not expired is never the one given up to make room for its own session, so within the time to live
  an accepted number is rejected as a replay. The number of windows never exceeds the limit.
\<close>

theorem replayed_sequences_rejected:
  fixes f :: "'l forwarder" and peer :: peer_id and session :: session_id and s :: sequence
    and now :: instant
  assumes "replay_run f A"
  defines "S \<equiv> (case hm_get (fw_replay_windows f) (peer, session) of
       None \<Rightarrow> {}
     | Some w \<Rightarrow> if replay_is_expired w now (fw_replay_session_ttl f) then {} else A (peer, session))"
    and "r \<equiv> fst (accept_sequence_at f peer session s now)"
  shows "(r = Ok () \<longleftrightarrow> unat s \<notin> S \<and> \<not> too_old S s) \<and>
    (r = Err (ReplayedPacket peer session s) \<longleftrightarrow> unat s \<in> S \<and> \<not> too_old S s) \<and>
    (r = Err (PacketOutsideReplayWindow peer session s) \<longleftrightarrow> too_old S s) \<and>
    length (fw_replay_windows (snd (accept_sequence_at f peer session s now))) \<le>
      max (fw_max_replay_windows f) 1"
proof -
  have inv: "replay_inv f A" by (rule replay_run_inv [OF assms(1)])
  let ?out = "judge_sequence (live_windows f (peer, session) now) (peer, session) s now"
  have r: "r = map_err (replay_error peer session s) (fst ?out)"
    by (simp add: r_def accept_sequence_at_eq Let_def)
  have S: "S = kept_history (live_windows f (peer, session) now) A (peer, session)"
    unfolding S_def by (rule history_at_arrival [OF inv, symmetric])
  have "map_err (replay_error peer session s) q = (Err (ReplayedPacket peer session s) :: (unit, 'l forward_error) result) \<longleftrightarrow>
      q = Err Duplicate"
    "map_err (replay_error peer session s) q = (Err (PacketOutsideReplayWindow peer session s) :: (unit, 'l forward_error) result) \<longleftrightarrow>
      q = Err TooOld"
    for q :: "(unit, replay_accept_error) result"
    by (cases q; auto simp: replay_error_def split: replay_accept_error.splits)+
  with judge_sequence_result [OF live_windows_inv(1) [OF inv, of "(peer, session)" now], of "(peer, session)" s now]
    live_windows_inv(2) [OF inv, of "(peer, session)" now s]
  show ?thesis unfolding r S by (simp add: accept_sequence_at_eq Let_def map_err_unit_Ok_iff)
qed

text \<open>A forwarder to apply the properties to: peer 1 owns 10.0.0.0/8 and the local peer 11.0.0.0/8.\<close>

definition sample_forwarder :: "bytes forwarder" where
  "sample_forwarder =
     \<lparr>fw_local_peer = PeerId [9],
      fw_routes = snd (insert_authorized (snd (insert_authorized route_table_new
        \<lparr>route_owner = PeerId [1], route_prefix = \<lparr>cidr_address = V4 0x0a000000, cidr_prefix_len = 8\<rparr>,
         route_metric = 0\<rparr>))
        \<lparr>route_owner = PeerId [9], route_prefix = \<lparr>cidr_address = V4 0x0b000000, cidr_prefix_len = 8\<rparr>,
         route_metric = 0\<rparr>),
      fw_peers = [(PeerId [1], [1])], fw_authorized_peers = {[1]}, fw_replay_windows = [],
      fw_replay_session_ttl = 150, fw_max_replay_windows = 4, fw_session_id = 5,
      fw_next_sequence = 0, fw_mtu = 64\<rparr>"

lemma sample_forwarder_routes: "authorized_table (fw_routes sample_forwarder)"
  unfolding sample_forwarder_def forwarder.simps
  by (intro authorized_insert authorized_new) (simp_all add: cidr_wf_def)

theorem replayed_sequences_rejected_witness:
  "let f = sample_forwarder; g = snd (accept_sequence_at f (PeerId [1]) 7 3 100)
   in replay_run g (note_accept f (PeerId [1]) 7 3 100 (\<lambda>_. {})) \<and>
      fst (accept_sequence_at g (PeerId [1]) 7 3 200) = Err (ReplayedPacket (PeerId [1]) 7 3)"
proof -
  let ?f = sample_forwarder let ?g = "snd (accept_sequence_at ?f (PeerId [1]) 7 3 100)"
  let ?A = "note_accept ?f (PeerId [1]) 7 3 100 (\<lambda>_. {})"
  have run: "replay_run ?g ?A"
    by (intro replay_sequence replay_start) (simp add: sample_forwarder_def)
  have ok: "fst (accept_sequence_at ?f (PeerId [1]) 7 3 100) = Ok ()"
    by (simp add: accept_sequence_at_eq Let_def window_for_def live_windows_def evict_if_full_def fresh_windows_def judge_sequence_def
        sample_forwarder_def hm_retain_def replay_accept_def replay_window_new_def)
  have w: "hm_get (fw_replay_windows ?g) (PeerId [1], 7) =
      Some \<lparr>rw_highest = Some 3, rw_seen = 1, rw_updated_at = 100\<rparr>"
    by (simp add: accept_sequence_at_eq Let_def window_for_def live_windows_def evict_if_full_def fresh_windows_def judge_sequence_def
        sample_forwarder_def hm_retain_def replay_accept_def replay_window_new_def)
  have ttl: "fw_replay_session_ttl ?g = 150"
    by (simp add: accept_sequence_at_eq Let_def sample_forwarder_def)
  have A: "?A (PeerId [1], 7) = {3}"
    using ok by (simp add: note_accept_def noted_def kept_history_def map_err_unit_Ok_iff)
  from replayed_sequences_rejected [OF run, where peer = "PeerId [1]" and session = 7 and now = 200 and s = 3] w A
  have "fst (accept_sequence_at ?g (PeerId [1]) 7 3 200) = Err (ReplayedPacket (PeerId [1]) 7 3)"
    by (simp add: replay_is_expired_def ttl too_old_def)
  with run show ?thesis by (simp add: Let_def)
qed

subsection \<open>What reaches the tunnel\<close>

lemma authorize_local_Ok_iff:
  "authorize_local_source f a = Ok () \<longleftrightarrow> authorize_source (fw_routes f) (fw_local_peer f) a = Ok ()"
  "authorize_local_destination f a = Ok () \<longleftrightarrow> authorize_source (fw_routes f) (fw_local_peer f) a = Ok ()"
  by (simp_all add: authorize_local_source_def authorize_local_destination_def)

lemma validate_metadata_Ok_iff:
  "validate_inbound_frame_metadata f peer frame expected = Ok () \<longleftrightarrow>
     peer \<in> fw_authorized_peers f \<and> hdr_payload_type (frame_header frame) = expected \<and>
     unat (hdr_payload_len (frame_header frame)) = length (frame_payload frame) \<and>
     length (frame_payload frame) \<le> fw_mtu f"
  by (simp add: validate_inbound_frame_metadata_def)

lemma accept_stream_Ok_iff:
  "accept_inbound_stream_packet sha256 to_bytes f peer frame = Ok payload \<longleftrightarrow>
     payload = frame_payload frame \<and>
     validate_inbound_frame_metadata f peer frame IpPacket = Ok () \<and>
     (\<exists>source destination.
        (packet_source payload :: (ip_addr, 'l forward_error) result) = Ok source \<and>
        (packet_destination payload :: (ip_addr, 'l forward_error) result) = Ok destination \<and>
        authorize_source (fw_routes f) (from_libp2p sha256 to_bytes peer) source = Ok () \<and>
        authorize_source (fw_routes f) (fw_local_peer f) destination = Ok ())"
  for f :: "'l forwarder"
  unfolding accept_inbound_stream_packet_def and_then_Inr_iff map_err_Inr_iff
  by (auto simp: authorize_local_Ok_iff)

lemma accept_stream_routed_iff:
  fixes f :: "'l forwarder"
  assumes "authorized_table (fw_routes f)"
  shows "accept_inbound_stream_packet sha256 to_bytes f peer frame = Ok payload \<longleftrightarrow>
    payload = frame_payload frame \<and> peer \<in> fw_authorized_peers f \<and>
    hdr_payload_type (frame_header frame) = IpPacket \<and>
    unat (hdr_payload_len (frame_header frame)) = length payload \<and> length payload \<le> fw_mtu f \<and>
    (\<exists>source destination r r'.
       (packet_source payload :: (ip_addr, 'l forward_error) result) = Ok source \<and>
       (packet_destination payload :: (ip_addr, 'l forward_error) result) = Ok destination \<and>
       resolve (fw_routes f) source = Some r \<and> route_owner r = from_libp2p sha256 to_bytes peer \<and>
       resolve (fw_routes f) destination = Some r' \<and> route_owner r' = fw_local_peer f)"
proof -
  have "table_inv (fw_routes f)" by (rule authorized_table_inv [OF assms])
  note own = table_ownership.may_use_iff [OF this]
  show ?thesis
    unfolding accept_stream_Ok_iff validate_metadata_Ok_iff own by auto
qed

text \<open>
  C7: no spoofing. With a route table the program builds, a frame from a stream is delivered to the
  tunnel exactly when the sender is an authorized peer, the frame is a packet frame of consistent
  length within the MTU, packets to its source address are routed to that sender, and packets to its
  destination address are routed to the local peer.
\<close>

theorem inbound_packets_not_spoofed:
  fixes f :: "'l forwarder"
  assumes "authorized_table (fw_routes f)"
  shows "accept_inbound_stream_packet sha256 to_bytes f peer frame = Ok payload \<longleftrightarrow>
    payload = frame_payload frame \<and> peer \<in> fw_authorized_peers f \<and>
    hdr_payload_type (frame_header frame) = IpPacket \<and>
    unat (hdr_payload_len (frame_header frame)) = length payload \<and> length payload \<le> fw_mtu f \<and>
    (\<exists>source destination r r'.
       (packet_source payload :: (ip_addr, 'l forward_error) result) = Ok source \<and>
       (packet_destination payload :: (ip_addr, 'l forward_error) result) = Ok destination \<and>
       resolve (fw_routes f) source = Some r \<and> route_owner r = from_libp2p sha256 to_bytes peer \<and>
       resolve (fw_routes f) destination = Some r' \<and> route_owner r' = fw_local_peer f)"
  by (rule accept_stream_routed_iff [OF assms])

lemma accept_inbound_packet_eq:
  "accept_inbound_packet sha256 to_bytes f peer frame now =
     (case accept_inbound_stream_packet sha256 to_bytes f peer frame of
        Inl e \<Rightarrow> (Err e, f)
      | Inr payload \<Rightarrow>
          (let out = accept_sequence_at f (from_libp2p sha256 to_bytes peer)
                       (hdr_session_id (frame_header frame)) (hdr_sequence (frame_header frame)) now
           in (and_then (fst out) (\<lambda>_. Ok payload), snd out)))"
  by (auto simp: accept_inbound_packet_def accept_inbound_stream_packet_def and_then_def Let_def
      case_prod_unfold split: sum.splits)

text \<open>
  A datagram packet is delivered exactly when it passes the checks of a stream packet and its
  sequence number is accepted. A frame that fails a check leaves the forwarder as it was, so nobody
  can move another session's replay window, and nothing but the replay windows ever changes.
\<close>

lemma inbound_datagram_packets:
  fixes f :: "'l forwarder" and sha256 :: "bytes \<Rightarrow> bytes" and to_bytes :: "'l \<Rightarrow> bytes" and peer :: 'l
    and frame :: frame and now :: instant
  defines "checked \<equiv> accept_inbound_stream_packet sha256 to_bytes f peer frame"
    and "sequenced \<equiv> accept_sequence_at f (from_libp2p sha256 to_bytes peer)
           (hdr_session_id (frame_header frame)) (hdr_sequence (frame_header frame)) now"
    and "out \<equiv> accept_inbound_packet sha256 to_bytes f peer frame now"
  shows "(fst out = Ok payload \<longleftrightarrow> checked = Ok payload \<and> fst sequenced = Ok ()) \<and>
    (case checked of Inl e \<Rightarrow> out = (Err e, f) | Inr _ \<Rightarrow> snd out = snd sequenced) \<and>
    snd out = f\<lparr>fw_replay_windows := fw_replay_windows (snd out)\<rparr>"
proof -
  have "snd sequenced = f\<lparr>fw_replay_windows := fw_replay_windows (snd sequenced)\<rparr>"
    by (simp add: sequenced_def accept_sequence_at_eq Let_def)
  then show ?thesis
    unfolding out_def accept_inbound_packet_eq checked_def [symmetric] sequenced_def [symmetric]
    by (auto simp: and_then_def Let_def split: sum.splits)
qed

definition sample_ip_packet :: bytes where
  "sample_ip_packet = [0x45, 0, 0, 20, 0, 0, 0, 0, 64, 17, 0, 0, 10, 0, 0, 1, 11, 0, 0, 2]"

definition sample_frame :: frame where
  "sample_frame = \<lparr>frame_header = header_new IpPacket 7 3 20, frame_payload = sample_ip_packet\<rparr>"

theorem inbound_packets_not_spoofed_witness:
  "authorized_table (fw_routes sample_forwarder) \<and>
   accept_inbound_stream_packet id id sample_forwarder [1] sample_frame = Ok sample_ip_packet \<and>
   (\<exists>r. resolve (fw_routes sample_forwarder) (V4 0x0b000002) = Some r \<and> route_owner r = PeerId [9])"
proof -
  have "accept_inbound_stream_packet id id sample_forwarder [1] sample_frame = Ok sample_ip_packet"
    and "(packet_destination sample_ip_packet :: (ip_addr, bytes forward_error) result) = Ok (V4 0x0b000002)"
    and "fw_local_peer sample_forwarder = PeerId [9]"
    by code_simp+
  with inbound_packets_not_spoofed
      [OF sample_forwarder_routes, of id id "[1]" sample_frame sample_ip_packet]
    sample_forwarder_routes
  show ?thesis by auto
qed

end
