(* ===== verification/Datagram.thy ===== *)
theory Datagram
  imports Wire
begin

text \<open>
  The encrypted datagrams of the packet plane (\<open>PacketPlaneCipher\<close> and its helpers in
  \<open>src/src/runtime/packet_plane.rs\<close>): a clear 24-byte header, and the encoded frame sealed with
  ChaCha20-Poly1305 under a nonce made of the session and the sequence, with the header as associated
  data. The cipher is a parameter: \<open>encrypt key nonce aad message\<close> and
  \<open>decrypt key nonce aad ciphertext\<close>.
\<close>

type_synonym aead = "bytes \<Rightarrow> bytes \<Rightarrow> bytes \<Rightarrow> bytes \<Rightarrow> bytes option"

definition DATAGRAM_MAGIC :: bytes where
  "DATAGRAM_MAGIC = [0x70, 0x32, 0x70, 0x76, 0x70, 0x6e, 0x44, 0x31]"

definition PACKET_PLANE_DATAGRAM_HEADER_LEN :: usize where
  "PACKET_PLANE_DATAGRAM_HEADER_LEN = 24"

definition PACKET_PLANE_AEAD_TAG_LEN :: usize where
  "PACKET_PLANE_AEAD_TAG_LEN = 16"

definition PACKET_PLANE_MAX_UDP_DATAGRAM_LEN :: usize where
  "PACKET_PLANE_MAX_UDP_DATAGRAM_LEN = 65535"

definition PACKET_PLANE_DATAGRAM_OVERHEAD_LEN :: usize where
  "PACKET_PLANE_DATAGRAM_OVERHEAD_LEN =
     PACKET_PLANE_DATAGRAM_HEADER_LEN + PACKET_PLANE_AEAD_TAG_LEN + HEADER_LEN"

definition PACKET_PLANE_MAX_PAYLOAD_LEN :: usize where
  "PACKET_PLANE_MAX_PAYLOAD_LEN =
     PACKET_PLANE_MAX_UDP_DATAGRAM_LEN - PACKET_PLANE_DATAGRAM_OVERHEAD_LEN"

lemmas datagram_lengths =
  PACKET_PLANE_DATAGRAM_HEADER_LEN_def PACKET_PLANE_AEAD_TAG_LEN_def
  PACKET_PLANE_MAX_UDP_DATAGRAM_LEN_def PACKET_PLANE_DATAGRAM_OVERHEAD_LEN_def
  PACKET_PLANE_MAX_PAYLOAD_LEN_def HEADER_LEN_def

datatype datagram_error =
    Encrypt
  | Decrypt
  | DatagramInvalidMagic
  | DatagramTruncated usize usize
  | DatagramUnsupportedVersion u8
  | CiphertextTooLarge usize usize
  | DatagramPayloadTooLarge usize usize
  | FrameDecode decode_error
  | DatagramFrameLengthMismatch u16 usize
  | HeaderMismatch session_id sequence session_id sequence
  | ReplayedDatagram session_id sequence
  | DatagramOutsideReplayWindow session_id sequence
  | DatagramTrailingBytes usize

record datagram_header =
  dh_session_id :: session_id
  dh_sequence :: sequence
  dh_ciphertext_len :: u16

definition encode_datagram_header :: "session_id \<Rightarrow> sequence \<Rightarrow> u16 \<Rightarrow> bytes" where
  "encode_datagram_header session_id sequence ciphertext_len =
     DATAGRAM_MAGIC @ [WIRE_VERSION] @ [0] @ to_be_bytes 4 session_id @ to_be_bytes 8 sequence
       @ to_be_bytes 2 ciphertext_len"

definition decode_datagram_header ::
    "bytes \<Rightarrow> (datagram_header \<times> bytes, datagram_error) result" where
  "decode_datagram_header datagram =
     (if length datagram < PACKET_PLANE_DATAGRAM_HEADER_LEN
      then Err (DatagramTruncated (length datagram) PACKET_PLANE_DATAGRAM_HEADER_LEN)
      else if take (length DATAGRAM_MAGIC) datagram \<noteq> DATAGRAM_MAGIC then Err DatagramInvalidMagic
      else
        let version = datagram ! 8 in
        if version \<noteq> WIRE_VERSION then Err (DatagramUnsupportedVersion version)
        else
          let session_id = from_be_bytes (slice 10 14 datagram);
              sequence = from_be_bytes (slice 14 22 datagram);
              ciphertext_len = from_be_bytes (slice 22 24 datagram);
              actual = length datagram - PACKET_PLANE_DATAGRAM_HEADER_LEN in
          if actual < unat ciphertext_len then Err (DatagramTruncated actual (unat ciphertext_len))
          else if actual > unat ciphertext_len
          then Err (DatagramTrailingBytes (actual - unat ciphertext_len))
          else Ok (\<lparr>dh_session_id = session_id, dh_sequence = sequence,
                    dh_ciphertext_len = ciphertext_len\<rparr>,
                   drop PACKET_PLANE_DATAGRAM_HEADER_LEN datagram))"

definition datagram_nonce :: "session_id \<Rightarrow> sequence \<Rightarrow> bytes" where
  "datagram_nonce session_id sequence = to_be_bytes 4 session_id @ to_be_bytes 8 sequence"

definition decode_plain_frame :: "bytes \<Rightarrow> usize \<Rightarrow> (frame, datagram_error) result" where
  "decode_plain_frame plaintext max_payload_len =
     (if length plaintext < HEADER_LEN then Err (DatagramTruncated (length plaintext) HEADER_LEN)
      else
        and_then (map_err FrameDecode (header_decode (take HEADER_LEN plaintext))) (\<lambda>header.
          let payload_len = unat (hdr_payload_len header);
              limit = min max_payload_len MAX_PAYLOAD_LEN in
          if payload_len > limit then Err (DatagramPayloadTooLarge payload_len limit)
          else
            let expected_len = HEADER_LEN + payload_len in
            if length plaintext < expected_len
            then Err (DatagramFrameLengthMismatch (hdr_payload_len header)
                        (length plaintext - HEADER_LEN))
            else if length plaintext > expected_len
            then Err (DatagramTrailingBytes (length plaintext - expected_len))
            else Ok \<lparr>frame_header = header, frame_payload = drop HEADER_LEN plaintext\<rparr>))"

definition seal_frame :: "aead \<Rightarrow> bytes \<Rightarrow> frame \<Rightarrow> (bytes, datagram_error) result" where
  "seal_frame encrypt key frame =
     (let payload_len = length (frame_payload frame);
          header = frame_header frame in
      if payload_len \<noteq> unat (hdr_payload_len header)
      then Err (DatagramFrameLengthMismatch (hdr_payload_len header) payload_len)
      else if payload_len > PACKET_PLANE_MAX_PAYLOAD_LEN
      then Err (DatagramPayloadTooLarge payload_len PACKET_PLANE_MAX_PAYLOAD_LEN)
      else
        let plaintext = frame_encode frame;
            ciphertext_len = length plaintext + PACKET_PLANE_AEAD_TAG_LEN in
        if ciphertext_len > 65535 then Err (CiphertextTooLarge ciphertext_len 65535)
        else if PACKET_PLANE_DATAGRAM_HEADER_LEN + ciphertext_len > PACKET_PLANE_MAX_UDP_DATAGRAM_LEN
        then Err (DatagramPayloadTooLarge payload_len PACKET_PLANE_MAX_PAYLOAD_LEN)
        else
          let out = encode_datagram_header (hdr_session_id header) (hdr_sequence header)
                      (word_of_nat ciphertext_len);
              nonce = datagram_nonce (hdr_session_id header) (hdr_sequence header) in
          and_then (ok_or (encrypt key nonce out plaintext) Encrypt) (\<lambda>ciphertext.
            Ok (out @ ciphertext)))"

definition open_frame :: "aead \<Rightarrow> bytes \<Rightarrow> bytes \<Rightarrow> usize \<Rightarrow> (frame, datagram_error) result" where
  "open_frame decrypt key datagram max_payload_len =
     and_then (decode_datagram_header datagram) (\<lambda>(outer, ciphertext).
     and_then (ok_or (decrypt key (datagram_nonce (dh_session_id outer) (dh_sequence outer))
                 (take PACKET_PLANE_DATAGRAM_HEADER_LEN datagram) ciphertext) Decrypt) (\<lambda>plaintext.
     and_then (decode_plain_frame plaintext max_payload_len) (\<lambda>frame.
       if hdr_session_id (frame_header frame) \<noteq> dh_session_id outer \<or>
          hdr_sequence (frame_header frame) \<noteq> dh_sequence outer
       then Err (HeaderMismatch (dh_session_id outer) (dh_sequence outer)
                   (hdr_session_id (frame_header frame)) (hdr_sequence (frame_header frame)))
       else Ok frame)))"

subsection \<open>Headers and nonces\<close>

text \<open>A header with an arbitrary reserved byte: the decoder does not look at it.\<close>

definition datagram_header_bytes :: "u8 \<Rightarrow> session_id \<Rightarrow> sequence \<Rightarrow> u16 \<Rightarrow> bytes" where
  "datagram_header_bytes reserved session s n =
     DATAGRAM_MAGIC @ [WIRE_VERSION, reserved] @ to_be_bytes 4 session @ to_be_bytes 8 s @ to_be_bytes 2 n"

lemma length_datagram_magic [simp]: "length DATAGRAM_MAGIC = 8"
  by (simp add: DATAGRAM_MAGIC_def)

lemma encode_datagram_header_eq: "encode_datagram_header = datagram_header_bytes 0"
  by (simp add: fun_eq_iff encode_datagram_header_def datagram_header_bytes_def)

lemma length_datagram_header [simp]: "length (datagram_header_bytes r session s n) = 24"
  by (simp add: datagram_header_bytes_def DATAGRAM_MAGIC_def)

lemma datagram_nonce_inj [simp]: "datagram_nonce a s = datagram_nonce b t \<longleftrightarrow> a = b \<and> s = t"
  by (simp add: datagram_nonce_def to_be_bytes_inj)

lemma datagram_header_slices:
  "take 8 (datagram_header_bytes r session s n) = DATAGRAM_MAGIC"
  "(datagram_header_bytes r session s n @ rest) ! 8 = WIRE_VERSION"
  "(datagram_header_bytes r session s n @ rest) ! 9 = r"
  "slice 10 14 (datagram_header_bytes r session s n @ rest) = to_be_bytes 4 session"
  "slice 14 22 (datagram_header_bytes r session s n @ rest) = to_be_bytes 8 s"
  "slice 22 24 (datagram_header_bytes r session s n @ rest) = to_be_bytes 2 n"
  by (simp_all add: slice_def datagram_header_bytes_def DATAGRAM_MAGIC_def del: to_be_bytes.simps)

lemma datagram_split:
  assumes "24 \<le> length d" and "take 8 d = DATAGRAM_MAGIC" and "d ! 8 = WIRE_VERSION"
  shows "take 24 d = datagram_header_bytes (d ! 9) (from_be_bytes (slice 10 14 d))
    (from_be_bytes (slice 14 22 d)) (from_be_bytes (slice 22 24 d))"
proof -
  have lens: "length (slice 10 14 d) = 4" "length (slice 14 22 d) = 8" "length (slice 22 24 d) = 2"
    using assms(1) by (simp_all add: slice_def)
  have two: "take 2 (drop 8 d) = [d ! 8, d ! 9]"
    using assms(1) by (intro nth_equalityI) (auto simp: less_2_cases_iff)
  have "take 24 d = take 8 d @ take 2 (drop 8 d) @ slice 10 14 d @ slice 14 22 d @ slice 22 24 d"
    using take_add [where i = 8 and j = 2 and xs = d] take_add [where i = 10 and j = 4 and xs = d]
      take_add [where i = 14 and j = 8 and xs = d] take_add [where i = 22 and j = 2 and xs = d]
    by (simp add: slice_def)
  moreover have "to_be_bytes 4 (from_be_bytes (slice 10 14 d) :: u32) = slice 10 14 d"
    "to_be_bytes 8 (from_be_bytes (slice 14 22 d) :: u64) = slice 14 22 d"
    "to_be_bytes 2 (from_be_bytes (slice 22 24 d) :: u16) = slice 22 24 d"
    using to_from_be_bytes [of "slice 10 14 d", where 'a = 32]
      to_from_be_bytes [of "slice 14 22 d", where 'a = 64]
      to_from_be_bytes [of "slice 22 24 d", where 'a = 16] by (simp_all add: lens)
  ultimately show ?thesis using assms two by (simp add: datagram_header_bytes_def)
qed

lemma decode_datagram_header_Ok_iff:
  "decode_datagram_header d = Ok (h, c) \<longleftrightarrow>
     d = datagram_header_bytes (d ! 9) (dh_session_id h) (dh_sequence h) (dh_ciphertext_len h) @ c \<and>
     length c = unat (dh_ciphertext_len h)"
  (is "?decoded \<longleftrightarrow> ?encoded")
proof
  assume ?decoded
  then have len: "24 \<le> length d" "take 8 d = DATAGRAM_MAGIC" "d ! 8 = WIRE_VERSION"
    and h: "dh_session_id h = from_be_bytes (slice 10 14 d)" "dh_sequence h = from_be_bytes (slice 14 22 d)"
      "dh_ciphertext_len h = from_be_bytes (slice 22 24 d)"
    and c: "c = drop 24 d" "length d - 24 = unat (dh_ciphertext_len h)"
    by (auto simp: decode_datagram_header_def PACKET_PLANE_DATAGRAM_HEADER_LEN_def Let_def
        split: if_splits)
  from datagram_split [OF len] h c show ?encoded
    by (metis append_take_drop_id length_drop)
next
  assume ?encoded
  then obtain r where d: "d = datagram_header_bytes r (dh_session_id h) (dh_sequence h) (dh_ciphertext_len h) @ c"
    and c: "length c = unat (dh_ciphertext_len h)" by blast
  from c show ?decoded
    unfolding d decode_datagram_header_def PACKET_PLANE_DATAGRAM_HEADER_LEN_def
    by (simp add: datagram_header_slices from_to_be_bytes_full Let_def)
qed

lemma decode_plain_frame_Ok_iff:
  "decode_plain_frame p m = Ok f \<longleftrightarrow>
     p = frame_encode f \<and> frame_wf f \<and> length (frame_payload f) \<le> m"
  (is "?decoded \<longleftrightarrow> ?encoded")
proof
  assume ?decoded
  then obtain h where len: "HEADER_LEN \<le> length p" and dec: "header_decode (take HEADER_LEN p) = Ok h"
    and fit: "\<not> min m MAX_PAYLOAD_LEN < unat (hdr_payload_len h)" "length p = HEADER_LEN + unat (hdr_payload_len h)"
    and f: "f = \<lparr>frame_header = h, frame_payload = drop HEADER_LEN p\<rparr>"
    by (auto simp: decode_plain_frame_def Let_def and_then_Inr_iff split: if_splits)
  from header_decode_Ok_encode [OF dec] have "take HEADER_LEN p = header_encode h"
    "hdr_version h = WIRE_VERSION" by simp_all
  moreover from this have "p = header_encode h @ drop HEADER_LEN p"
    using append_take_drop_id [of HEADER_LEN p] by simp
  moreover from fit(1) have "unat (hdr_payload_len h) \<le> m" by simp
  ultimately show ?encoded using f fit(2) by (simp add: frame_encode_def frame_wf_def)
next
  assume ?encoded
  then have p: "p = header_encode (frame_header f) @ frame_payload f" and "frame_wf f"
    and "length (frame_payload f) \<le> m" by (simp_all add: frame_encode_def)
  moreover have "unat (hdr_payload_len (frame_header f)) \<le> MAX_PAYLOAD_LEN"
    using unsigned_less [of "hdr_payload_len (frame_header f)", where 'a = nat]
    by (simp add: MAX_PAYLOAD_LEN_def)
  ultimately show ?decoded
    unfolding decode_plain_frame_def p
    using header_decode_encode [of "frame_header f" "[]"] by (simp add: frame_wf_def Let_def)
qed

subsection \<open>Sealing and opening\<close>

lemma seal_frame_Ok_iff:
  "seal_frame encrypt key f = Ok d \<longleftrightarrow>
     length (frame_payload f) = unat (hdr_payload_len (frame_header f)) \<and>
     length (frame_payload f) \<le> PACKET_PLANE_MAX_PAYLOAD_LEN \<and>
     (let session = hdr_session_id (frame_header f); s = hdr_sequence (frame_header f);
          out = datagram_header_bytes 0 session s (word_of_nat (length (frame_payload f) + 33))
      in \<exists>c. encrypt key (datagram_nonce session s) out (frame_encode f) = Some c \<and> d = out @ c)"
  unfolding seal_frame_def encode_datagram_header_eq
  by (auto simp: datagram_lengths frame_encode_def Let_def and_then_Inr_iff ac_simps)

text \<open>
  What the packet plane relies on of the cipher: decryption accepts a ciphertext exactly when it is the
  encryption of the message it returns, and the ciphertext is 16 bytes longer than the message.
\<close>

definition aead_exact :: "aead \<Rightarrow> aead \<Rightarrow> bool" where
  "aead_exact encrypt decrypt \<longleftrightarrow>
     (\<forall>key nonce aad m c. decrypt key nonce aad c = Some m \<longleftrightarrow> encrypt key nonce aad m = Some c) \<and>
     (\<forall>key nonce aad m c. encrypt key nonce aad m = Some c \<longrightarrow> length c = length m + 16)"

lemma open_frame_Ok_iff:
  "open_frame decrypt key d m = Ok f \<longleftrightarrow>
     (\<exists>c n. d = datagram_header_bytes (d ! 9) (hdr_session_id (frame_header f))
              (hdr_sequence (frame_header f)) n @ c \<and>
            length c = unat n \<and>
            decrypt key (datagram_nonce (hdr_session_id (frame_header f)) (hdr_sequence (frame_header f)))
              (take 24 d) c = Some (frame_encode f)) \<and>
     frame_wf f \<and> length (frame_payload f) \<le> m"
proof -
  have "open_frame decrypt key d m = Ok f \<longleftrightarrow>
      (\<exists>h c. decode_datagram_header d = Ok (h, c) \<and>
         dh_session_id h = hdr_session_id (frame_header f) \<and> dh_sequence h = hdr_sequence (frame_header f) \<and>
         (\<exists>p. decrypt key (datagram_nonce (dh_session_id h) (dh_sequence h)) (take 24 d) c = Some p \<and>
              decode_plain_frame p m = Ok f))"
    by (auto simp: open_frame_def and_then_Inr_iff PACKET_PLANE_DATAGRAM_HEADER_LEN_def
        split: if_splits)
  also have "\<dots> \<longleftrightarrow> (\<exists>c n. decode_datagram_header d =
      Ok (\<lparr>dh_session_id = hdr_session_id (frame_header f), dh_sequence = hdr_sequence (frame_header f),
           dh_ciphertext_len = n\<rparr>, c) \<and>
      decrypt key (datagram_nonce (hdr_session_id (frame_header f)) (hdr_sequence (frame_header f)))
        (take 24 d) c = Some (frame_encode f)) \<and> frame_wf f \<and> length (frame_payload f) \<le> m"
    unfolding decode_plain_frame_Ok_iff
    by (auto intro: exI) (metis (full_types) datagram_header.surjective old.unit.exhaust)
  finally show ?thesis by (simp add: decode_datagram_header_Ok_iff)
qed

lemma open_frame_iff_sealed:
  assumes "aead_exact encrypt decrypt"
  shows "open_frame decrypt key d m = Ok f \<and> d ! 9 = 0 \<and> length d \<le> PACKET_PLANE_MAX_UDP_DATAGRAM_LEN \<longleftrightarrow>
    seal_frame encrypt key f = Ok d \<and> hdr_version (frame_header f) = WIRE_VERSION \<and>
    length (frame_payload f) \<le> m"
proof -
  let ?session = "hdr_session_id (frame_header f)" and ?s = "hdr_sequence (frame_header f)"
  let ?L = "length (frame_payload f)"
  have enc: "length (frame_encode f) = ?L + 17" by (simp add: frame_encode_def HEADER_LEN_def)
  have exact: "\<And>key nonce aad m c. decrypt key nonce aad c = Some m \<longleftrightarrow> encrypt key nonce aad m = Some c"
    and len: "\<And>key nonce aad m c. encrypt key nonce aad m = Some c \<Longrightarrow> length c = length m + 16"
    using assms unfolding aead_exact_def by blast+
  show ?thesis (is "?opened \<longleftrightarrow> ?sealed")
  proof
    assume l: ?opened
    then obtain c n where d: "d = datagram_header_bytes 0 ?session ?s n @ c" and n: "length c = unat n"
      and e: "encrypt key (datagram_nonce ?session ?s) (take 24 d) (frame_encode f) = Some c"
      and wf: "frame_wf f" "?L \<le> m" unfolding open_frame_Ok_iff exact by auto
    have c: "length c = ?L + 33" using len [OF e] enc by simp
    with n have "n = word_of_nat (?L + 33)" by (metis of_nat_unat ucast_id)
    moreover have "take 24 d = datagram_header_bytes 0 ?session ?s n" by (simp add: d)
    moreover have "?L \<le> PACKET_PLANE_MAX_PAYLOAD_LEN"
      using l c by (simp add: d datagram_lengths)
    ultimately show ?sealed
      unfolding seal_frame_Ok_iff using d e wf by (simp add: frame_wf_def Let_def)
  next
    assume ?sealed
    then obtain c where L: "?L = unat (hdr_payload_len (frame_header f))" "?L \<le> 65478"
      and e: "encrypt key (datagram_nonce ?session ?s)
          (datagram_header_bytes 0 ?session ?s (word_of_nat (?L + 33))) (frame_encode f) = Some c"
      and d: "d = datagram_header_bytes 0 ?session ?s (word_of_nat (?L + 33)) @ c"
      and wf: "hdr_version (frame_header f) = WIRE_VERSION" "?L \<le> m"
      unfolding seal_frame_Ok_iff by (auto simp: Let_def datagram_lengths)
    have c: "length c = ?L + 33" using len [OF e] enc by simp
    have u: "unat (word_of_nat (?L + 33) :: u16) = ?L + 33"
      using L(2) by (simp add: unsigned_of_nat take_bit_nat_eq_self del: of_nat_add)
    have nine: "d ! 9 = 0" unfolding d by (rule datagram_header_slices(3))
    have "open_frame decrypt key d m = Ok f"
      unfolding open_frame_Ok_iff exact nine
      using L wf c u e by (intro conjI exI [of _ c] exI [of _ "word_of_nat (?L + 33)"])
        (simp_all add: d frame_wf_def)
    with nine c L(2) show ?opened by (simp add: d datagram_lengths)
  qed
qed


text \<open>A cipher for the witnesses: its tag is sixteen copies of a checksum of its inputs.\<close>

definition sample_encrypt :: aead where
  "sample_encrypt key nonce aad m =
     Some (m @ replicate 16 (fold (+) (key @ nonce @ aad @ m) 0))"

definition sample_decrypt :: aead where
  "sample_decrypt key nonce aad c =
     (let m = take (length c - 16) c in
      if 16 \<le> length c \<and> sample_encrypt key nonce aad m = Some c then Some m else None)"

lemma sample_aead_exact: "aead_exact sample_encrypt sample_decrypt"
  by (auto simp: aead_exact_def sample_decrypt_def sample_encrypt_def Let_def)

definition sample_sealed_frame :: frame where
  "sample_sealed_frame = \<lparr>frame_header = header_new IpPacket 9 3 2, frame_payload = [1, 2]\<rparr>"


end
