(* ===== verification/Forward_Outbound.thy ===== *)
theory Forward_Outbound
  imports Forward_Inbound Datagram
begin

text \<open>
  What the forwarder sends: the conditions under which a packet from the tunnel is prepared for a peer
  and a queued packet is framed, and the uniqueness of the epoch and sequence of outgoing frames.
\<close>

subsection \<open>Nonces do not repeat\<close>

text \<open>
  The pairs are counted by a position. There are \<open>2 ^ 32 - 1\<close> session ids, since 0 is skipped, and
  \<open>2 ^ 64\<close> sequences in each.
\<close>

definition nonce_count :: nat where
  "nonce_count = (2 ^ 32 - 1) * 2 ^ 64"

definition nonce_position :: "session_id \<times> sequence \<Rightarrow> nat" where
  "nonce_position p = (unat (fst p) - 1) * 2 ^ 64 + unat (snd p)"

definition next_nonce :: "'l forwarder \<Rightarrow> session_id \<times> sequence" where
  "next_nonce f = fst (take_outbound_sequence f)"

definition after_nonces :: "nat \<Rightarrow> 'l forwarder \<Rightarrow> 'l forwarder" where
  "after_nonces n f = ((\<lambda>f. snd (take_outbound_sequence f)) ^^ n) f"

lemma unat_minus_one_u32: "unat (- 1 :: u32) = 2 ^ 32 - 1" and unat_minus_one_u64: "unat (- 1 :: u64) = 2 ^ 64 - 1"
  by (simp_all add: unsigned_minus_1_eq_mask mask_eq_exp_minus_1)

lemma nonce_position_step:
  fixes sid :: session_id and s :: sequence
  assumes "1 \<le> unat sid"
  defines "nxt \<equiv> (if s = - 1 then (max (sid + 1) 1, 0) else (sid, s + 1))"
  shows "1 \<le> unat (fst nxt)"
    and "nonce_position nxt = (nonce_position (sid, s) + 1) mod nonce_count"
proof -
  define B K :: nat where "B = 2 ^ 64" and "K = 2 ^ 32 - 1"
  have sid: "unat sid \<le> K" using unsigned_less [of sid, where 'a = nat] by (simp add: K_def)
  have s: "unat s < B" using unsigned_less [of s, where 'a = nat] by (simp add: B_def)
  have pos: "nonce_position p = (unat (fst p) - 1) * B + unat (snd p)" for p
    by (simp add: nonce_position_def B_def)
  have M: "nonce_count = K * B" by (simp add: nonce_count_def B_def K_def)
  have below: "(unat sid - 1) * B + B = unat sid * B"
    using assms(1) by (metis Suc_diff_1 add.commute less_eq_Suc_le mult_Suc One_nat_def)
  have "1 \<le> unat (fst nxt) \<and> nonce_position nxt = (nonce_position (sid, s) + 1) mod nonce_count"
  proof (cases "s = - 1")
    case True
    then have us: "unat s + 1 = B" by (simp add: unat_minus_one_u64 B_def)
    then have total: "nonce_position (sid, s) + 1 = unat sid * B" using below by (simp add: pos)
    show ?thesis
    proof (cases "sid = - 1")
      case top: True
      then have "unat sid = K" by (simp add: unat_minus_one_u32 K_def)
      with top True total show ?thesis by (simp add: nxt_def pos M)
    next
      case False
      then have u: "unat (sid + 1) = Suc (unat sid)" by (rule unat_plus_one)
      then have m: "max (sid + 1) 1 = sid + 1" using assms(1) by (simp add: max_def word_le_nat_alt)
      from u unsigned_less [of "sid + 1", where 'a = nat] have "unat sid < K" by (simp add: K_def)
      then have "unat sid * B < K * B" using s by simp
      with True total u m show ?thesis by (simp add: nxt_def pos M)
    qed
  next
    case False
    then have u: "unat (s + 1) = Suc (unat s)" by (rule unat_plus_one)
    have "Suc (unat s) < B" using unsigned_less [of "s + 1", where 'a = nat] u by (simp add: B_def)
    then have "(unat sid - 1) * B + Suc (unat s) < unat sid * B" using below by linarith
    also have "\<dots> \<le> K * B" using sid by simp
    finally show ?thesis using False u assms(1) by (simp add: nxt_def pos M)
  qed
  then show "1 \<le> unat (fst nxt)"
    and "nonce_position nxt = (nonce_position (sid, s) + 1) mod nonce_count" by blast+
qed

lemma next_nonce_step:
  "next_nonce (snd (take_outbound_sequence f)) =
     (if fw_next_sequence f = - 1 then (max (fw_session_id f + 1) 1, 0)
      else (fw_session_id f, fw_next_sequence f + 1))"
  "next_nonce f = (fw_session_id f, fw_next_sequence f)"
  by (simp_all add: next_nonce_def take_outbound_sequence_def)

lemma after_nonces_position:
  assumes "1 \<le> unat (fw_session_id f)"
  shows "1 \<le> unat (fst (next_nonce (after_nonces n f))) \<and>
    nonce_position (next_nonce (after_nonces n f)) = (nonce_position (next_nonce f) + n) mod nonce_count"
proof (induction n)
  case 0
  have "nonce_position (next_nonce f) < nonce_count"
  proof -
    define B K :: nat where "B = 2 ^ 64" and "K = 2 ^ 32 - 1"
    have "unat (fw_session_id f) \<le> K" "unat (fw_next_sequence f) < B"
      using unsigned_less [of "fw_session_id f", where 'a = nat]
        unsigned_less [of "fw_next_sequence f", where 'a = nat] by (simp_all add: B_def K_def)
    then have "(unat (fw_session_id f) - 1) * B + unat (fw_next_sequence f) < unat (fw_session_id f) * B"
      and "unat (fw_session_id f) * B \<le> K * B"
      using assms by (cases "unat (fw_session_id f)", simp_all)
    then show ?thesis
      by (simp add: nonce_position_def next_nonce_step(2) nonce_count_def B_def K_def)
  qed
  with assms show ?case by (simp add: after_nonces_def next_nonce_step(2))
next
  case (Suc n)
  let ?g = "after_nonces n f"
  have g: "after_nonces (Suc n) f = snd (take_outbound_sequence ?g)"
    by (simp add: after_nonces_def)
  from Suc have one: "1 \<le> unat (fw_session_id ?g)" by (simp add: next_nonce_step(2))
  from nonce_position_step [OF one, of "fw_next_sequence ?g"] Suc show ?case
    unfolding g next_nonce_step(1) by (simp add: next_nonce_step(2) mod_Suc_eq)
qed

text \<open>
  C9: the epoch and sequence of outgoing frames form the nonce of the packet plane's cipher; this nonce
  does not repeat within any \<open>(2 ^ 32 - 1) * 2 ^ 64\<close> consecutive frames, wrap-around of both counters
  included.
\<close>

theorem outbound_nonces_distinct:
  assumes "fw_session_id f \<noteq> 0" and "i < j" and "j - i < nonce_count"
  shows "(case next_nonce (after_nonces i f) of (session, s) \<Rightarrow> datagram_nonce session s) \<noteq>
         (case next_nonce (after_nonces j f) of (session, s) \<Rightarrow> datagram_nonce session s)"
proof
  assume "(case next_nonce (after_nonces i f) of (session, s) \<Rightarrow> datagram_nonce session s) =
      (case next_nonce (after_nonces j f) of (session, s) \<Rightarrow> datagram_nonce session s)"
  then have eq: "next_nonce (after_nonces i f) = next_nonce (after_nonces j f)"
    by (auto split: prod.splits)
  have one: "1 \<le> unat (fw_session_id f)" using assms(1) by (simp add: unat_gt_0 Suc_le_eq)
  let ?p = "nonce_position (next_nonce f)"
  from after_nonces_position [OF one, of i] after_nonces_position [OF one, of j] eq
  have "(?p + i) mod nonce_count = (?p + j) mod nonce_count" by metis
  then have "nonce_count dvd (?p + j) - (?p + i)"
    using assms(2) by (metis add_le_cancel_left less_imp_le mod_eq_dvd_iff_nat)
  with assms(2,3) show False by (simp add: nat_dvd_not_less)
qed

theorem outbound_nonces_distinct_witness:
  "fw_session_id sample_forwarder \<noteq> 0 \<and>
   next_nonce (after_nonces 0 (sample_forwarder\<lparr>fw_session_id := - 1, fw_next_sequence := - 1\<rparr>)) \<noteq>
   next_nonce (after_nonces 1 (sample_forwarder\<lparr>fw_session_id := - 1, fw_next_sequence := - 1\<rparr>))"
proof -
  let ?f = "sample_forwarder\<lparr>fw_session_id := - 1, fw_next_sequence := - 1\<rparr>"
  have "fw_session_id ?f \<noteq> 0" "1 - 0 < nonce_count" by (simp_all add: nonce_count_def)
  from outbound_nonces_distinct [OF this(1), of 0 1, OF _ this(2)] show ?thesis
    by (auto simp: sample_forwarder_def)
qed

subsection \<open>What is prepared and framed\<close>

lemma tun_packet_owner_Ok_iff:
  fixes f :: "'l forwarder"
  assumes "authorized_table (fw_routes f)"
  shows "tun_packet_owner f packet = Ok owner \<longleftrightarrow>
    length packet \<le> fw_mtu f \<and> hm_contains (fw_peers f) owner \<and>
    (\<exists>source destination r r'.
       (packet_source packet :: (ip_addr, 'l forward_error) result) = Ok source \<and>
       (packet_destination packet :: (ip_addr, 'l forward_error) result) = Ok destination \<and>
       resolve (fw_routes f) source = Some r \<and> route_owner r = fw_local_peer f \<and>
       resolve (fw_routes f) destination = Some r' \<and> route_owner r' = owner)"
proof -
  have "table_inv (fw_routes f)" by (rule authorized_table_inv [OF assms])
  note own = table_ownership.may_use_iff [OF this]
  show ?thesis
    unfolding tun_packet_owner_def
    by (auto simp: and_then_Inr_iff authorize_local_Ok_iff own split: if_splits)
qed

lemma prepare_tun_packet_Ok:
  assumes "prepare_tun_packet f now packet = (Ok p, g)"
  shows "tun_packet_owner f packet = Ok (pkt_peer p)" and "pkt_bytes p = packet"
    and "pkt_session_id p = Some (fw_session_id f)" and "pkt_sequence p = fw_next_sequence f"
    and "fw_routes g = fw_routes f" and "fw_peers g = fw_peers f" and "fw_mtu g = fw_mtu f"
    and "fw_local_peer g = fw_local_peer f"
  using assms
  by (auto simp: prepare_tun_packet_def packet_new_for_session_def take_outbound_sequence_def Let_def
      split: sum.splits if_splits)


lemma queued_frame_Ok_iff:
  fixes f :: "'l forwarder"
  assumes "authorized_table (fw_routes f)"
  shows "queued_packet_frame_with_mtu f p mtu = Ok frame \<longleftrightarrow>
    hm_contains (fw_peers f) (pkt_peer p) \<and> length (pkt_bytes p) \<le> fw_mtu f \<and>
    length (pkt_bytes p) \<le> unat mtu \<and>
    (\<exists>source destination r r'.
       (packet_source (pkt_bytes p) :: (ip_addr, 'l forward_error) result) = Ok source \<and>
       (packet_destination (pkt_bytes p) :: (ip_addr, 'l forward_error) result) = Ok destination \<and>
       resolve (fw_routes f) source = Some r \<and> route_owner r = fw_local_peer f \<and>
       resolve (fw_routes f) destination = Some r' \<and> route_owner r' = pkt_peer p) \<and>
    frame = \<lparr>frame_header = header_new IpPacket
               (case pkt_session_id p of Some s \<Rightarrow> s | None \<Rightarrow> fw_session_id f) (pkt_sequence p)
               (word_of_nat (length (pkt_bytes p))), frame_payload = pkt_bytes p\<rparr>"
proof -
  have "table_inv (fw_routes f)" by (rule authorized_table_inv [OF assms])
  note own = table_ownership.may_use_iff [OF this]
  have frame: "frame_packet session s bs = Ok frame \<longleftrightarrow>
      frame = \<lparr>frame_header = header_new IpPacket session s (word_of_nat (length bs)), frame_payload = bs\<rparr>"
    if "length bs \<le> unat mtu" for session s bs
    using that unsigned_less [of mtu, where 'a = nat]
    by (auto simp: frame_packet_def frame_new_def MAX_PAYLOAD_LEN_def)
  show ?thesis
    unfolding queued_packet_frame_with_mtu_def packet_frame_def
    by (auto simp: and_then_Inr_iff authorize_local_Ok_iff own Let_def frame split: if_splits)
qed

text \<open>
  C10: a queued packet is framed exactly when it is still within both MTUs and, by the routes in force
  at that moment, its source belongs to the local peer and its destination to the peer it is queued
  for; so a change of routes or members after it was queued cannot leak it. The frame carries the
  packet's own epoch and sequence and its bytes.
\<close>

theorem queued_packet_rechecked:
  fixes f :: "'l forwarder"
  assumes "authorized_table (fw_routes f)"
  shows "queued_packet_frame_with_mtu f p mtu = Ok frame \<longleftrightarrow>
    hm_contains (fw_peers f) (pkt_peer p) \<and> length (pkt_bytes p) \<le> fw_mtu f \<and>
    length (pkt_bytes p) \<le> unat mtu \<and>
    (\<exists>source destination r r'.
       (packet_source (pkt_bytes p) :: (ip_addr, 'l forward_error) result) = Ok source \<and>
       (packet_destination (pkt_bytes p) :: (ip_addr, 'l forward_error) result) = Ok destination \<and>
       resolve (fw_routes f) source = Some r \<and> route_owner r = fw_local_peer f \<and>
       resolve (fw_routes f) destination = Some r' \<and> route_owner r' = pkt_peer p) \<and>
    frame = \<lparr>frame_header = header_new IpPacket
               (case pkt_session_id p of Some s \<Rightarrow> s | None \<Rightarrow> fw_session_id f) (pkt_sequence p)
               (word_of_nat (length (pkt_bytes p))), frame_payload = pkt_bytes p\<rparr>"
  by (rule queued_frame_Ok_iff [OF assms])

text \<open>
  The witnesses run a packet from 11.0.0.2, an address of the local peer, to 10.0.0.1, an address of a
  remote peer.
\<close>

definition sample_tun_packet :: bytes where
  "sample_tun_packet = [0x45, 0, 0, 20, 0, 0, 0, 0, 64, 17, 0, 0, 11, 0, 0, 2, 10, 0, 0, 1]"

definition sample_prepared :: packet where
  "sample_prepared = packet_new_for_session 0 (PeerId [1]) 5 0 sample_tun_packet"


theorem queued_packet_rechecked_witness:
  "queued_packet_frame_with_mtu sample_forwarder sample_prepared 60 =
     Ok \<lparr>frame_header = header_new IpPacket 5 0 20, frame_payload = sample_tun_packet\<rparr>"
proof -
  have "(packet_source sample_tun_packet :: (ip_addr, bytes forward_error) result) = Ok (V4 0x0b000002)"
    and "(packet_destination sample_tun_packet :: (ip_addr, bytes forward_error) result) = Ok (V4 0x0a000001)"
    and "map_option route_owner (resolve (fw_routes sample_forwarder) (V4 0x0b000002)) = Some (PeerId [9])"
    and "map_option route_owner (resolve (fw_routes sample_forwarder) (V4 0x0a000001)) = Some (PeerId [1])"
    and "hm_contains (fw_peers sample_forwarder) (PeerId [1])"
    by code_simp+
  moreover have "length sample_tun_packet = 20" "fw_mtu sample_forwarder = 64"
      "fw_local_peer sample_forwarder = PeerId [9]"
    by (simp_all add: sample_tun_packet_def sample_forwarder_def)
  ultimately show ?thesis
    unfolding queued_packet_rechecked [OF sample_forwarder_routes]
    by (auto simp: sample_prepared_def packet_new_for_session_def)
qed

end
