(* ===== verification/Identity.thy ===== *)
theory Identity
  imports Peer
begin

text \<open>
  Node identities (\<open>src/src/identity.rs\<close>). Key pairs, public keys and libp2p peer identifiers, their
  protobuf encodings, base64 and SHA-256 belong to external crates; the record gathers the operations
  the program calls. An error value of those crates is not looked at by the program and is omitted.
\<close>

record ('kp, 'key, 'l) identity_library =
  base64_encode :: "bytes \<Rightarrow> bytes"
  base64_decode :: "bytes \<Rightarrow> bytes option"
  keypair_to_protobuf :: "'kp \<Rightarrow> bytes option"
  keypair_from_protobuf :: "bytes \<Rightarrow> 'kp option"
  keypair_sign :: "'kp \<Rightarrow> bytes \<Rightarrow> bytes option"
  keypair_public :: "'kp \<Rightarrow> 'key"
  key_encode_protobuf :: "'key \<Rightarrow> bytes"
  key_try_decode_protobuf :: "bytes \<Rightarrow> 'key option"
  key_verify :: "'key \<Rightarrow> bytes \<Rightarrow> bytes \<Rightarrow> bool"
  key_to_peer_id :: "'key \<Rightarrow> 'l"
  libp2p_to_string :: "'l \<Rightarrow> bytes"
  libp2p_from_str :: "bytes \<Rightarrow> 'l option"
  libp2p_to_bytes :: "'l \<Rightarrow> bytes"
  digest_sha256 :: "bytes \<Rightarrow> bytes"

datatype identity_error = IdentityBase64 | IdentityLibp2p | IdentitySigning

record node_identity =
  ni_peer_id :: bytes
  ni_private_key :: bytes

definition from_keypair ::
    "('kp, 'key, 'l) identity_library \<Rightarrow> 'kp \<Rightarrow> (node_identity, identity_error) result" where
  "from_keypair lib keypair =
     (let peer_id = libp2p_to_string lib (key_to_peer_id lib (keypair_public lib keypair)) in
      and_then (ok_or (keypair_to_protobuf lib keypair) IdentityLibp2p) (\<lambda>bs.
        Ok \<lparr>ni_peer_id = peer_id, ni_private_key = base64_encode lib bs\<rparr>))"

text \<open>Generation takes the random key pair as an argument.\<close>

definition generate_ed25519 ::
    "('kp, 'key, 'l) identity_library \<Rightarrow> 'kp \<Rightarrow> (node_identity, identity_error) result" where
  "generate_ed25519 lib random_keypair = from_keypair lib random_keypair"

definition from_private_key ::
    "('kp, 'key, 'l) identity_library \<Rightarrow> bytes \<Rightarrow> (node_identity, identity_error) result" where
  "from_private_key lib encoded =
     and_then (ok_or (base64_decode lib encoded) IdentityBase64) (\<lambda>bs.
     and_then (ok_or (keypair_from_protobuf lib bs) IdentityLibp2p) (\<lambda>keypair.
       from_keypair lib keypair))"

definition identity_keypair ::
    "('kp, 'key, 'l) identity_library \<Rightarrow> node_identity \<Rightarrow> ('kp, identity_error) result" where
  "identity_keypair lib i =
     and_then (ok_or (base64_decode lib (ni_private_key i)) IdentityBase64) (\<lambda>bs.
       ok_or (keypair_from_protobuf lib bs) IdentityLibp2p)"

definition identity_sign ::
    "('kp, 'key, 'l) identity_library \<Rightarrow> node_identity \<Rightarrow> bytes \<Rightarrow> (bytes, identity_error) result" where
  "identity_sign lib i message =
     and_then (identity_keypair lib i) (\<lambda>keypair.
       ok_or (keypair_sign lib keypair message) IdentitySigning)"

definition identity_public_key ::
    "('kp, 'key, 'l) identity_library \<Rightarrow> node_identity \<Rightarrow> ('key, identity_error) result" where
  "identity_public_key lib i =
     and_then (identity_keypair lib i) (\<lambda>keypair. Ok (keypair_public lib keypair))"

definition public_key_protobuf ::
    "('kp, 'key, 'l) identity_library \<Rightarrow> node_identity \<Rightarrow> (bytes, identity_error) result" where
  "public_key_protobuf lib i =
     and_then (identity_public_key lib i) (\<lambda>key. Ok (key_encode_protobuf lib key))"

text \<open>The overlay identity of the owner of a public key.\<close>

definition key_owner :: "('kp, 'key, 'l) identity_library \<Rightarrow> 'key \<Rightarrow> peer_id" where
  "key_owner lib key = from_libp2p (digest_sha256 lib) (libp2p_to_bytes lib) (key_to_peer_id lib key)"

text \<open>What the program relies on of the crates: encodings round-trip and signatures verify.\<close>

definition library_laws :: "('kp, 'key, 'l) identity_library \<Rightarrow> bool" where
  "library_laws lib \<longleftrightarrow>
     (\<forall>bs. base64_decode lib (base64_encode lib bs) = Some bs) \<and>
     (\<forall>kp bs. keypair_to_protobuf lib kp = Some bs \<longrightarrow> keypair_from_protobuf lib bs = Some kp) \<and>
     (\<forall>key. key_try_decode_protobuf lib (key_encode_protobuf lib key) = Some key) \<and>
     (\<forall>peer. libp2p_from_str lib (libp2p_to_string lib peer) = Some peer) \<and>
     (\<forall>kp m s. keypair_sign lib kp m = Some s \<longrightarrow> key_verify lib (keypair_public lib kp) m s)"

lemma generated_identity_round_trips:
  assumes "library_laws lib" and "generate_ed25519 lib kp = Ok i"
  shows "from_private_key lib (ni_private_key i) = Ok i" and "identity_keypair lib i = Ok kp"
  using assms by (auto simp: generate_ed25519_def from_keypair_def from_private_key_def identity_keypair_def
      library_laws_def Let_def and_then_Inr_iff)

lemma identity_sign_verifies:
  assumes "library_laws lib" and "identity_sign lib i m = Ok s" and "public_key_protobuf lib i = Ok k"
  obtains key where "key_try_decode_protobuf lib k = Some key" "identity_public_key lib i = Ok key"
    "key_verify lib key m s"
  using assms by (auto simp: identity_sign_def public_key_protobuf_def identity_public_key_def
      library_laws_def and_then_Inr_iff)

end
