(* ===== verification/Handshake.thy ===== *)
theory Handshake
  imports Identity Wire
begin

text \<open>
  The signed handshakes of the packet plane (\<open>PacketPlaneHandshake\<close> in
  \<open>src/src/runtime/packet_plane.rs\<close>): encoding, decoding through a cursor, signing and verification.
  A string is its sequence of UTF-8 bytes. The text form of a socket address is given by two
  parameters, \<open>show_addr\<close> for \<open>to_string\<close> and \<open>parse_addr\<close> for \<open>parse\<close>.
\<close>

datatype socket_addr = SocketV4 u32 u16 | SocketV6 u128 u16 u32 u32

definition HANDSHAKE_MAGIC :: bytes where
  "HANDSHAKE_MAGIC = [0x70, 0x32, 0x70, 0x76, 0x70, 0x6e, 0x48, 0x31]"

text \<open>\<open>HANDSHAKE_SIGNING_DOMAIN\<close> is the text \<open>p2p-vpn packet-plane handshake v1\<close>.\<close>

definition HANDSHAKE_SIGNING_DOMAIN :: bytes where
  "HANDSHAKE_SIGNING_DOMAIN =
     [0x70, 0x32, 0x70, 0x2d, 0x76, 0x70, 0x6e, 0x20, 0x70, 0x61, 0x63, 0x6b, 0x65, 0x74, 0x2d,
      0x70, 0x6c, 0x61, 0x6e, 0x65, 0x20, 0x68, 0x61, 0x6e, 0x64, 0x73, 0x68, 0x61, 0x6b, 0x65,
      0x20, 0x76, 0x31]"

definition PACKET_PLANE_EPHEMERAL_PUBLIC_KEY_LEN :: usize where
  "PACKET_PLANE_EPHEMERAL_PUBLIC_KEY_LEN = 32"

datatype handshake_kind = Hello | Accept

datatype handshake_error =
    HandshakeIdentity identity_error
  | HandshakeInvalidMagic
  | HandshakeTruncated usize usize
  | HandshakeTrailingBytes usize
  | HandshakeUnsupportedVersion u8
  | UnknownKind u8
  | HandshakeInvalidUtf8
  | InvalidEndpoint
  | HandshakePublicKey
  | WrongNetwork
  | UnexpectedPeer
  | InvalidMtu
  | InvalidSignature
  | FieldTooLarge usize usize

fun handshake_kind_byte :: "handshake_kind \<Rightarrow> u8" where
  "handshake_kind_byte Hello = 1"
| "handshake_kind_byte Accept = 2"

definition handshake_kind_try_from :: "u8 \<Rightarrow> (handshake_kind, handshake_error) result" where
  "handshake_kind_try_from v =
     (if v = 1 then Ok Hello else if v = 2 then Ok Accept else Err (UnknownKind v))"

record handshake =
  hs_kind :: handshake_kind
  hs_network_name :: bytes
  hs_public_key :: bytes
  hs_ephemeral_public_key :: bytes
  hs_session_id :: session_id
  hs_nonce :: u64
  hs_mtu :: u16
  hs_endpoint :: socket_addr
  hs_signature :: bytes

record verified_handshake =
  vh_kind :: handshake_kind
  vh_peer :: peer_id
  vh_ephemeral_public_key :: bytes
  vh_session_id :: session_id
  vh_nonce :: u64
  vh_mtu :: u16
  vh_endpoint :: socket_addr

record handshake_params =
  hp_network_name :: bytes
  hp_session_id :: session_id
  hp_nonce :: u64
  hp_mtu :: u16
  hp_ephemeral_public_key :: bytes
  hp_endpoint :: socket_addr

subsection \<open>UTF-8\<close>

text \<open>The well-formed byte sequences \<open>String::from_utf8\<close> accepts, by the number of bytes of a character.\<close>

definition utf8_cont :: "u8 \<Rightarrow> bool" where
  "utf8_cont b \<longleftrightarrow> 0x80 \<le> b \<and> b \<le> 0xbf"

definition utf8_second :: "u8 \<Rightarrow> u8 \<Rightarrow> bool" where
  "utf8_second lead b \<longleftrightarrow> utf8_cont b \<and>
     (lead = 0xe0 \<longrightarrow> 0xa0 \<le> b) \<and> (lead = 0xed \<longrightarrow> b \<le> 0x9f) \<and>
     (lead = 0xf0 \<longrightarrow> 0x90 \<le> b) \<and> (lead = 0xf4 \<longrightarrow> b \<le> 0x8f)"

fun utf8_valid :: "bytes \<Rightarrow> bool" where
  "utf8_valid [] = True"
| "utf8_valid (a # rest) =
     (if a \<le> 0x7f then utf8_valid rest
      else if 0xc2 \<le> a \<and> a \<le> 0xdf then
        (case rest of b # rest \<Rightarrow> utf8_cont b \<and> utf8_valid rest | [] \<Rightarrow> False)
      else if 0xe0 \<le> a \<and> a \<le> 0xef then
        (case rest of b # c # rest \<Rightarrow> utf8_second a b \<and> utf8_cont c \<and> utf8_valid rest | _ \<Rightarrow> False)
      else if 0xf0 \<le> a \<and> a \<le> 0xf4 then
        (case rest of b # c # d # rest \<Rightarrow>
             utf8_second a b \<and> utf8_cont c \<and> utf8_cont d \<and> utf8_valid rest | _ \<Rightarrow> False)
      else False)"

subsection \<open>Encoding\<close>

definition encode_len_prefixed :: "bytes \<Rightarrow> bytes \<Rightarrow> (bytes, handshake_error) result" where
  "encode_len_prefixed out v =
     (if length v > 65535 then Err (FieldTooLarge (length v) 65535)
      else Ok (out @ to_be_bytes 2 (word_of_nat (length v) :: u16) @ v))"

definition handshake_encode ::
    "(socket_addr \<Rightarrow> bytes) \<Rightarrow> handshake \<Rightarrow> (bytes, handshake_error) result" where
  "handshake_encode show_addr h =
     (let out = HANDSHAKE_MAGIC @ [WIRE_VERSION] @ [handshake_kind_byte (hs_kind h)]
            @ to_be_bytes 4 (hs_session_id h) @ to_be_bytes 8 (hs_nonce h) @ to_be_bytes 2 (hs_mtu h)
            @ hs_ephemeral_public_key h in
      and_then (encode_len_prefixed out (hs_network_name h)) (\<lambda>out.
      and_then (encode_len_prefixed out (show_addr (hs_endpoint h))) (\<lambda>out.
      and_then (encode_len_prefixed out (hs_public_key h)) (\<lambda>out.
        encode_len_prefixed out (hs_signature h)))))"

record handshake_signing_fields =
  sf_network_name :: bytes
  sf_public_key :: bytes
  sf_session_id :: session_id
  sf_nonce :: u64
  sf_mtu :: u16
  sf_ephemeral_public_key :: bytes
  sf_endpoint :: socket_addr

definition handshake_signing_payload ::
    "(socket_addr \<Rightarrow> bytes) \<Rightarrow> handshake_kind \<Rightarrow> handshake_signing_fields \<Rightarrow>
     (bytes, handshake_error) result" where
  "handshake_signing_payload show_addr kind fs =
     (let out = HANDSHAKE_SIGNING_DOMAIN @ [WIRE_VERSION] @ [handshake_kind_byte kind]
            @ to_be_bytes 4 (sf_session_id fs) @ to_be_bytes 8 (sf_nonce fs)
            @ to_be_bytes 2 (sf_mtu fs) @ sf_ephemeral_public_key fs in
      and_then (encode_len_prefixed out (sf_network_name fs)) (\<lambda>out.
      and_then (encode_len_prefixed out (show_addr (sf_endpoint fs))) (\<lambda>out.
        encode_len_prefixed out (sf_public_key fs))))"

subsection \<open>Decoding\<close>

text \<open>\<open>HandshakeCursor\<close>: the bytes not yet taken.\<close>

definition cursor_take :: "bytes \<Rightarrow> usize \<Rightarrow> (bytes \<times> bytes, handshake_error) result" where
  "cursor_take input n =
     (if n \<le> length input then Ok (take n input, drop n input)
      else Err (HandshakeTruncated (length input) n))"

definition take_magic :: "bytes \<Rightarrow> bytes \<Rightarrow> (bytes, handshake_error) result" where
  "take_magic input expected =
     and_then (cursor_take input (length expected)) (\<lambda>(bs, input).
       if bs = expected then Ok input else Err HandshakeInvalidMagic)"

definition take_u8 :: "bytes \<Rightarrow> (u8 \<times> bytes, handshake_error) result" where
  "take_u8 input = and_then (cursor_take input 1) (\<lambda>(bs, input). Ok (bs ! 0, input))"

definition take_u16 :: "bytes \<Rightarrow> (u16 \<times> bytes, handshake_error) result" where
  "take_u16 input = and_then (cursor_take input 2) (\<lambda>(bs, input). Ok (from_be_bytes bs, input))"

definition take_u32 :: "bytes \<Rightarrow> (u32 \<times> bytes, handshake_error) result" where
  "take_u32 input = and_then (cursor_take input 4) (\<lambda>(bs, input). Ok (from_be_bytes bs, input))"

definition take_u64 :: "bytes \<Rightarrow> (u64 \<times> bytes, handshake_error) result" where
  "take_u64 input = and_then (cursor_take input 8) (\<lambda>(bs, input). Ok (from_be_bytes bs, input))"

definition take_len_prefixed :: "bytes \<Rightarrow> (bytes \<times> bytes, handshake_error) result" where
  "take_len_prefixed input =
     and_then (take_u16 input) (\<lambda>(n, input). cursor_take input (unat n))"

definition take_x25519_public_key :: "bytes \<Rightarrow> (bytes \<times> bytes, handshake_error) result" where
  "take_x25519_public_key input = cursor_take input PACKET_PLANE_EPHEMERAL_PUBLIC_KEY_LEN"

definition cursor_finish :: "bytes \<Rightarrow> (unit, handshake_error) result" where
  "cursor_finish input =
     (if length input = 0 then Ok () else Err (HandshakeTrailingBytes (length input)))"

definition from_utf8 :: "bytes \<Rightarrow> (bytes, handshake_error) result" where
  "from_utf8 bs = (if utf8_valid bs then Ok bs else Err HandshakeInvalidUtf8)"

definition handshake_decode ::
    "(bytes \<Rightarrow> socket_addr option) \<Rightarrow> bytes \<Rightarrow> (handshake, handshake_error) result" where
  "handshake_decode parse_addr input =
     and_then (take_magic input HANDSHAKE_MAGIC) (\<lambda>input.
     and_then (take_u8 input) (\<lambda>(version, input).
       if version \<noteq> WIRE_VERSION then Err (HandshakeUnsupportedVersion version)
       else
     and_then (take_u8 input) (\<lambda>(kind, input).
     and_then (handshake_kind_try_from kind) (\<lambda>kind.
     and_then (take_u32 input) (\<lambda>(session_id, input).
     and_then (take_u64 input) (\<lambda>(nonce, input).
     and_then (take_u16 input) (\<lambda>(mtu, input).
     and_then (take_x25519_public_key input) (\<lambda>(ephemeral_public_key, input).
     and_then (take_len_prefixed input) (\<lambda>(bs, input).
     and_then (from_utf8 bs) (\<lambda>network_name.
     and_then (take_len_prefixed input) (\<lambda>(bs, input).
     and_then (from_utf8 bs) (\<lambda>bs.
     and_then (ok_or (parse_addr bs) InvalidEndpoint) (\<lambda>endpoint.
     and_then (take_len_prefixed input) (\<lambda>(public_key, input).
     and_then (take_len_prefixed input) (\<lambda>(signature, input).
     and_then (cursor_finish input) (\<lambda>_.
       Ok \<lparr>hs_kind = kind, hs_network_name = network_name, hs_public_key = public_key,
           hs_ephemeral_public_key = ephemeral_public_key, hs_session_id = session_id,
           hs_nonce = nonce, hs_mtu = mtu, hs_endpoint = endpoint,
           hs_signature = signature\<rparr>))))))))))))))))"

subsection \<open>Signing and verification\<close>

definition handshake_signed ::
    "('kp, 'key, 'l) identity_library \<Rightarrow> (socket_addr \<Rightarrow> bytes) \<Rightarrow> handshake_kind \<Rightarrow> node_identity \<Rightarrow>
     handshake_params \<Rightarrow> (handshake, handshake_error) result" where
  "handshake_signed lib show_addr kind i params =
     and_then (map_err HandshakeIdentity (public_key_protobuf lib i)) (\<lambda>public_key.
     and_then (handshake_signing_payload show_addr kind
        \<lparr>sf_network_name = hp_network_name params, sf_public_key = public_key,
         sf_session_id = hp_session_id params, sf_nonce = hp_nonce params, sf_mtu = hp_mtu params,
         sf_ephemeral_public_key = hp_ephemeral_public_key params,
         sf_endpoint = hp_endpoint params\<rparr>) (\<lambda>signing_payload.
     and_then (map_err HandshakeIdentity (identity_sign lib i signing_payload)) (\<lambda>signature.
       Ok \<lparr>hs_kind = kind, hs_network_name = hp_network_name params, hs_public_key = public_key,
           hs_ephemeral_public_key = hp_ephemeral_public_key params,
           hs_session_id = hp_session_id params, hs_nonce = hp_nonce params, hs_mtu = hp_mtu params,
           hs_endpoint = hp_endpoint params, hs_signature = signature\<rparr>)))"

definition handshake_verify ::
    "('kp, 'key, 'l) identity_library \<Rightarrow> (socket_addr \<Rightarrow> bytes) \<Rightarrow> handshake \<Rightarrow> bytes \<Rightarrow> peer_id option \<Rightarrow>
     (verified_handshake, handshake_error) result" where
  "handshake_verify lib show_addr h expected_network expected_peer =
     (if hs_network_name h \<noteq> expected_network then Err WrongNetwork
      else if hs_mtu h = 0 then Err InvalidMtu
      else
        and_then (ok_or (key_try_decode_protobuf lib (hs_public_key h)) HandshakePublicKey) (\<lambda>public_key.
          let peer = from_libp2p (digest_sha256 lib) (libp2p_to_bytes lib) (key_to_peer_id lib public_key) in
          if is_some_and (\<lambda>expected. expected \<noteq> peer) expected_peer then Err UnexpectedPeer
          else
            and_then (handshake_signing_payload show_addr (hs_kind h)
                \<lparr>sf_network_name = hs_network_name h, sf_public_key = hs_public_key h,
                 sf_session_id = hs_session_id h, sf_nonce = hs_nonce h, sf_mtu = hs_mtu h,
                 sf_ephemeral_public_key = hs_ephemeral_public_key h,
                 sf_endpoint = hs_endpoint h\<rparr>) (\<lambda>signing_payload.
              if \<not> key_verify lib public_key signing_payload (hs_signature h) then Err InvalidSignature
              else
                Ok \<lparr>vh_kind = hs_kind h, vh_peer = peer,
                    vh_ephemeral_public_key = hs_ephemeral_public_key h,
                    vh_session_id = hs_session_id h, vh_nonce = hs_nonce h, vh_mtu = hs_mtu h,
                    vh_endpoint = hs_endpoint h\<rparr>)))"

subsection \<open>Round trip\<close>

definition len_prefixed :: "bytes \<Rightarrow> bytes" where
  "len_prefixed v = to_be_bytes 2 (word_of_nat (length v) :: u16) @ v"

lemma encode_len_prefixed_Ok_iff:
  "encode_len_prefixed out v = Ok out' \<longleftrightarrow> length v \<le> 65535 \<and> out' = out @ len_prefixed v"
  by (auto simp: encode_len_prefixed_def len_prefixed_def)

lemma cursor_take_append [simp]: "length xs = n \<Longrightarrow> cursor_take (xs @ rest) n = Ok (xs, rest)"
  by (simp add: cursor_take_def)

lemma take_magic_append [simp]: "take_magic (magic @ rest) magic = Ok rest"
  by (simp add: take_magic_def)

lemma take_u8_Cons [simp]: "take_u8 (b # rest) = Ok (b, rest)"
  by (simp add: take_u8_def cursor_take_def)

lemma take_words_append [simp]:
  "take_u16 (to_be_bytes 2 v16 @ rest) = Ok (v16, rest)"
  "take_u32 (to_be_bytes 4 v32 @ rest) = Ok (v32, rest)"
  "take_u64 (to_be_bytes 8 v64 @ rest) = Ok (v64, rest)"
  by (simp_all add: take_u16_def take_u32_def take_u64_def from_to_be_bytes_full)

lemma take_len_prefixed_append [simp]:
  "length v \<le> 65535 \<Longrightarrow> take_len_prefixed (len_prefixed v @ rest) = Ok (v, rest)"
  by (simp add: take_len_prefixed_def len_prefixed_def unsigned_of_nat take_bit_nat_eq_self)

lemma handshake_kind_round_trip [simp]: "handshake_kind_try_from (handshake_kind_byte k) = Ok k"
  by (cases k) (simp_all add: handshake_kind_try_from_def)

text \<open>What the type of a handshake promises: a 32-byte key and a network name that is a string.\<close>

definition handshake_wf :: "handshake \<Rightarrow> bool" where
  "handshake_wf h \<longleftrightarrow> length (hs_ephemeral_public_key h) = 32 \<and> utf8_valid (hs_network_name h)"

lemma handshake_encode_Ok_iff:
  "handshake_encode show_addr h = Ok bs \<longleftrightarrow>
     length (hs_network_name h) \<le> 65535 \<and> length (show_addr (hs_endpoint h)) \<le> 65535 \<and>
     length (hs_public_key h) \<le> 65535 \<and> length (hs_signature h) \<le> 65535 \<and>
     bs = HANDSHAKE_MAGIC @ [WIRE_VERSION, handshake_kind_byte (hs_kind h)]
            @ to_be_bytes 4 (hs_session_id h) @ to_be_bytes 8 (hs_nonce h) @ to_be_bytes 2 (hs_mtu h)
            @ hs_ephemeral_public_key h @ len_prefixed (hs_network_name h)
            @ len_prefixed (show_addr (hs_endpoint h)) @ len_prefixed (hs_public_key h)
            @ len_prefixed (hs_signature h)"
  by (auto simp: handshake_encode_def and_then_Inr_iff encode_len_prefixed_Ok_iff Let_def
      simp del: to_be_bytes.simps)

lemma handshake_decode_encode:
  assumes "handshake_encode show_addr h = Ok bs" and "handshake_wf h"
    and "utf8_valid (show_addr (hs_endpoint h))"
    and "parse_addr (show_addr (hs_endpoint h)) = Some (hs_endpoint h)"
  shows "handshake_decode parse_addr bs = Ok h"
proof -
  note enc = assms(1) [unfolded handshake_encode_Ok_iff]
  have "take_len_prefixed (len_prefixed (hs_signature h)) = Ok (hs_signature h, [])"
    using take_len_prefixed_append [of "hs_signature h" "[]"] enc by simp
  with enc assms(2-4) show ?thesis
    by (simp add: handshake_decode_def handshake_wf_def from_utf8_def cursor_finish_def
        take_x25519_public_key_def PACKET_PLANE_EPHEMERAL_PUBLIC_KEY_LEN_def del: to_be_bytes.simps)
qed

subsection \<open>What a signature covers\<close>

definition signing_fields :: "handshake \<Rightarrow> handshake_signing_fields" where
  "signing_fields h =
     \<lparr>sf_network_name = hs_network_name h, sf_public_key = hs_public_key h,
      sf_session_id = hs_session_id h, sf_nonce = hs_nonce h, sf_mtu = hs_mtu h,
      sf_ephemeral_public_key = hs_ephemeral_public_key h, sf_endpoint = hs_endpoint h\<rparr>"

lemma len_prefixed_inj:
  assumes "length v \<le> 65535" and "length w \<le> 65535"
  shows "len_prefixed v @ r = len_prefixed w @ r' \<longleftrightarrow> v = w \<and> r = r'"
proof
  assume "len_prefixed v @ r = len_prefixed w @ r'"
  then have "take_len_prefixed (len_prefixed v @ r) = take_len_prefixed (len_prefixed w @ r')" by (rule arg_cong)
  with assms show "v = w \<and> r = r'" by simp
qed simp

lemma signing_payload_Ok_iff:
  "handshake_signing_payload show_addr kind f = Ok p \<longleftrightarrow>
     length (sf_network_name f) \<le> 65535 \<and> length (show_addr (sf_endpoint f)) \<le> 65535 \<and>
     length (sf_public_key f) \<le> 65535 \<and>
     p = HANDSHAKE_SIGNING_DOMAIN @ [WIRE_VERSION, handshake_kind_byte kind]
           @ to_be_bytes 4 (sf_session_id f) @ to_be_bytes 8 (sf_nonce f) @ to_be_bytes 2 (sf_mtu f)
           @ sf_ephemeral_public_key f @ len_prefixed (sf_network_name f)
           @ len_prefixed (show_addr (sf_endpoint f)) @ len_prefixed (sf_public_key f)"
  by (auto simp: handshake_signing_payload_def and_then_Inr_iff encode_len_prefixed_Ok_iff Let_def
      simp del: to_be_bytes.simps)

lemma signing_payload_inj:
  assumes "handshake_signing_payload show_addr k f = Ok p" and "handshake_signing_payload show_addr k' f' = Ok p"
    and "length (sf_ephemeral_public_key f) = 32" and "length (sf_ephemeral_public_key f') = 32"
    and "parse_addr (show_addr (sf_endpoint f)) = Some (sf_endpoint f)"
    and "parse_addr (show_addr (sf_endpoint f')) = Some (sf_endpoint f')"
  shows "k' = k \<and> f' = f"
proof -
  have tail: "len_prefixed v = len_prefixed w \<longleftrightarrow> v = w" if "length v \<le> 65535" "length w \<le> 65535" for v w
    using len_prefixed_inj [OF that, of "[]" "[]"] by simp
  have kinds: "handshake_kind_byte k = handshake_kind_byte k' \<longleftrightarrow> k = k'"
    using handshake_kind_round_trip by (metis sum.inject(2))
  note eqs = assms(1,2) [unfolded signing_payload_Ok_iff]
  from eqs have "handshake_kind_byte k = handshake_kind_byte k' \<and> sf_session_id f = sf_session_id f' \<and>
      sf_nonce f = sf_nonce f' \<and> sf_mtu f = sf_mtu f' \<and>
      sf_ephemeral_public_key f = sf_ephemeral_public_key f' \<and> sf_network_name f = sf_network_name f' \<and>
      show_addr (sf_endpoint f) = show_addr (sf_endpoint f') \<and> sf_public_key f = sf_public_key f'"
    using assms(3,4) by (auto simp: to_be_bytes_inj len_prefixed_inj tail simp del: to_be_bytes.simps)
  with assms(5,6) kinds show ?thesis
    by (metis handshake_signing_fields.surjective old.unit.exhaust option.sel)
qed

lemma handshake_verify_Ok_iff:
  "handshake_verify lib show_addr h network expected = Ok v \<longleftrightarrow>
     hs_network_name h = network \<and> hs_mtu h \<noteq> 0 \<and>
     (\<exists>key p. key_try_decode_protobuf lib (hs_public_key h) = Some key \<and>
        expected \<in> {None, Some (key_owner lib key)} \<and>
        handshake_signing_payload show_addr (hs_kind h) (signing_fields h) = Ok p \<and>
        key_verify lib key p (hs_signature h) \<and>
        v = \<lparr>vh_kind = hs_kind h, vh_peer = key_owner lib key,
             vh_ephemeral_public_key = hs_ephemeral_public_key h, vh_session_id = hs_session_id h,
             vh_nonce = hs_nonce h, vh_mtu = hs_mtu h, vh_endpoint = hs_endpoint h\<rparr>)"
  unfolding handshake_verify_def signing_fields_def [symmetric] key_owner_def [symmetric]
  by (cases expected) (auto simp: and_then_Inr_iff Let_def split: if_splits)

text \<open>
  C18: a handshake signed by a node, encoded, and received by a peer of the same network decodes to the
  same handshake and verifies as that node's, whether or not the receiver expected it.
\<close>

theorem signed_handshake_accepted:
  assumes "library_laws lib" and "handshake_signed lib show_addr kind i params = Ok h"
    and "handshake_encode show_addr h = Ok bs"
    and "length (hp_ephemeral_public_key params) = 32" and "utf8_valid (hp_network_name params)"
    and "utf8_valid (show_addr (hp_endpoint params))"
    and "parse_addr (show_addr (hp_endpoint params)) = Some (hp_endpoint params)"
    and "hp_mtu params \<noteq> 0"
  shows "handshake_decode parse_addr bs = Ok h \<and>
    (\<exists>key. identity_public_key lib i = Ok key \<and>
       (\<forall>expected. handshake_verify lib show_addr h (hp_network_name params) expected =
          (if expected \<in> {None, Some (key_owner lib key)}
           then Ok \<lparr>vh_kind = kind, vh_peer = key_owner lib key,
                    vh_ephemeral_public_key = hp_ephemeral_public_key params,
                    vh_session_id = hp_session_id params, vh_nonce = hp_nonce params,
                    vh_mtu = hp_mtu params, vh_endpoint = hp_endpoint params\<rparr>
           else Err UnexpectedPeer)))"
proof -
  from assms(2) obtain k p s where k: "public_key_protobuf lib i = Ok k"
    and s: "identity_sign lib i p = Ok s"
    and h: "h = \<lparr>hs_kind = kind, hs_network_name = hp_network_name params, hs_public_key = k,
      hs_ephemeral_public_key = hp_ephemeral_public_key params, hs_session_id = hp_session_id params,
      hs_nonce = hp_nonce params, hs_mtu = hp_mtu params, hs_endpoint = hp_endpoint params, hs_signature = s\<rparr>"
    and p: "handshake_signing_payload show_addr (hs_kind h) (signing_fields h) = Ok p"
    by (auto simp: handshake_signed_def and_then_Inr_iff signing_fields_def)
  obtain key where key: "key_try_decode_protobuf lib k = Some key" "identity_public_key lib i = Ok key"
      "key_verify lib key p s"
    by (rule identity_sign_verifies [OF assms(1) s k])
  have "handshake_decode parse_addr bs = Ok h"
    using assms(4-7) by (intro handshake_decode_encode [OF assms(3)]) (simp_all add: h handshake_wf_def)
  moreover have "handshake_verify lib show_addr h (hp_network_name params) expected =
      (if expected \<in> {None, Some (key_owner lib key)}
       then Ok \<lparr>vh_kind = kind, vh_peer = key_owner lib key,
                vh_ephemeral_public_key = hp_ephemeral_public_key params,
                vh_session_id = hp_session_id params, vh_nonce = hp_nonce params,
                vh_mtu = hp_mtu params, vh_endpoint = hp_endpoint params\<rparr>
       else Err UnexpectedPeer)" for expected
  proof (cases "expected \<in> {None, Some (key_owner lib key)}")
    case True
    with p key assms(8) show ?thesis
      unfolding if_P [OF True] handshake_verify_Ok_iff by (auto simp: h)
  next
    case False
    with key assms(8) show ?thesis
      by (auto simp: h handshake_verify_def key_owner_def Let_def is_some_and_def split: option.splits)
  qed
  ultimately show ?thesis using key(2) by blast
qed

text \<open>
  C17: what an accepted handshake says is what its signer signed. If it verifies, the signature is
  valid for its signing payload under the key of the peer it is attributed to, the network and the
  expected peer match, and no other kind, network, key, session, nonce, MTU, ephemeral key or endpoint
  has the same signing payload.
\<close>

theorem verified_handshake_is_signed:
  assumes "handshake_verify lib show_addr h network expected = Ok v" and "handshake_wf h"
    and "parse_addr (show_addr (hs_endpoint h)) = Some (hs_endpoint h)"
  shows "\<exists>key p. key_try_decode_protobuf lib (hs_public_key h) = Some key \<and> vh_peer v = key_owner lib key \<and>
    handshake_signing_payload show_addr (vh_kind v) (signing_fields h) = Ok p \<and>
    key_verify lib key p (hs_signature h) \<and>
    network = hs_network_name h \<and> vh_mtu v \<noteq> 0 \<and> expected \<in> {None, Some (vh_peer v)} \<and>
    signing_fields h = \<lparr>sf_network_name = network, sf_public_key = hs_public_key h,
      sf_session_id = vh_session_id v, sf_nonce = vh_nonce v, sf_mtu = vh_mtu v,
      sf_ephemeral_public_key = vh_ephemeral_public_key v, sf_endpoint = vh_endpoint v\<rparr> \<and>
    (\<forall>kind' f. handshake_signing_payload show_addr kind' f = Ok p \<and>
       length (sf_ephemeral_public_key f) = 32 \<and>
       parse_addr (show_addr (sf_endpoint f)) = Some (sf_endpoint f) \<longrightarrow>
       kind' = vh_kind v \<and> f = signing_fields h)"
proof -
  from assms(1) obtain key p where
    key: "key_try_decode_protobuf lib (hs_public_key h) = Some key" "key_verify lib key p (hs_signature h)"
    and p: "handshake_signing_payload show_addr (hs_kind h) (signing_fields h) = Ok p"
    and v: "v = \<lparr>vh_kind = hs_kind h, vh_peer = key_owner lib key,
             vh_ephemeral_public_key = hs_ephemeral_public_key h, vh_session_id = hs_session_id h,
             vh_nonce = hs_nonce h, vh_mtu = hs_mtu h, vh_endpoint = hs_endpoint h\<rparr>"
    and ok: "hs_network_name h = network" "hs_mtu h \<noteq> 0" "expected \<in> {None, Some (key_owner lib key)}"
    unfolding handshake_verify_Ok_iff by blast
  have "kind' = hs_kind h \<and> f = signing_fields h"
    if "handshake_signing_payload show_addr kind' f = Ok p" "length (sf_ephemeral_public_key f) = 32"
      "parse_addr (show_addr (sf_endpoint f)) = Some (sf_endpoint f)" for kind' f
    using assms(2,3) that
    by (intro signing_payload_inj [OF p that(1), where parse_addr = parse_addr])
      (simp_all add: signing_fields_def handshake_wf_def)
  then show ?thesis
    using key p v ok by (intro exI [of _ key] exI [of _ p]) (auto simp: signing_fields_def)
qed

text \<open>
  For the witnesses, a library whose encodings are the identity and whose signature is the key followed
  by the message.
\<close>

definition sample_library :: "(bytes, bytes, bytes) identity_library" where
  "sample_library =
     \<lparr>base64_encode = id, base64_decode = Some, keypair_to_protobuf = Some, keypair_from_protobuf = Some,
      keypair_sign = (\<lambda>kp m. Some (kp @ m)), keypair_public = id, key_encode_protobuf = id,
      key_try_decode_protobuf = Some, key_verify = (\<lambda>key m s. s = key @ m), key_to_peer_id = id,
      libp2p_to_string = id, libp2p_from_str = Some, libp2p_to_bytes = id, digest_sha256 = id\<rparr>"

definition sample_show_addr :: "socket_addr \<Rightarrow> bytes" where
  "sample_show_addr a = (case a of SocketV4 ip port \<Rightarrow> [1] | SocketV6 _ _ _ _ \<Rightarrow> [2])"

definition sample_parse_addr :: "bytes \<Rightarrow> socket_addr option" where
  "sample_parse_addr bs = (if bs = [1] then Some (SocketV4 0x0a000001 4242) else None)"

definition sample_params :: handshake_params where
  "sample_params =
     \<lparr>hp_network_name = [0x6e], hp_session_id = 7, hp_nonce = 99, hp_mtu = 1280,
      hp_ephemeral_public_key = replicate 32 5, hp_endpoint = SocketV4 0x0a000001 4242\<rparr>"

definition sample_identity :: node_identity where
  "sample_identity = \<lparr>ni_peer_id = [3], ni_private_key = [3]\<rparr>"

definition sample_handshake :: handshake where
  "sample_handshake =
     (case handshake_signed sample_library sample_show_addr Hello sample_identity sample_params of
        Inr h \<Rightarrow> h)"

lemma sample_library_laws: "library_laws sample_library"
  by (simp add: library_laws_def sample_library_def)

lemma sample_handshake_signed:
  "handshake_signed sample_library sample_show_addr Hello sample_identity sample_params = Ok sample_handshake"
  "handshake_wf sample_handshake" "hs_endpoint sample_handshake = SocketV4 0x0a000001 4242"
  "\<exists>bs. handshake_encode sample_show_addr sample_handshake = Ok bs"
  by (simp_all add: sample_handshake_def handshake_signed_def public_key_protobuf_def identity_public_key_def
      identity_keypair_def identity_sign_def sample_library_def sample_identity_def sample_params_def
      handshake_signing_payload_def encode_len_prefixed_def sample_show_addr_def Let_def handshake_wf_def
      handshake_encode_def HANDSHAKE_SIGNING_DOMAIN_def utf8_cont_def)

theorem signed_handshake_accepted_witness:
  "\<exists>bs. handshake_encode sample_show_addr sample_handshake = Ok bs \<and>
     handshake_decode sample_parse_addr bs = Ok sample_handshake \<and>
     library_laws sample_library"
proof -
  obtain bs where bs: "handshake_encode sample_show_addr sample_handshake = Ok bs"
    using sample_handshake_signed(4) by blast
  have "handshake_decode sample_parse_addr bs = Ok sample_handshake"
    using signed_handshake_accepted [OF sample_library_laws sample_handshake_signed(1) bs,
        where parse_addr = sample_parse_addr]
    by (simp add: sample_params_def sample_show_addr_def sample_parse_addr_def)
  with bs sample_library_laws show ?thesis by blast
qed

theorem verified_handshake_is_signed_witness:
  "\<exists>v key p. handshake_verify sample_library sample_show_addr sample_handshake [0x6e] (Some (PeerId [3])) = Ok v \<and>
     vh_peer v = key_owner sample_library key \<and> key_verify sample_library key p (hs_signature sample_handshake)"
proof -
  have "\<exists>v. handshake_verify sample_library sample_show_addr sample_handshake [0x6e] (Some (PeerId [3])) = Ok v"
    by (simp add: sample_handshake_def handshake_signed_def public_key_protobuf_def identity_public_key_def
      identity_keypair_def identity_sign_def sample_library_def sample_identity_def sample_params_def
      handshake_signing_payload_def encode_len_prefixed_def sample_show_addr_def Let_def
      handshake_verify_def from_libp2p_def)
  then obtain v where
    v: "handshake_verify sample_library sample_show_addr sample_handshake [0x6e] (Some (PeerId [3])) = Ok v"
    by blast
  from verified_handshake_is_signed [OF v sample_handshake_signed(2), where parse_addr = sample_parse_addr]
  show ?thesis
    using v by (auto simp: sample_handshake_signed(3) sample_parse_addr_def sample_show_addr_def)
qed

end
