(* ===== verification/Plane_Session.thy ===== *)
theory Plane_Session
  imports Datagram Handshake Replay_Table
begin

text \<open>
  One session of the packet plane (\<open>src/src/runtime/packet_plane.rs\<close>): the keys both ends derive from
  the two verified handshakes and an X25519 exchange, and the replay windows that judge incoming
  datagrams. X25519, HKDF, SHA-256 and ChaCha20-Poly1305 belong to external crates and are gathered in
  a record. A key or a secret is its bytes.
\<close>

record crypto_library =
  x25519_public :: "bytes \<Rightarrow> bytes"
  x25519_diffie_hellman :: "bytes \<Rightarrow> bytes \<Rightarrow> bytes"
  hkdf_sha256 :: "bytes \<Rightarrow> bytes \<Rightarrow> bytes \<Rightarrow> bytes option"
  kdf_sha256 :: "bytes \<Rightarrow> bytes"
  chacha20_encrypt :: aead
  chacha20_decrypt :: aead

text \<open>\<open>SESSION_KDF_DOMAIN\<close> is the text \<open>p2p-vpn packet-plane session keys v1\<close>.\<close>

definition SESSION_KDF_DOMAIN :: bytes where
  "SESSION_KDF_DOMAIN =
     [0x70, 0x32, 0x70, 0x2d, 0x76, 0x70, 0x6e, 0x20, 0x70, 0x61, 0x63, 0x6b, 0x65, 0x74, 0x2d,
      0x70, 0x6c, 0x61, 0x6e, 0x65, 0x20, 0x73, 0x65, 0x73, 0x73, 0x69, 0x6f, 0x6e, 0x20, 0x6b,
      0x65, 0x79, 0x73, 0x20, 0x76, 0x31]"

text \<open>The labels \<open>hello-to-accept\<close> and \<open>accept-to-hello\<close>.\<close>

definition hello_to_accept_label :: bytes where
  "hello_to_accept_label =
     [0x68, 0x65, 0x6c, 0x6c, 0x6f, 0x2d, 0x74, 0x6f, 0x2d, 0x61, 0x63, 0x63, 0x65, 0x70, 0x74]"

definition accept_to_hello_label :: bytes where
  "accept_to_hello_label =
     [0x61, 0x63, 0x63, 0x65, 0x70, 0x74, 0x2d, 0x74, 0x6f, 0x2d, 0x68, 0x65, 0x6c, 0x6c, 0x6f]"

datatype session_role = Initiator | Responder

datatype session_error =
    LocalHandshakeKind session_role handshake_kind
  | RemoteHandshakeKind session_role handshake_kind
  | InvalidSharedSecret
  | KeyDerivation

record session_keys =
  sk_seal :: bytes
  sk_open :: bytes

subsection \<open>Session keys\<close>

definition ephemeral_public_key :: "crypto_library \<Rightarrow> bytes \<Rightarrow> bytes" where
  "ephemeral_public_key crypto secret = x25519_public crypto secret"

definition shared_secret :: "crypto_library \<Rightarrow> bytes \<Rightarrow> bytes \<Rightarrow> (bytes, session_error) result" where
  "shared_secret crypto secret remote_public_key =
     (let shared = x25519_diffie_hellman crypto secret remote_public_key in
      if shared = replicate 32 0 then Err InvalidSharedSecret else Ok shared)"

definition validate_session_kinds ::
    "session_role \<Rightarrow> handshake_kind \<Rightarrow> handshake_kind \<Rightarrow> (unit, session_error) result" where
  "validate_session_kinds role local_kind remote_kind =
     (let (expected_local, expected_remote) =
            (case role of Initiator \<Rightarrow> (Hello, Accept) | Responder \<Rightarrow> (Accept, Hello)) in
      if local_kind \<noteq> expected_local then Err (LocalHandshakeKind role local_kind)
      else if remote_kind \<noteq> expected_remote then Err (RemoteHandshakeKind role remote_kind)
      else Ok ())"

definition hash_verified_handshake :: "(socket_addr \<Rightarrow> bytes) \<Rightarrow> verified_handshake \<Rightarrow> bytes" where
  "hash_verified_handshake show_addr h =
     [handshake_kind_byte (vh_kind h)] @ as_bytes (vh_peer h) @ vh_ephemeral_public_key h
       @ to_be_bytes 4 (vh_session_id h) @ to_be_bytes 8 (vh_nonce h) @ to_be_bytes 2 (vh_mtu h)
       @ show_addr (vh_endpoint h)"

definition packet_plane_transcript_hash ::
    "crypto_library \<Rightarrow> (socket_addr \<Rightarrow> bytes) \<Rightarrow> verified_handshake \<Rightarrow> verified_handshake \<Rightarrow> bytes" where
  "packet_plane_transcript_hash crypto show_addr hello accept =
     kdf_sha256 crypto
       (SESSION_KDF_DOMAIN @ hash_verified_handshake show_addr hello
          @ hash_verified_handshake show_addr accept)"

definition derive_directional_key ::
    "crypto_library \<Rightarrow> (socket_addr \<Rightarrow> bytes) \<Rightarrow> bytes \<Rightarrow> verified_handshake \<Rightarrow> verified_handshake \<Rightarrow>
     bytes \<Rightarrow> (bytes, session_error) result" where
  "derive_directional_key crypto show_addr shared hello accept direction =
     ok_or (hkdf_sha256 crypto (packet_plane_transcript_hash crypto show_addr hello accept) shared direction)
       KeyDerivation"

definition session_keys_derive ::
    "crypto_library \<Rightarrow> (socket_addr \<Rightarrow> bytes) \<Rightarrow> session_role \<Rightarrow> bytes \<Rightarrow> verified_handshake \<Rightarrow>
     verified_handshake \<Rightarrow> (session_keys, session_error) result" where
  "session_keys_derive crypto show_addr role local_secret local_hs remote_hs =
     and_then (validate_session_kinds role (vh_kind local_hs) (vh_kind remote_hs)) (\<lambda>_.
     and_then (shared_secret crypto local_secret (vh_ephemeral_public_key remote_hs)) (\<lambda>shared.
       let (hello, accept) =
             (case role of Initiator \<Rightarrow> (local_hs, remote_hs) | Responder \<Rightarrow> (remote_hs, local_hs)) in
       and_then (derive_directional_key crypto show_addr shared hello accept hello_to_accept_label)
         (\<lambda>hello_to_accept.
       and_then (derive_directional_key crypto show_addr shared hello accept accept_to_hello_label)
         (\<lambda>accept_to_hello.
         let (seal, open_key) =
               (case role of Initiator \<Rightarrow> (hello_to_accept, accept_to_hello)
                           | Responder \<Rightarrow> (accept_to_hello, hello_to_accept))
         in Ok \<lparr>sk_seal = seal, sk_open = open_key\<rparr>))))"

subsection \<open>Sessions\<close>

record session_snapshot =
  ss_peer :: peer_id
  ss_endpoint :: socket_addr
  ss_mtu :: u16
  ss_role :: session_role
  ss_local_session_id :: session_id
  ss_remote_session_id :: session_id

text \<open>
  \<open>PacketPlaneReplayWindow\<close> has the fields of the forwarder's \<open>ReplayWindow\<close>, and its errors have the
  same two cases.
\<close>

type_synonym plane_replay_window = replay_window
type_synonym plane_replay_accept_error = replay_accept_error

definition PACKET_PLANE_REPLAY_WINDOW_BITS :: u64 where
  "PACKET_PLANE_REPLAY_WINDOW_BITS = 64"

definition plane_replay_window_new :: "instant \<Rightarrow> plane_replay_window" where
  "plane_replay_window_new now = \<lparr>rw_highest = None, rw_seen = 0, rw_updated_at = now\<rparr>"

definition plane_replay_accept ::
    "plane_replay_window \<Rightarrow> sequence \<Rightarrow> instant \<Rightarrow>
     (unit, plane_replay_accept_error) result \<times> plane_replay_window" where
  "plane_replay_accept w s now =
     (case rw_highest w of
        None \<Rightarrow> (Ok (), w\<lparr>rw_highest := Some s, rw_seen := 1, rw_updated_at := now\<rparr>)
      | Some highest \<Rightarrow>
          if s > highest then
            (let shift = s - highest;
                 seen = (if shift \<ge> PACKET_PLANE_REPLAY_WINDOW_BITS then 1
                         else push_bit (unat shift) (rw_seen w) OR 1)
             in (Ok (), w\<lparr>rw_seen := seen, rw_highest := Some s, rw_updated_at := now\<rparr>))
          else
            (let offset = highest - s in
             if offset \<ge> PACKET_PLANE_REPLAY_WINDOW_BITS then (Err TooOld, w)
             else
               let b = push_bit (unat offset) 1 in
               if rw_seen w AND b \<noteq> 0 then (Err Duplicate, w)
               else (Ok (), w\<lparr>rw_seen := rw_seen w OR b, rw_updated_at := now\<rparr>)))"

record plane_session =
  ps_peer :: peer_id
  ps_endpoint :: socket_addr
  ps_mtu :: u16
  ps_role :: session_role
  ps_local_session_id :: session_id
  ps_remote_session_id :: session_id
  ps_established_at :: instant
  ps_keys :: session_keys
  ps_replay_windows :: "(session_id, plane_replay_window) hash_map"
  ps_max_replay_windows :: usize

definition session_snapshot_of :: "plane_session \<Rightarrow> session_snapshot" where
  "session_snapshot_of s =
     \<lparr>ss_peer = ps_peer s, ss_endpoint = ps_endpoint s, ss_mtu = ps_mtu s, ss_role = ps_role s,
      ss_local_session_id = ps_local_session_id s, ss_remote_session_id = ps_remote_session_id s\<rparr>"

definition session_prune_oldest_replay_window :: "plane_session \<Rightarrow> plane_session" where
  "session_prune_oldest_replay_window s =
     s\<lparr>ps_replay_windows := evict_oldest rw_updated_at (ps_replay_windows s)\<rparr>"

definition accept_datagram_at ::
    "plane_session \<Rightarrow> frame \<Rightarrow> instant \<Rightarrow> (unit, datagram_error) result \<times> plane_session" where
  "accept_datagram_at session frame now =
     (let session_id = hdr_session_id (frame_header frame);
          sequence = hdr_sequence (frame_header frame);
          session =
            (if length (ps_replay_windows session) \<ge> ps_max_replay_windows session \<and>
                \<not> hm_contains (ps_replay_windows session) session_id
             then session_prune_oldest_replay_window session else session);
          window = (case hm_get (ps_replay_windows session) session_id of
                      Some w \<Rightarrow> w | None \<Rightarrow> plane_replay_window_new now);
          (accepted, window) = plane_replay_accept window sequence now
      in (map_err (\<lambda>e. case e of
              Duplicate \<Rightarrow> ReplayedDatagram session_id sequence
            | TooOld \<Rightarrow> DatagramOutsideReplayWindow session_id sequence) accepted,
          session\<lparr>ps_replay_windows := hm_insert (ps_replay_windows session) session_id window\<rparr>))"

subsection \<open>Both ends derive the same keys\<close>

definition swap_keys :: "session_keys \<Rightarrow> session_keys" where
  "swap_keys k = \<lparr>sk_seal = sk_open k, sk_open = sk_seal k\<rparr>"

text \<open>
  C16: the two ends of a handshake agree. When each derives keys from its own secret and the same two
  verified handshakes, and the exchange gives both the same shared secret, one succeeds exactly when
  the other does, and the initiator seals with the key the responder opens with and conversely.
\<close>

theorem session_keys_agree:
  assumes "vh_kind hello = Hello" and "vh_kind accept = Accept"
    and "vh_ephemeral_public_key hello = ephemeral_public_key crypto a"
    and "vh_ephemeral_public_key accept = ephemeral_public_key crypto b"
    and "x25519_diffie_hellman crypto a (x25519_public crypto b) =
         x25519_diffie_hellman crypto b (x25519_public crypto a)"
  shows "session_keys_derive crypto show_addr Initiator a hello accept = Ok k \<longleftrightarrow>
         session_keys_derive crypto show_addr Responder b accept hello = Ok (swap_keys k)"
  using assms
  by (cases k) (auto simp: session_keys_derive_def validate_session_kinds_def shared_secret_def
      ephemeral_public_key_def swap_keys_def and_then_Inr_iff Let_def)

text \<open>
  For the witnesses: an exchange that adds the bytes of the secrets, a key derivation that returns
  the label, and the sample cipher.
\<close>

definition sample_crypto :: crypto_library where
  "sample_crypto =
     \<lparr>x25519_public = id,
      x25519_diffie_hellman = (\<lambda>a b. map (\<lambda>(x, y). x + y) (zip a b)),
      hkdf_sha256 = (\<lambda>salt shared info. Some info), kdf_sha256 = id,
      chacha20_encrypt = sample_encrypt, chacha20_decrypt = sample_decrypt\<rparr>"

definition sample_hello :: verified_handshake where
  "sample_hello =
     \<lparr>vh_kind = Hello, vh_peer = PeerId [1], vh_ephemeral_public_key = [1], vh_session_id = 7,
      vh_nonce = 1, vh_mtu = 60, vh_endpoint = SocketV4 0x0a000001 1\<rparr>"

definition sample_accept :: verified_handshake where
  "sample_accept =
     \<lparr>vh_kind = Accept, vh_peer = PeerId [2], vh_ephemeral_public_key = [2], vh_session_id = 8,
      vh_nonce = 2, vh_mtu = 50, vh_endpoint = SocketV4 0x0a000002 2\<rparr>"

definition sample_keys :: session_keys where
  "sample_keys = \<lparr>sk_seal = hello_to_accept_label, sk_open = accept_to_hello_label\<rparr>"

lemma sample_keys_derived:
  "session_keys_derive sample_crypto sample_show_addr Initiator [1] sample_hello sample_accept = Ok sample_keys"
proof -
  have "[3] \<noteq> replicate 32 (0 :: u8)" by (simp add: numeral_eq_Suc)
  then show ?thesis
    by (simp add: session_keys_derive_def validate_session_kinds_def shared_secret_def Let_def
        derive_directional_key_def sample_crypto_def sample_hello_def sample_accept_def sample_keys_def)
qed

theorem session_keys_agree_witness:
  "session_keys_derive sample_crypto sample_show_addr Responder [2] sample_accept sample_hello =
     Ok (swap_keys sample_keys)"
proof -
  have "vh_kind sample_hello = Hello" "vh_kind sample_accept = Accept"
    "vh_ephemeral_public_key sample_hello = ephemeral_public_key sample_crypto [1]"
    "vh_ephemeral_public_key sample_accept = ephemeral_public_key sample_crypto [2]"
    "x25519_diffie_hellman sample_crypto [1] (x25519_public sample_crypto [2]) =
     x25519_diffie_hellman sample_crypto [2] (x25519_public sample_crypto [1])"
    by (simp_all add: sample_hello_def sample_accept_def ephemeral_public_key_def sample_crypto_def)
  with sample_keys_derived show ?thesis using session_keys_agree by metis
qed

subsection \<open>Replayed datagrams\<close>

text \<open>
  The packet plane's replay window and the forwarder's, written separately in the source, judge every
  sequence the same way.
\<close>

lemma plane_replay_window_eqs:
  "plane_replay_window_new = replay_window_new" "plane_replay_accept = replay_accept"
proof -
  have bits: "PACKET_PLANE_REPLAY_WINDOW_BITS = REPLAY_WINDOW_BITS"
    by (simp add: PACKET_PLANE_REPLAY_WINDOW_BITS_def REPLAY_WINDOW_BITS_def)
  show "plane_replay_window_new = replay_window_new" "plane_replay_accept = replay_accept"
    unfolding fun_eq_iff plane_replay_window_new_def replay_window_new_def plane_replay_accept_def
      replay_accept_def bits by blast+
qed

definition session_room :: "plane_session \<Rightarrow> session_id \<Rightarrow> session_id replay_windows" where
  "session_room s key = evict_if_full (ps_max_replay_windows s) rw_updated_at (ps_replay_windows s) key"

definition datagram_replay_error :: "session_id \<Rightarrow> sequence \<Rightarrow> replay_accept_error \<Rightarrow> datagram_error" where
  "datagram_replay_error session_id sequence e =
     (case e of Duplicate \<Rightarrow> ReplayedDatagram session_id sequence
              | TooOld \<Rightarrow> DatagramOutsideReplayWindow session_id sequence)"

lemma accept_datagram_at_eq:
  "accept_datagram_at session frame now =
     (let key = hdr_session_id (frame_header frame); s = hdr_sequence (frame_header frame);
          out = judge_sequence (session_room session key) key s now
      in (map_err (datagram_replay_error key s) (fst out), session\<lparr>ps_replay_windows := snd out\<rparr>))"
  unfolding accept_datagram_at_def plane_replay_window_eqs
  by (simp add: session_prune_oldest_replay_window_def session_room_def evict_if_full_def window_for_def
      judge_sequence_def datagram_replay_error_def [abs_def] Let_def case_prod_unfold)

text \<open>
  A session as datagrams arrive, with the history its windows still represent. The limit on windows is
  at least one: the runtime is created with \<open>max_replay_windows_per_session.max(1)\<close>.
\<close>

inductive session_run :: "plane_session \<Rightarrow> session_id replay_history \<Rightarrow> bool" where
  session_start: "ps_replay_windows s = [] \<Longrightarrow> 0 < ps_max_replay_windows s \<Longrightarrow> session_run s (\<lambda>_. {})"
| session_datagram: "session_run s A \<Longrightarrow>
    session_run (snd (accept_datagram_at s frame now))
      (let key = hdr_session_id (frame_header frame); q = hdr_sequence (frame_header frame)
       in noted (kept_history (session_room s key) A) key q
            (fst (judge_sequence (session_room s key) key q now)))"

definition session_inv :: "plane_session \<Rightarrow> session_id replay_history \<Rightarrow> bool" where
  "session_inv s A \<longleftrightarrow> table_represents (ps_replay_windows s) A \<and>
     length (ps_replay_windows s) \<le> ps_max_replay_windows s \<and> 0 < ps_max_replay_windows s"

interpretation session_table: replay_registry "evict_if_full (Suc n) rw_updated_at" "Suc n" for n
  by (rule evict_if_full_registry) simp

lemma session_room_inv:
  assumes "session_inv s A"
  shows "table_represents (session_room s key) (kept_history (session_room s key) A)"
    and "kept_history (session_room s key) A key = A key"
    and "length (snd (judge_sequence (session_room s key) key q now)) \<le> ps_max_replay_windows s"
proof -
  from assms obtain n where n: "ps_max_replay_windows s = Suc n"
    by (cases "ps_max_replay_windows s") (auto simp: session_inv_def)
  have tab: "table_represents (ps_replay_windows s) A" and len: "length (ps_replay_windows s) \<le> Suc n"
    using assms n by (simp_all add: session_inv_def)
  show "table_represents (session_room s key) (kept_history (session_room s key) A)"
    and "kept_history (session_room s key) A key = A key"
    and "length (snd (judge_sequence (session_room s key) key q now)) \<le> ps_max_replay_windows s"
    unfolding session_room_def n
    by (rule session_table.room_represents [OF tab], rule session_table.own_history_kept [OF tab],
        rule session_table.judged_bounded [OF table_represents_wf [OF tab] len])
qed

lemma session_run_inv: "session_run s A \<Longrightarrow> session_inv s A"
proof (induction rule: session_run.induct)
  case (session_start s)
  then show ?case by (simp add: session_inv_def table_represents_Nil)
next
  case (session_datagram s A frame now)
  let ?key = "hdr_session_id (frame_header frame)" and ?q = "hdr_sequence (frame_header frame)"
  from judge_sequence_represents [OF session_room_inv(1) [OF session_datagram.IH, of ?key], of ?key ?q now]
    session_room_inv(3) [OF session_datagram.IH, of ?key ?q now] session_datagram.IH
  show ?case by (simp add: session_inv_def accept_datagram_at_eq Let_def)
qed

text \<open>
  within a session of the packet plane a datagram is accepted exactly when its epoch and sequence
  were not accepted since the epoch's window was created and the sequence is less than 64 behind; its
  own epoch's window is never given up for it, and the number of windows stays within the limit.
\<close>

theorem replayed_datagrams_rejected:
  fixes s :: plane_session and frame :: frame and now :: instant
  assumes "session_run s A"
  defines "key \<equiv> hdr_session_id (frame_header frame)" and "q \<equiv> hdr_sequence (frame_header frame)"
    and "r \<equiv> fst (accept_datagram_at s frame now)"
  shows "(r = Ok () \<longleftrightarrow> unat q \<notin> A key \<and> \<not> too_old (A key) q) \<and>
    (r = Err (ReplayedDatagram key q) \<longleftrightarrow> unat q \<in> A key \<and> \<not> too_old (A key) q) \<and>
    (r = Err (DatagramOutsideReplayWindow key q) \<longleftrightarrow> too_old (A key) q) \<and>
    length (ps_replay_windows (snd (accept_datagram_at s frame now))) \<le> ps_max_replay_windows s"
proof -
  have inv: "session_inv s A" by (rule session_run_inv [OF assms(1)])
  let ?out = "judge_sequence (session_room s key) key q now"
  have r: "r = map_err (datagram_replay_error key q) (fst ?out)"
    by (simp add: r_def accept_datagram_at_eq key_def q_def Let_def)
  have "map_err (datagram_replay_error key q) x = Ok () \<longleftrightarrow> x = Ok ()"
    "map_err (datagram_replay_error key q) x = Err (ReplayedDatagram key q) \<longleftrightarrow> x = Err Duplicate"
    "map_err (datagram_replay_error key q) x = Err (DatagramOutsideReplayWindow key q) \<longleftrightarrow> x = Err TooOld"
    for x :: "(unit, replay_accept_error) result"
    by (cases x; auto simp: datagram_replay_error_def split: replay_accept_error.splits)+
  with judge_sequence_result [OF session_room_inv(1) [OF inv, of key], of key q now]
    session_room_inv(2) [OF inv, of key] session_room_inv(3) [OF inv, of key q now]
  show ?thesis unfolding r by (simp add: accept_datagram_at_eq key_def q_def Let_def)
qed

definition sample_session :: plane_session where
  "sample_session =
     \<lparr>ps_peer = PeerId [2], ps_endpoint = SocketV4 0x0a000002 2, ps_mtu = 50, ps_role = Initiator,
      ps_local_session_id = 7, ps_remote_session_id = 8, ps_established_at = 0, ps_keys = sample_keys,
      ps_replay_windows = [], ps_max_replay_windows = 2\<rparr>"

end
