(* ===== verification/Packet_Plane.thy ===== *)
theory Packet_Plane
  imports Plane_Session
begin

text \<open>
  The UDP packet plane (\<open>PacketPlaneRuntime\<close> in \<open>src/src/runtime/packet_plane.rs\<close>): the sessions by
  peer, the index from endpoints to peers, the lifetime of each session, and the sessions retired by a
  renewal. A socket is its local address. Time is an argument; a received datagram and its source
  address are arguments of the receiving operations, and a sending operation returns the endpoint and
  the datagram it hands to the socket. Where the source indexes a map or unwraps an option, \<open>None\<close> is
  the panic.
\<close>

record retiring_session =
  rs_session :: plane_session
  rs_lifetime :: duration
  rs_use_for_tx :: bool

record plane_runtime =
  pr_sockets :: "socket_addr list"
  pr_listeners :: "socket_addr list"
  pr_sessions :: "(peer_id, plane_session) hash_map"
  pr_session_endpoints :: "(socket_addr, peer_id list) hash_map"
  pr_max_replay_windows_per_session :: usize
  pr_session_ttl :: duration
  pr_session_lifetimes :: "(peer_id, duration) hash_map"
  pr_retiring_sessions :: "(peer_id, retiring_session) hash_map"

record plane_snapshot =
  snap_listeners :: "socket_addr list"
  snap_sessions :: "session_snapshot list"

record received_frame =
  rf_frame :: frame
  rf_peer :: "peer_id option"
  rf_remote_addr :: socket_addr
  rf_local_addr :: socket_addr

datatype plane_io_error =
    NoListener usize
  | NoSession peer_id
  | NoSessions
  | UnknownEndpoint socket_addr
  | UnexpectedEndpoint peer_id socket_addr socket_addr
  | PlaneDatagram datagram_error

definition default_packet_plane_session_ttl_seconds :: nat where
  "default_packet_plane_session_ttl_seconds = 10 * 60"

definition default_packet_plane_replay_windows_per_session :: usize where
  "default_packet_plane_replay_windows_per_session = 1024"

text \<open>Durations and instants count nanoseconds.\<close>

definition from_secs :: "nat \<Rightarrow> duration" where
  "from_secs n = n * 1000000000"

definition plane_default :: plane_runtime where
  "plane_default =
     \<lparr>pr_sockets = [], pr_listeners = [], pr_sessions = [], pr_session_endpoints = [],
      pr_max_replay_windows_per_session = default_packet_plane_replay_windows_per_session,
      pr_session_ttl = from_secs default_packet_plane_session_ttl_seconds,
      pr_session_lifetimes = [], pr_retiring_sessions = []\<rparr>"

text \<open>Binding the listen addresses gives sockets with the local addresses \<open>local_addrs\<close>.\<close>

definition plane_bind_with_replay_window_limit :: "socket_addr list \<Rightarrow> usize \<Rightarrow> plane_runtime" where
  "plane_bind_with_replay_window_limit local_addrs max_replay_windows_per_session =
     plane_default
       \<lparr>pr_sockets := local_addrs, pr_listeners := local_addrs,
        pr_max_replay_windows_per_session := max max_replay_windows_per_session 1\<rparr>"

definition snapshot_key :: "session_snapshot \<Rightarrow> bytes" where
  "snapshot_key s = peer_id_display (ss_peer s)"

definition plane_snapshot_of :: "plane_runtime \<Rightarrow> plane_snapshot" where
  "plane_snapshot_of p =
     \<lparr>snap_listeners = pr_listeners p,
      snap_sessions = sort_key snapshot_key (map (session_snapshot_of \<circ> snd) (pr_sessions p))\<rparr>"

definition session_mtu_for :: "plane_runtime \<Rightarrow> peer_id \<Rightarrow> u16 option" where
  "session_mtu_for p peer = map_option ps_mtu (hm_get (pr_sessions p) peer)"

definition session_endpoint_for :: "plane_runtime \<Rightarrow> peer_id \<Rightarrow> socket_addr option" where
  "session_endpoint_for p peer = map_option ps_endpoint (hm_get (pr_sessions p) peer)"

definition plane_can_receive :: "plane_runtime \<Rightarrow> bool" where
  "plane_can_receive p \<longleftrightarrow> pr_sockets p \<noteq> [] \<and> pr_sessions p \<noteq> []"

subsection \<open>Lifetimes and renewal\<close>

definition set_session_ttl :: "plane_runtime \<Rightarrow> duration \<Rightarrow> plane_runtime" where
  "set_session_ttl p ttl =
     p\<lparr>pr_session_ttl := ttl,
       pr_session_lifetimes := map (\<lambda>(peer, lifetime). (peer, min lifetime ttl)) (pr_session_lifetimes p),
       pr_retiring_sessions :=
         map (\<lambda>(peer, r). (peer, r\<lparr>rs_lifetime := min (rs_lifetime r) ttl\<rparr>)) (pr_retiring_sessions p)\<rparr>"

definition renewal_due_for_peer :: "plane_runtime \<Rightarrow> peer_id \<Rightarrow> instant \<Rightarrow> bool option" where
  "renewal_due_for_peer p peer now =
     (case hm_get (pr_sessions p) peer of
        None \<Rightarrow> Some False
      | Some session \<Rightarrow>
          (case hm_get (pr_session_lifetimes p) peer of
             None \<Rightarrow> None
           | Some lifetime \<Rightarrow>
               let ttl = min lifetime (pr_session_ttl p);
                   lead = min (ttl div 4) (from_secs 60);
                   age = now - ps_established_at session
               in Some (ps_role session = Initiator \<and> age \<ge> ttl - lead \<and> age < ttl)))"

fun filter_due :: "plane_runtime \<Rightarrow> instant \<Rightarrow> peer_id list \<Rightarrow> peer_id list option" where
  "filter_due p now [] = Some []"
| "filter_due p now (peer # rest) =
     (case renewal_due_for_peer p peer now of
        None \<Rightarrow> None
      | Some due \<Rightarrow> map_option (\<lambda>peers. if due then peer # peers else peers) (filter_due p now rest))"

definition renewal_due_peers :: "plane_runtime \<Rightarrow> instant \<Rightarrow> peer_id list option" where
  "renewal_due_peers p now =
     map_option (sort_key peer_id_display) (filter_due p now (map fst (pr_sessions p)))"

definition has_retiring_session :: "plane_runtime \<Rightarrow> peer_id \<Rightarrow> instant \<Rightarrow> bool" where
  "has_retiring_session p peer now =
     is_some_and (\<lambda>retiring.
       is_some_and (\<lambda>current.
         ps_endpoint current = ps_endpoint (rs_session retiring) \<and>
         now - ps_established_at (rs_session retiring) < rs_lifetime retiring)
       (hm_get (pr_sessions p) peer)) (hm_get (pr_retiring_sessions p) peer)"

subsection \<open>Installing sessions\<close>

definition insert_endpoint_mapping :: "plane_runtime \<Rightarrow> socket_addr \<Rightarrow> peer_id \<Rightarrow> plane_runtime" where
  "insert_endpoint_mapping p endpoint peer =
     (let peers = (case hm_get (pr_session_endpoints p) endpoint of Some peers \<Rightarrow> peers | None \<Rightarrow> []);
          peers = (if peer \<in> set peers then peers else peers @ [peer])
      in p\<lparr>pr_session_endpoints := hm_insert (pr_session_endpoints p) endpoint peers\<rparr>)"

definition remove_endpoint_mapping :: "plane_runtime \<Rightarrow> peer_id \<Rightarrow> socket_addr \<Rightarrow> plane_runtime" where
  "remove_endpoint_mapping p peer endpoint =
     (case hm_get (pr_session_endpoints p) endpoint of
        None \<Rightarrow> p
      | Some peers \<Rightarrow>
          (let peers = filter (\<lambda>candidate. candidate \<noteq> peer) peers
           in if peers = []
              then p\<lparr>pr_session_endpoints := hm_remove (pr_session_endpoints p) endpoint\<rparr>
              else p\<lparr>pr_session_endpoints := hm_insert (pr_session_endpoints p) endpoint peers\<rparr>))"

definition install_session ::
    "crypto_library \<Rightarrow> (socket_addr \<Rightarrow> bytes) \<Rightarrow> plane_runtime \<Rightarrow> session_role \<Rightarrow> bytes \<Rightarrow>
     verified_handshake \<Rightarrow> verified_handshake \<Rightarrow> instant \<Rightarrow> bool \<Rightarrow>
     (session_snapshot, session_error) result \<times> plane_runtime" where
  "install_session crypto show_addr p role local_secret local_hs remote_hs established_at overlapping =
     (case session_keys_derive crypto show_addr role local_secret local_hs remote_hs of
        Inl e \<Rightarrow> (Err e, p)
      | Inr keys \<Rightarrow>
          let remote_peer = vh_peer remote_hs;
              endpoint = vh_endpoint remote_hs;
              session =
                \<lparr>ps_peer = remote_peer, ps_endpoint = endpoint,
                 ps_mtu = min (vh_mtu local_hs) (vh_mtu remote_hs), ps_role = role,
                 ps_local_session_id = vh_session_id local_hs,
                 ps_remote_session_id = vh_session_id remote_hs,
                 ps_established_at = established_at, ps_keys = keys, ps_replay_windows = [],
                 ps_max_replay_windows = pr_max_replay_windows_per_session p\<rparr>;
              snapshot = session_snapshot_of session;
              previous = hm_get (pr_sessions p) remote_peer;
              lifetime = hm_get (pr_session_lifetimes p) remote_peer;
              retiring = hm_get (pr_retiring_sessions p) remote_peer;
              p = (case previous of
                     Some s \<Rightarrow> remove_endpoint_mapping p remote_peer (ps_endpoint s)
                   | None \<Rightarrow> p);
              p = insert_endpoint_mapping p endpoint remote_peer;
              p = p\<lparr>pr_sessions := hm_insert (pr_sessions p) remote_peer session,
                    pr_session_lifetimes :=
                      hm_insert (pr_session_lifetimes p) remote_peer (pr_session_ttl p),
                    pr_retiring_sessions := hm_remove (pr_retiring_sessions p) remote_peer\<rparr>;
              still_sending = (case retiring of
                None \<Rightarrow> None
              | Some r \<Rightarrow>
                  if rs_use_for_tx r \<and> ps_endpoint (rs_session r) = endpoint \<and>
                     established_at - ps_established_at (rs_session r) < rs_lifetime r
                  then Some r else None)
          in (case (overlapping \<and> role = Responder, still_sending) of
                (True, Some r) \<Rightarrow>
                  (Ok snapshot,
                   p\<lparr>pr_retiring_sessions := hm_insert (pr_retiring_sessions p) remote_peer r\<rparr>)
              | _ \<Rightarrow>
                  (case (overlapping, previous, lifetime) of
                     (True, Some s, Some l) \<Rightarrow>
                       (let l = min l (pr_session_ttl p) in
                        if ps_endpoint s = endpoint \<and> established_at - ps_established_at s < l
                        then (Ok snapshot,
                              p\<lparr>pr_retiring_sessions := hm_insert (pr_retiring_sessions p) remote_peer
                                 \<lparr>rs_session = s, rs_lifetime = l, rs_use_for_tx = (role = Responder)\<rparr>\<rparr>)
                        else (Ok snapshot, p))
                   | _ \<Rightarrow> (Ok snapshot, p))))"

definition establish_session_at ::
    "crypto_library \<Rightarrow> (socket_addr \<Rightarrow> bytes) \<Rightarrow> plane_runtime \<Rightarrow> session_role \<Rightarrow> bytes \<Rightarrow>
     verified_handshake \<Rightarrow> verified_handshake \<Rightarrow> instant \<Rightarrow>
     (session_snapshot, session_error) result \<times> plane_runtime" where
  "establish_session_at crypto show_addr p role local_secret local_hs remote_hs established_at =
     install_session crypto show_addr p role local_secret local_hs remote_hs established_at False"

definition establish_session_overlapping ::
    "crypto_library \<Rightarrow> (socket_addr \<Rightarrow> bytes) \<Rightarrow> plane_runtime \<Rightarrow> session_role \<Rightarrow> bytes \<Rightarrow>
     verified_handshake \<Rightarrow> verified_handshake \<Rightarrow> instant \<Rightarrow>
     (session_snapshot, session_error) result \<times> plane_runtime" where
  "establish_session_overlapping crypto show_addr p role local_secret local_hs remote_hs now =
     install_session crypto show_addr p role local_secret local_hs remote_hs now True"

subsection \<open>Forgetting and expiring sessions\<close>

definition forget_all_sessions :: "plane_runtime \<Rightarrow> session_snapshot list \<times> plane_runtime" where
  "forget_all_sessions p =
     (sort_key snapshot_key (map (session_snapshot_of \<circ> snd) (pr_sessions p)),
      p\<lparr>pr_sessions := [], pr_session_endpoints := [], pr_session_lifetimes := [],
        pr_retiring_sessions := []\<rparr>)"

definition plane_forget_peer :: "plane_runtime \<Rightarrow> peer_id \<Rightarrow> bool \<times> plane_runtime" where
  "plane_forget_peer p peer =
     (let session = hm_get (pr_sessions p) peer;
          p = p\<lparr>pr_session_lifetimes := hm_remove (pr_session_lifetimes p) peer,
                pr_retiring_sessions := hm_remove (pr_retiring_sessions p) peer\<rparr>
      in case session of
           None \<Rightarrow> (False, p)
         | Some s \<Rightarrow>
             (True, remove_endpoint_mapping (p\<lparr>pr_sessions := hm_remove (pr_sessions p) peer\<rparr>) peer
                      (ps_endpoint s)))"

fun expired_peers ::
    "(peer_id, duration) hash_map \<Rightarrow> instant \<Rightarrow> duration \<Rightarrow> (peer_id \<times> plane_session) list \<Rightarrow>
     peer_id list option" where
  "expired_peers lifetimes now max_age [] = Some []"
| "expired_peers lifetimes now max_age ((peer, session) # rest) =
     (case hm_get lifetimes peer of
        None \<Rightarrow> None
      | Some lifetime \<Rightarrow>
          map_option (\<lambda>peers.
              if now - ps_established_at session \<ge> min lifetime max_age then peer # peers else peers)
            (expired_peers lifetimes now max_age rest))"

fun remove_expired :: "plane_runtime \<Rightarrow> peer_id list \<Rightarrow> session_snapshot list \<times> plane_runtime" where
  "remove_expired p [] = ([], p)"
| "remove_expired p (peer # rest) =
     (case hm_get (pr_sessions p) peer of
        None \<Rightarrow> remove_expired p rest
      | Some session \<Rightarrow>
          (let p = p\<lparr>pr_sessions := hm_remove (pr_sessions p) peer,
                    pr_session_lifetimes := hm_remove (pr_session_lifetimes p) peer,
                    pr_retiring_sessions := hm_remove (pr_retiring_sessions p) peer\<rparr>;
               p = remove_endpoint_mapping p peer (ps_endpoint session);
               (snapshots, p) = remove_expired p rest
           in (session_snapshot_of session # snapshots, p)))"

definition expire_sessions_at ::
    "plane_runtime \<Rightarrow> instant \<Rightarrow> duration \<Rightarrow> (session_snapshot list \<times> plane_runtime) option" where
  "expire_sessions_at p now max_age =
     (let retiring = map (\<lambda>(peer, r). (peer, r\<lparr>rs_lifetime := min (rs_lifetime r) max_age\<rparr>))
                       (pr_retiring_sessions p);
          retiring = hm_retain (\<lambda>_ r. now - ps_established_at (rs_session r) < rs_lifetime r) retiring;
          p = p\<lparr>pr_retiring_sessions := retiring\<rparr>
      in case expired_peers (pr_session_lifetimes p) now max_age (pr_sessions p) of
           None \<Rightarrow> None
         | Some peers \<Rightarrow>
             (let (snapshots, p) = remove_expired p peers
              in Some (sort_key snapshot_key snapshots, p)))"

subsection \<open>Sending\<close>

definition send_frame_from ::
    "crypto_library \<Rightarrow> plane_runtime \<Rightarrow> usize \<Rightarrow> socket_addr \<Rightarrow> bytes \<Rightarrow> frame \<Rightarrow>
     (socket_addr \<times> bytes, plane_io_error) result" where
  "send_frame_from crypto p listener_index endpoint key frame =
     (if listener_index \<ge> length (pr_sockets p) then Err (NoListener listener_index)
      else
        and_then (map_err PlaneDatagram (seal_frame (chacha20_encrypt crypto) key frame)) (\<lambda>datagram.
          Ok (endpoint, datagram)))"

text \<open>The session whose key seals a frame for a peer.\<close>

definition tx_session :: "plane_runtime \<Rightarrow> peer_id \<Rightarrow> instant \<Rightarrow> plane_session option" where
  "tx_session p peer now =
     (case hm_get (pr_sessions p) peer of
        None \<Rightarrow> None
      | Some session \<Rightarrow>
          (case hm_get (pr_retiring_sessions p) peer of
             None \<Rightarrow> Some session
           | Some r \<Rightarrow>
               if rs_use_for_tx r \<and> ps_endpoint (rs_session r) = ps_endpoint session \<and>
                  now - ps_established_at (rs_session r) < rs_lifetime r
               then Some (rs_session r) else Some session))"

definition send_frame_to_peer_from ::
    "crypto_library \<Rightarrow> plane_runtime \<Rightarrow> usize \<Rightarrow> peer_id \<Rightarrow> frame \<Rightarrow> instant \<Rightarrow>
     (socket_addr \<times> bytes, plane_io_error) result" where
  "send_frame_to_peer_from crypto p listener_index peer frame now =
     and_then (ok_or (tx_session p peer now) (NoSession peer)) (\<lambda>session.
       let payload_len = length (frame_payload frame) in
       if payload_len > unat (ps_mtu session)
       then Err (PlaneDatagram (DatagramPayloadTooLarge payload_len (unat (ps_mtu session))))
       else send_frame_from crypto p listener_index (ps_endpoint session) (sk_seal (ps_keys session)) frame)"

subsection \<open>Receiving\<close>

definition open_session_datagram ::
    "crypto_library \<Rightarrow> plane_runtime \<Rightarrow> peer_id \<Rightarrow> bytes \<Rightarrow> instant \<Rightarrow>
     ((frame, datagram_error) result \<times> plane_runtime) option" where
  "open_session_datagram crypto p peer datagram now =
     (case hm_get (pr_sessions p) peer of
        None \<Rightarrow> None
      | Some session \<Rightarrow> Some
          (case open_frame (chacha20_decrypt crypto) (sk_open (ps_keys session)) datagram
                  (unat (ps_mtu session)) of
             Inr frame \<Rightarrow>
               (let (accepted, session) = accept_datagram_at session frame now;
                    p = p\<lparr>pr_sessions := hm_insert (pr_sessions p) peer session\<rparr>
                in case accepted of
                     Inl e \<Rightarrow> (Err e, p)
                   | Inr _ \<Rightarrow>
                       (Ok frame,
                        case hm_get (pr_retiring_sessions p) peer of
                          None \<Rightarrow> p
                        | Some r \<Rightarrow>
                            p\<lparr>pr_retiring_sessions :=
                                hm_insert (pr_retiring_sessions p) peer (r\<lparr>rs_use_for_tx := False\<rparr>)\<rparr>))
           | Inl error \<Rightarrow>
               (case hm_get (pr_retiring_sessions p) peer of
                  None \<Rightarrow> (Err error, p)
                | Some r \<Rightarrow>
                    if \<not> (ps_endpoint (rs_session r) = ps_endpoint session \<and>
                          now - ps_established_at (rs_session r) < rs_lifetime r)
                    then (Err error, p)
                    else
                      (case open_frame (chacha20_decrypt crypto) (sk_open (ps_keys (rs_session r)))
                              datagram (unat (ps_mtu (rs_session r))) of
                         Inl e \<Rightarrow> (Err e, p)
                       | Inr frame \<Rightarrow>
                           (let (accepted, old) = accept_datagram_at (rs_session r) frame now;
                                p = p\<lparr>pr_retiring_sessions :=
                                       hm_insert (pr_retiring_sessions p) peer (r\<lparr>rs_session := old\<rparr>)\<rparr>
                            in (and_then accepted (\<lambda>_. Ok frame), p))))))"

definition recv_frame_from_peer_on ::
    "crypto_library \<Rightarrow> plane_runtime \<Rightarrow> usize \<Rightarrow> peer_id \<Rightarrow> bytes \<Rightarrow> socket_addr \<Rightarrow> instant \<Rightarrow>
     ((received_frame, plane_io_error) result \<times> plane_runtime) option" where
  "recv_frame_from_peer_on crypto p listener_index peer datagram remote_addr now =
     (case hm_get (pr_sessions p) peer of
        None \<Rightarrow> Some (Err (NoSession peer), p)
      | Some session \<Rightarrow>
          if listener_index \<ge> length (pr_sockets p) then Some (Err (NoListener listener_index), p)
          else if remote_addr \<noteq> ps_endpoint session
          then Some (Err (UnexpectedEndpoint peer (ps_endpoint session) remote_addr), p)
          else
            map_option (\<lambda>(r, p).
                (and_then (map_err PlaneDatagram r) (\<lambda>frame.
                   Ok \<lparr>rf_frame = frame, rf_peer = Some peer, rf_remote_addr = remote_addr,
                       rf_local_addr = pr_sockets p ! listener_index\<rparr>), p))
              (open_session_datagram crypto p peer datagram now))"

definition is_replay_error :: "datagram_error \<Rightarrow> bool" where
  "is_replay_error e = (case e of ReplayedDatagram _ _ \<Rightarrow> True | DatagramOutsideReplayWindow _ _ \<Rightarrow> True | _ \<Rightarrow> False)"

text \<open>The loop over the peers behind an endpoint; \<open>first_error\<close> is the error kept so far.\<close>

fun try_peers ::
    "crypto_library \<Rightarrow> plane_runtime \<Rightarrow> socket_addr \<Rightarrow> socket_addr \<Rightarrow> bytes \<Rightarrow> instant \<Rightarrow>
     datagram_error option \<Rightarrow> peer_id list \<Rightarrow>
     ((received_frame, plane_io_error) result \<times> plane_runtime) option" where
  "try_peers crypto p local_addr remote_addr datagram now first_error [] =
     (case first_error of
        Some e \<Rightarrow> Some (Err (PlaneDatagram e), p)
      | None \<Rightarrow> Some (Err (UnknownEndpoint remote_addr), p))"
| "try_peers crypto p local_addr remote_addr datagram now first_error (peer # peers) =
     (if \<not> hm_contains (pr_sessions p) peer
      then try_peers crypto p local_addr remote_addr datagram now first_error peers
      else
        (case open_session_datagram crypto p peer datagram now of
           None \<Rightarrow> None
         | Some (Inr frame, p) \<Rightarrow>
             Some (Ok \<lparr>rf_frame = frame, rf_peer = Some peer, rf_remote_addr = remote_addr,
                       rf_local_addr = local_addr\<rparr>, p)
         | Some (Inl e, p) \<Rightarrow>
             if is_replay_error e then Some (Err (PlaneDatagram e), p)
             else
               try_peers crypto p local_addr remote_addr datagram now
                 (case first_error of Some first \<Rightarrow> Some first | None \<Rightarrow> Some e) peers))"

definition recv_frame_from_session_on ::
    "crypto_library \<Rightarrow> plane_runtime \<Rightarrow> usize \<Rightarrow> bytes \<Rightarrow> socket_addr \<Rightarrow> instant \<Rightarrow>
     ((received_frame, plane_io_error) result \<times> plane_runtime) option" where
  "recv_frame_from_session_on crypto p listener_index datagram remote_addr now =
     (if pr_sessions p = [] then Some (Err NoSessions, p)
      else if listener_index \<ge> length (pr_sockets p) then Some (Err (NoListener listener_index), p)
      else
        (case hm_get (pr_session_endpoints p) remote_addr of
           None \<Rightarrow> Some (Err (UnknownEndpoint remote_addr), p)
         | Some peers \<Rightarrow>
             try_peers crypto p (pr_sockets p ! listener_index) remote_addr datagram now None peers))"

end
