(* ===== verification/Plane_Invariant.thy ===== *)
theory Plane_Invariant
  imports Packet_Plane
begin

text \<open>
  The invariant of the UDP packet plane: the index from endpoints to peers mirrors the sessions, every
  session has a lifetime, no lifetime exceeds the configured one, and a retired session belongs to the
  peer and the endpoint of the current one. Every operation keeps it, so no operation panics.
\<close>

subsection \<open>The index from endpoints to peers\<close>

definition indexed :: "(socket_addr, peer_id list) hash_map \<Rightarrow> socket_addr \<Rightarrow> peer_id list" where
  "indexed index e = (case hm_get index e of Some peers \<Rightarrow> peers | None \<Rightarrow> [])"

definition index_inv :: "(socket_addr, peer_id list) hash_map \<Rightarrow> (peer_id \<Rightarrow> socket_addr option) \<Rightarrow> bool" where
  "index_inv index at \<longleftrightarrow> hm_wf index \<and> (\<forall>e. hm_get index e \<noteq> Some []) \<and>
     (\<forall>e. distinct (indexed index e)) \<and> (\<forall>e peer. peer \<in> set (indexed index e) \<longleftrightarrow> at peer = Some e)"

lemma remove_endpoint_mapping_fields [simp]:
  "pr_sessions (remove_endpoint_mapping p peer e) = pr_sessions p"
  "pr_session_lifetimes (remove_endpoint_mapping p peer e) = pr_session_lifetimes p"
  "pr_retiring_sessions (remove_endpoint_mapping p peer e) = pr_retiring_sessions p"
  "pr_session_ttl (remove_endpoint_mapping p peer e) = pr_session_ttl p"
  "pr_max_replay_windows_per_session (remove_endpoint_mapping p peer e) = pr_max_replay_windows_per_session p"
  "pr_sockets (remove_endpoint_mapping p peer e) = pr_sockets p"
  by (simp_all add: remove_endpoint_mapping_def Let_def split: option.split)

lemma insert_endpoint_mapping_fields [simp]:
  "pr_sessions (insert_endpoint_mapping p e peer) = pr_sessions p"
  "pr_session_lifetimes (insert_endpoint_mapping p e peer) = pr_session_lifetimes p"
  "pr_retiring_sessions (insert_endpoint_mapping p e peer) = pr_retiring_sessions p"
  "pr_session_ttl (insert_endpoint_mapping p e peer) = pr_session_ttl p"
  "pr_max_replay_windows_per_session (insert_endpoint_mapping p e peer) = pr_max_replay_windows_per_session p"
  "pr_sockets (insert_endpoint_mapping p e peer) = pr_sockets p"
  by (simp_all add: insert_endpoint_mapping_def Let_def)

lemma indexed_remove:
  "indexed (pr_session_endpoints (remove_endpoint_mapping p peer e)) e' =
     (if e' = e then filter (\<lambda>c. c \<noteq> peer) (indexed (pr_session_endpoints p) e)
      else indexed (pr_session_endpoints p) e')"
  by (simp add: indexed_def remove_endpoint_mapping_def Let_def split: option.split)

lemma indexed_insert:
  "indexed (pr_session_endpoints (insert_endpoint_mapping p e peer)) e' =
     (let peers = indexed (pr_session_endpoints p) e'
      in if e' = e \<and> peer \<notin> set peers then peers @ [peer] else peers)"
  by (simp add: indexed_def insert_endpoint_mapping_def Let_def split: option.split)

lemma index_inv_remove:
  assumes "index_inv (pr_session_endpoints p) at" and "at peer = Some e"
  shows "index_inv (pr_session_endpoints (remove_endpoint_mapping p peer e)) (at(peer := None))"
proof -
  let ?index = "pr_session_endpoints (remove_endpoint_mapping p peer e)"
  have "hm_wf ?index \<and> hm_get ?index e' \<noteq> Some []" for e'
    using assms(1) by (simp add: index_inv_def remove_endpoint_mapping_def Let_def split: option.split)
  moreover have "distinct (indexed ?index e')" for e'
    using assms(1) by (simp add: index_inv_def indexed_remove)
  moreover have "c \<in> set (indexed ?index e') \<longleftrightarrow> (at(peer := None)) c = Some e'" for c e'
    using assms by (auto simp: index_inv_def indexed_remove)
  ultimately show ?thesis unfolding index_inv_def by blast
qed

lemma index_inv_insert:
  assumes "index_inv (pr_session_endpoints p) at" and "at peer = None"
  shows "index_inv (pr_session_endpoints (insert_endpoint_mapping p e peer)) (at(peer \<mapsto> e))"
proof -
  let ?index = "pr_session_endpoints (insert_endpoint_mapping p e peer)"
  have "hm_wf ?index \<and> hm_get ?index e' \<noteq> Some []" for e'
    using assms(1) by (auto simp: index_inv_def insert_endpoint_mapping_def Let_def split: option.split)
  moreover have "distinct (indexed ?index e')" for e'
    using assms(1) by (auto simp: index_inv_def indexed_insert Let_def)
  moreover have "c \<in> set (indexed ?index e') \<longleftrightarrow> (at(peer \<mapsto> e)) c = Some e'" for c e'
    using assms by (auto simp: index_inv_def indexed_insert Let_def)
  ultimately show ?thesis unfolding index_inv_def by blast
qed

subsection \<open>The invariant\<close>

definition endpoints_of :: "(peer_id, plane_session) hash_map \<Rightarrow> peer_id \<Rightarrow> socket_addr option" where
  "endpoints_of sessions peer = map_option ps_endpoint (hm_get sessions peer)"

definition lifetimes_inv ::
    "(peer_id, plane_session) hash_map \<Rightarrow> (peer_id, duration) hash_map \<Rightarrow> duration \<Rightarrow> bool" where
  "lifetimes_inv sessions lifetimes ttl \<longleftrightarrow> hm_wf lifetimes \<and>
     (\<forall>peer. hm_contains lifetimes peer \<longleftrightarrow> hm_contains sessions peer) \<and>
     (\<forall>peer l. hm_get lifetimes peer = Some l \<longrightarrow> l \<le> ttl)"

definition retiring_inv ::
    "(peer_id, plane_session) hash_map \<Rightarrow> (peer_id, retiring_session) hash_map \<Rightarrow> duration \<Rightarrow> bool" where
  "retiring_inv sessions retiring ttl \<longleftrightarrow> hm_wf retiring \<and>
     (\<forall>peer r. hm_get retiring peer = Some r \<longrightarrow>
        rs_lifetime r \<le> ttl \<and> ps_peer (rs_session r) = peer \<and>
        endpoints_of sessions peer = Some (ps_endpoint (rs_session r)))"

definition sessions_inv :: "(peer_id, plane_session) hash_map \<Rightarrow> bool" where
  "sessions_inv sessions \<longleftrightarrow> hm_wf sessions \<and>
     (\<forall>peer s. hm_get sessions peer = Some s \<longrightarrow> ps_peer s = peer)"

definition plane_inv :: "plane_runtime \<Rightarrow> bool" where
  "plane_inv p \<longleftrightarrow>
     sessions_inv (pr_sessions p) \<and>
     index_inv (pr_session_endpoints p) (endpoints_of (pr_sessions p)) \<and>
     lifetimes_inv (pr_sessions p) (pr_session_lifetimes p) (pr_session_ttl p) \<and>
     retiring_inv (pr_sessions p) (pr_retiring_sessions p) (pr_session_ttl p)"

lemma plane_inv_bind: "plane_inv (plane_bind_with_replay_window_limit addrs n)"
  by (simp add: plane_inv_def plane_bind_with_replay_window_limit_def plane_default_def sessions_inv_def
      index_inv_def indexed_def lifetimes_inv_def retiring_inv_def endpoints_of_def hm_contains_def)

lemma endpoints_of_insert [simp]:
  "endpoints_of (hm_insert sessions peer s) = (endpoints_of sessions)(peer \<mapsto> ps_endpoint s)"
  by (simp add: fun_eq_iff endpoints_of_def)

lemma endpoints_of_remove [simp]:
  "endpoints_of (hm_remove sessions peer) = (endpoints_of sessions)(peer := None)"
  by (simp add: fun_eq_iff endpoints_of_def)

declare hm_contains_insert [simp] hm_contains_remove [simp]

lemma plane_inv_set_ttl: "plane_inv p \<Longrightarrow> plane_inv (set_session_ttl p ttl)"
  by (auto simp: plane_inv_def set_session_ttl_def lifetimes_inv_def retiring_inv_def hm_map_values)

lemma plane_inv_forget_all: "plane_inv (snd (forget_all_sessions p))"
  by (simp add: plane_inv_def forget_all_sessions_def sessions_inv_def
      index_inv_def indexed_def lifetimes_inv_def retiring_inv_def endpoints_of_def hm_contains_def)

text \<open>Dropping one peer with everything kept for it.\<close>

definition drop_peer :: "plane_runtime \<Rightarrow> peer_id \<Rightarrow> plane_session \<Rightarrow> plane_runtime" where
  "drop_peer p peer s =
     remove_endpoint_mapping
       (p\<lparr>pr_sessions := hm_remove (pr_sessions p) peer,
          pr_session_lifetimes := hm_remove (pr_session_lifetimes p) peer,
          pr_retiring_sessions := hm_remove (pr_retiring_sessions p) peer\<rparr>) peer (ps_endpoint s)"

lemma plane_inv_drop_peer:
  assumes "plane_inv p" and "hm_get (pr_sessions p) peer = Some s"
  shows "plane_inv (drop_peer p peer s)"
proof -
  have "endpoints_of (pr_sessions p) peer = Some (ps_endpoint s)" using assms(2) by (simp add: endpoints_of_def)
  moreover have "index_inv (pr_session_endpoints
      (p\<lparr>pr_sessions := hm_remove (pr_sessions p) peer,
         pr_session_lifetimes := hm_remove (pr_session_lifetimes p) peer,
         pr_retiring_sessions := hm_remove (pr_retiring_sessions p) peer\<rparr>)) (endpoints_of (pr_sessions p))"
    using assms(1) by (simp add: plane_inv_def)
  ultimately show ?thesis
    using assms(1) index_inv_remove
    by (auto simp: plane_inv_def drop_peer_def sessions_inv_def lifetimes_inv_def retiring_inv_def)
qed

lemma plane_inv_no_session:
  assumes "plane_inv p" and "hm_get (pr_sessions p) peer = None"
  shows "hm_get (pr_session_lifetimes p) peer = None" and "hm_get (pr_retiring_sessions p) peer = None"
proof -
  have "\<not> hm_contains (pr_session_lifetimes p) peer"
    using assms unfolding plane_inv_def lifetimes_inv_def by (simp add: hm_contains_def)
  then show "hm_get (pr_session_lifetimes p) peer = None" by (simp add: hm_contains_def)
  have "endpoints_of (pr_sessions p) peer = None" using assms(2) by (simp add: endpoints_of_def)
  with assms(1) show "hm_get (pr_retiring_sessions p) peer = None"
    unfolding plane_inv_def retiring_inv_def by (cases "hm_get (pr_retiring_sessions p) peer") auto
qed

lemma plane_inv_forget_peer:
  assumes "plane_inv p"
  shows "plane_inv (snd (plane_forget_peer p peer))"
proof (cases "hm_get (pr_sessions p) peer")
  case None
  show ?thesis
    using assms None plane_inv_no_session [OF assms None]
    by (auto simp: plane_inv_def plane_forget_peer_def lifetimes_inv_def retiring_inv_def
        sessions_inv_def hm_contains_def Let_def)
next
  case (Some s)
  then have "snd (plane_forget_peer p peer) = drop_peer p peer s"
    by (cases p) (simp add: plane_forget_peer_def drop_peer_def Let_def)
  then show ?thesis using plane_inv_drop_peer [OF assms Some] by simp
qed

subsection \<open>Expiry\<close>

lemma remove_expired_Cons:
  "remove_expired p (peer # rest) =
     (case hm_get (pr_sessions p) peer of
        None \<Rightarrow> remove_expired p rest
      | Some s \<Rightarrow> (let (snapshots, p) = remove_expired (drop_peer p peer s) rest
                  in (session_snapshot_of s # snapshots, p)))"
  by (simp add: drop_peer_def Let_def split: option.split)

declare remove_expired.simps(2) [simp del]

lemma plane_inv_remove_expired: "plane_inv p \<Longrightarrow> plane_inv (snd (remove_expired p peers))"
proof (induction peers arbitrary: p)
  case (Cons peer peers)
  show ?case
  proof (cases "hm_get (pr_sessions p) peer")
    case None
    then show ?thesis using Cons by (simp add: remove_expired_Cons)
  next
    case (Some s)
    then show ?thesis
      using Cons.IH [OF plane_inv_drop_peer [OF Cons.prems Some]]
      by (simp add: remove_expired_Cons case_prod_unfold Let_def)
  qed
qed simp

lemma expired_peers_Some:
  assumes "\<And>peer s. (peer, s) \<in> set sessions \<Longrightarrow> hm_contains lifetimes peer"
  shows "expired_peers lifetimes now max_age sessions =
    Some (map fst (filter (\<lambda>(peer, s). now - ps_established_at s \<ge> min (the (hm_get lifetimes peer)) max_age)
      sessions))"
  using assms
proof (induction sessions)
  case (Cons x sessions)
  obtain peer s where x: "x = (peer, s)" by (cases x)
  from Cons.prems [of peer s] obtain l where "hm_get lifetimes peer = Some l"
    by (auto simp: x hm_contains_def)
  moreover have "expired_peers lifetimes now max_age sessions =
    Some (map fst (filter (\<lambda>(peer, s). now - ps_established_at s \<ge> min (the (hm_get lifetimes peer)) max_age)
      sessions))"
    using Cons.prems by (intro Cons.IH) auto
  ultimately show ?case by (simp add: x)
qed simp

lemma plane_inv_sessions_contained:
  assumes "plane_inv p" and "(peer, s) \<in> set (pr_sessions p)"
  shows "hm_contains (pr_session_lifetimes p) peer"
  using assms by (auto simp: plane_inv_def sessions_inv_def lifetimes_inv_def hm_contains_def
      hm_get_Some_iff [symmetric])

definition shorten_retiring :: "plane_runtime \<Rightarrow> instant \<Rightarrow> duration \<Rightarrow> plane_runtime" where
  "shorten_retiring p now max_age =
     p\<lparr>pr_retiring_sessions :=
         hm_retain (\<lambda>_ r. now - ps_established_at (rs_session r) < rs_lifetime r)
           (map (\<lambda>(peer, r). (peer, r\<lparr>rs_lifetime := min (rs_lifetime r) max_age\<rparr>)) (pr_retiring_sessions p))\<rparr>"

lemma shorten_retiring_get:
  assumes "hm_wf (pr_retiring_sessions p)"
  shows "hm_get (pr_retiring_sessions (shorten_retiring p now max_age)) peer =
    (case hm_get (pr_retiring_sessions p) peer of
       None \<Rightarrow> None
     | Some r \<Rightarrow> if now - ps_established_at (rs_session r) < min (rs_lifetime r) max_age
                 then Some (r\<lparr>rs_lifetime := min (rs_lifetime r) max_age\<rparr>) else None)"
  using assms by (simp add: shorten_retiring_def hm_get_retain hm_map_values split: option.split)

lemma plane_inv_shorten: "plane_inv p \<Longrightarrow> plane_inv (shorten_retiring p now max_age)"
  using shorten_retiring_get [of p now max_age]
  by (auto simp: plane_inv_def retiring_inv_def shorten_retiring_def hm_map_values min_le_iff_disj
      split: option.splits if_splits)

lemma expire_sessions_at_eq:
  assumes "plane_inv p"
  shows "expire_sessions_at p now max_age =
    (let (snapshots, q) = remove_expired (shorten_retiring p now max_age)
           (map fst (filter (\<lambda>(peer, s). now - ps_established_at s \<ge>
               min (the (hm_get (pr_session_lifetimes p) peer)) max_age) (pr_sessions p)))
     in Some (sort_key snapshot_key snapshots, q))"
proof -
  have "expired_peers (pr_session_lifetimes p) now max_age (pr_sessions p) =
      Some (map fst (filter (\<lambda>(peer, s). now - ps_established_at s \<ge>
        min (the (hm_get (pr_session_lifetimes p) peer)) max_age) (pr_sessions p)))"
    using plane_inv_sessions_contained [OF assms] by (intro expired_peers_Some)
  then show ?thesis
    by (simp add: expire_sessions_at_def shorten_retiring_def Let_def split: prod.split)
qed

subsection \<open>Installing a session\<close>

definition new_session ::
    "plane_runtime \<Rightarrow> session_role \<Rightarrow> session_keys \<Rightarrow> verified_handshake \<Rightarrow> verified_handshake \<Rightarrow> instant \<Rightarrow>
     plane_session" where
  "new_session p role keys local_hs remote_hs established_at =
     \<lparr>ps_peer = vh_peer remote_hs, ps_endpoint = vh_endpoint remote_hs,
      ps_mtu = min (vh_mtu local_hs) (vh_mtu remote_hs), ps_role = role,
      ps_local_session_id = vh_session_id local_hs, ps_remote_session_id = vh_session_id remote_hs,
      ps_established_at = established_at, ps_keys = keys, ps_replay_windows = [],
      ps_max_replay_windows = pr_max_replay_windows_per_session p\<rparr>"

text \<open>The session kept in retirement: the one still used for sending, or else the one replaced.\<close>

definition still_sending :: "plane_runtime \<Rightarrow> peer_id \<Rightarrow> socket_addr \<Rightarrow> instant \<Rightarrow> retiring_session option" where
  "still_sending p peer endpoint t =
     (case hm_get (pr_retiring_sessions p) peer of
        None \<Rightarrow> None
      | Some r \<Rightarrow>
          if rs_use_for_tx r \<and> ps_endpoint (rs_session r) = endpoint \<and>
             t - ps_established_at (rs_session r) < rs_lifetime r
          then Some r else None)"

definition replaced :: "plane_runtime \<Rightarrow> session_role \<Rightarrow> peer_id \<Rightarrow> socket_addr \<Rightarrow> instant \<Rightarrow> retiring_session option" where
  "replaced p role peer endpoint t =
     (case (hm_get (pr_sessions p) peer, hm_get (pr_session_lifetimes p) peer) of
        (Some s, Some l) \<Rightarrow>
          (let l = min l (pr_session_ttl p) in
           if ps_endpoint s = endpoint \<and> t - ps_established_at s < l
           then Some \<lparr>rs_session = s, rs_lifetime = l, rs_use_for_tx = (role = Responder)\<rparr> else None)
      | _ \<Rightarrow> None)"

definition retired ::
    "plane_runtime \<Rightarrow> session_role \<Rightarrow> peer_id \<Rightarrow> socket_addr \<Rightarrow> instant \<Rightarrow> bool \<Rightarrow> retiring_session option" where
  "retired p role peer endpoint t overlapping =
     (if \<not> overlapping then None
      else if role = Responder \<and> still_sending p peer endpoint t \<noteq> None then still_sending p peer endpoint t
      else replaced p role peer endpoint t)"

definition reindexed :: "plane_runtime \<Rightarrow> peer_id \<Rightarrow> socket_addr \<Rightarrow> plane_runtime" where
  "reindexed p peer endpoint =
     insert_endpoint_mapping
       (case hm_get (pr_sessions p) peer of
          Some s \<Rightarrow> remove_endpoint_mapping p peer (ps_endpoint s) | None \<Rightarrow> p) endpoint peer"

lemma reindexed_fields [simp]:
  "pr_sessions (reindexed p peer e) = pr_sessions p"
  "pr_session_lifetimes (reindexed p peer e) = pr_session_lifetimes p"
  "pr_retiring_sessions (reindexed p peer e) = pr_retiring_sessions p"
  "pr_session_ttl (reindexed p peer e) = pr_session_ttl p"
  "pr_sockets (reindexed p peer e) = pr_sockets p"
  by (simp_all add: reindexed_def split: option.split)

definition with_session ::
    "plane_runtime \<Rightarrow> peer_id \<Rightarrow> plane_session \<Rightarrow> retiring_session option \<Rightarrow> plane_runtime" where
  "with_session p peer s old =
     (reindexed p peer (ps_endpoint s))
       \<lparr>pr_sessions := hm_insert (pr_sessions p) peer s,
        pr_session_lifetimes := hm_insert (pr_session_lifetimes p) peer (pr_session_ttl p),
        pr_retiring_sessions :=
          (case old of
             None \<Rightarrow> hm_remove (pr_retiring_sessions p) peer
           | Some r \<Rightarrow> hm_insert (hm_remove (pr_retiring_sessions p) peer) peer r)\<rparr>"

lemma install_session_eq:
  "install_session crypto show_addr p role secret local_hs remote_hs t overlapping =
     (case session_keys_derive crypto show_addr role secret local_hs remote_hs of
        Inl e \<Rightarrow> (Err e, p)
      | Inr keys \<Rightarrow>
          (let s = new_session p role keys local_hs remote_hs t
           in (Ok (session_snapshot_of s),
               with_session p (vh_peer remote_hs) s
                 (retired p role (vh_peer remote_hs) (vh_endpoint remote_hs) t overlapping))))"
proof (cases "session_keys_derive crypto show_addr role secret local_hs remote_hs")
  case (Inr keys)
  let ?peer = "vh_peer remote_hs" and ?e = "vh_endpoint remote_hs"
  define base where "base = reindexed p ?peer ?e"
  have base: "insert_endpoint_mapping (case hm_get (pr_sessions p) ?peer of
      Some s \<Rightarrow> remove_endpoint_mapping p ?peer (ps_endpoint s) | None \<Rightarrow> p) ?e ?peer = base"
    by (simp add: base_def reindexed_def)
  have fields: "pr_sessions base = pr_sessions p" "pr_session_lifetimes base = pr_session_lifetimes p"
    "pr_retiring_sessions base = pr_retiring_sessions p" "pr_session_ttl base = pr_session_ttl p"
    by (simp_all add: base_def)
  have s: "ps_endpoint (new_session p role keys local_hs remote_hs t) = ?e" by (simp add: new_session_def)
  show ?thesis
    unfolding install_session_def Inr sum.case Let_def base with_session_def s base_def [symmetric]
      new_session_def [symmetric] still_sending_def [symmetric] retired_def replaced_def
    by (cases "still_sending p ?peer ?e t"; cases overlapping; cases "role = Responder";
        cases "hm_get (pr_sessions p) ?peer"; cases "hm_get (pr_session_lifetimes p) ?peer")
      (simp_all add: fields Let_def)
qed (simp add: install_session_def)

lemma index_inv_reindexed:
  assumes "plane_inv p"
  shows "index_inv (pr_session_endpoints (reindexed p peer e)) ((endpoints_of (pr_sessions p))(peer \<mapsto> e))"
proof (cases "hm_get (pr_sessions p) peer")
  case None
  with assms index_inv_insert [of p "endpoints_of (pr_sessions p)" peer e] show ?thesis
    by (simp add: reindexed_def plane_inv_def endpoints_of_def)
next
  case (Some s)
  have "index_inv (pr_session_endpoints (remove_endpoint_mapping p peer (ps_endpoint s)))
      ((endpoints_of (pr_sessions p))(peer := None))"
    using assms Some by (intro index_inv_remove) (simp_all add: plane_inv_def endpoints_of_def)
  from index_inv_insert [OF this, of peer e] Some show ?thesis by (simp add: reindexed_def)
qed

lemma plane_inv_with_session:
  assumes "plane_inv p" and "ps_peer s = peer"
    and "\<And>r. old = Some r \<Longrightarrow> rs_lifetime r \<le> pr_session_ttl p \<and> ps_peer (rs_session r) = peer \<and>
      ps_endpoint (rs_session r) = ps_endpoint s"
  shows "plane_inv (with_session p peer s old)"
  using assms(1,2) assms(3) index_inv_reindexed [OF assms(1), of peer "ps_endpoint s"]
  by (cases old)
    (auto simp: plane_inv_def with_session_def sessions_inv_def lifetimes_inv_def retiring_inv_def)

lemma plane_inv_retiring:
  assumes "plane_inv p" and "hm_get (pr_retiring_sessions p) peer = Some r"
  shows "rs_lifetime r \<le> pr_session_ttl p" and "ps_peer (rs_session r) = peer"
    and "endpoints_of (pr_sessions p) peer = Some (ps_endpoint (rs_session r))"
  using assms by (auto simp: plane_inv_def retiring_inv_def)

lemma plane_inv_session:
  assumes "plane_inv p" and "hm_get (pr_sessions p) peer = Some s"
  obtains l where "hm_get (pr_session_lifetimes p) peer = Some l" "l \<le> pr_session_ttl p" "ps_peer s = peer"
proof -
  have "hm_contains (pr_session_lifetimes p) peer"
    using assms unfolding plane_inv_def lifetimes_inv_def by (simp add: hm_contains_def)
  then obtain l where "hm_get (pr_session_lifetimes p) peer = Some l" by (auto simp: hm_contains_def)
  with assms that show thesis unfolding plane_inv_def lifetimes_inv_def sessions_inv_def by blast
qed

lemma retired_props:
  assumes "plane_inv p" and "retired p role peer endpoint t overlapping = Some r"
  shows "rs_lifetime r \<le> pr_session_ttl p \<and> ps_peer (rs_session r) = peer \<and>
    ps_endpoint (rs_session r) = endpoint"
proof (cases "still_sending p peer endpoint t = Some r")
  case True
  with plane_inv_retiring [OF assms(1)] show ?thesis
    by (auto simp: still_sending_def split: option.splits if_splits)
next
  case False
  with assms(2) have "replaced p role peer endpoint t = Some r"
    by (auto simp: retired_def split: if_splits)
  then show ?thesis
    using assms(1) by (auto simp: replaced_def plane_inv_def sessions_inv_def Let_def
        split: option.splits if_splits)
qed

lemma plane_inv_install:
  assumes "plane_inv p"
  shows "plane_inv (snd (install_session crypto show_addr p role secret local_hs remote_hs t overlapping))"
proof (cases "session_keys_derive crypto show_addr role secret local_hs remote_hs")
  case (Inr keys)
  have "plane_inv (with_session p (vh_peer remote_hs) (new_session p role keys local_hs remote_hs t)
      (retired p role (vh_peer remote_hs) (vh_endpoint remote_hs) t overlapping))"
    using retired_props [OF assms] by (intro plane_inv_with_session [OF assms]) (simp_all add: new_session_def)
  then show ?thesis by (simp add: install_session_eq Inr Let_def)
qed (simp add: install_session_eq assms)

subsection \<open>Receiving\<close>

lemma accept_datagram_keeps [simp]:
  "ps_peer (snd (accept_datagram_at s frame now)) = ps_peer s"
  "ps_endpoint (snd (accept_datagram_at s frame now)) = ps_endpoint s"
  "ps_established_at (snd (accept_datagram_at s frame now)) = ps_established_at s"
  "ps_keys (snd (accept_datagram_at s frame now)) = ps_keys s"
  "ps_mtu (snd (accept_datagram_at s frame now)) = ps_mtu s"
  by (simp_all add: accept_datagram_at_eq Let_def)

text \<open>Replacing a session, or a retired one, by one of the same peer and endpoint.\<close>

lemma plane_inv_update_session:
  assumes "plane_inv p" and "hm_get (pr_sessions p) peer = Some s"
    and "ps_peer s' = ps_peer s" and "ps_endpoint s' = ps_endpoint s"
  shows "plane_inv (p\<lparr>pr_sessions := hm_insert (pr_sessions p) peer s'\<rparr>)"
proof -
  have at: "(endpoints_of (pr_sessions p))(peer \<mapsto> ps_endpoint s') = endpoints_of (pr_sessions p)"
    using assms(2,4) by (auto simp: fun_eq_iff endpoints_of_def)
  have "hm_contains (pr_sessions p) peer" using assms(2) by (simp add: hm_contains_def)
  with assms(1-3) show ?thesis
    unfolding plane_inv_def
    by (auto simp: at retiring_inv_def sessions_inv_def lifetimes_inv_def)
qed

lemma plane_inv_update_retiring:
  assumes "plane_inv p" and "hm_get (pr_retiring_sessions p) peer = Some r"
    and "rs_lifetime r' = rs_lifetime r" and "ps_peer (rs_session r') = ps_peer (rs_session r)"
    and "ps_endpoint (rs_session r') = ps_endpoint (rs_session r)"
  shows "plane_inv (p\<lparr>pr_retiring_sessions := hm_insert (pr_retiring_sessions p) peer r'\<rparr>)"
  using assms plane_inv_retiring [OF assms(1,2)] by (auto simp: plane_inv_def retiring_inv_def)

lemma open_session_datagram_total:
  assumes "hm_contains (pr_sessions p) peer"
  shows "open_session_datagram crypto p peer datagram now \<noteq> None"
  using assms by (auto simp: open_session_datagram_def hm_contains_def)

text \<open>What receiving leaves alone.\<close>

definition same_key :: "plane_session \<Rightarrow> plane_session \<Rightarrow> bool" where
  "same_key s' s \<longleftrightarrow> ps_keys s' = ps_keys s \<and> ps_established_at s' = ps_established_at s"

definition received_only :: "plane_runtime \<Rightarrow> plane_runtime \<Rightarrow> bool" where
  "received_only p q \<longleftrightarrow>
     pr_session_endpoints q = pr_session_endpoints p \<and> pr_session_lifetimes q = pr_session_lifetimes p \<and>
     pr_session_ttl q = pr_session_ttl p \<and> pr_sockets q = pr_sockets p \<and>
     (\<forall>peer s'. hm_get (pr_sessions q) peer = Some s' \<longrightarrow>
        (\<exists>s. hm_get (pr_sessions p) peer = Some s \<and> same_key s' s)) \<and>
     (\<forall>peer r'. hm_get (pr_retiring_sessions q) peer = Some r' \<longrightarrow>
        (\<exists>r. hm_get (pr_retiring_sessions p) peer = Some r \<and> rs_lifetime r' = rs_lifetime r \<and>
           same_key (rs_session r') (rs_session r)))"

lemma received_only_refl [simp]: "received_only p p"
  by (simp add: received_only_def same_key_def)

lemma open_session_datagram_inv:
  assumes "plane_inv p" and "open_session_datagram crypto p peer datagram now = Some (r, q)"
  shows "plane_inv q \<and> received_only p q"
proof -
  from assms(2) obtain s where s: "hm_get (pr_sessions p) peer = Some s"
    by (auto simp: open_session_datagram_def split: option.splits)
  show ?thesis
  proof (cases "open_frame (chacha20_decrypt crypto) (sk_open (ps_keys s)) datagram (unat (ps_mtu s))")
    case (Inr frame)
    let ?s = "snd (accept_datagram_at s frame now)"
    let ?p = "p\<lparr>pr_sessions := hm_insert (pr_sessions p) peer ?s\<rparr>"
    have inv: "plane_inv ?p" by (rule plane_inv_update_session [OF assms(1) s]) simp_all
    have "q = ?p \<or> (\<exists>r. hm_get (pr_retiring_sessions ?p) peer = Some r \<and>
        q = ?p\<lparr>pr_retiring_sessions := hm_insert (pr_retiring_sessions ?p) peer (r\<lparr>rs_use_for_tx := False\<rparr>)\<rparr>)"
      using assms(2) s Inr
      by (auto simp: open_session_datagram_def Let_def case_prod_unfold split: sum.splits option.splits)
    with inv plane_inv_update_retiring [OF inv] s show ?thesis
      by (auto simp: received_only_def same_key_def split: if_splits)
  next
    case (Inl e)
    have "q = p \<or> (\<exists>r frame. hm_get (pr_retiring_sessions p) peer = Some r \<and>
        q = p\<lparr>pr_retiring_sessions := hm_insert (pr_retiring_sessions p) peer
          (r\<lparr>rs_session := snd (accept_datagram_at (rs_session r) frame now)\<rparr>)\<rparr>)"
      using assms(2) s Inl
      by (auto simp: open_session_datagram_def Let_def case_prod_unfold split: sum.splits option.splits if_splits)
    with assms(1) plane_inv_update_retiring [OF assms(1)] show ?thesis
      by (auto simp: received_only_def same_key_def split: if_splits)
  qed
qed

end
