(* ===== verification/Plane_Lifecycle.thy ===== *)
theory Plane_Lifecycle
  imports Plane_Invariant
begin

text \<open>
  The packet plane over time: its invariant on every run, the attribution of received frames, expiry,
  the lifetime of keys, and the renewal of a session without losing datagrams in flight.
\<close>

subsection \<open>Receiving from any session\<close>

lemma open_frame_not_replay:
  assumes "open_frame decrypt key d m = Err e"
  shows "\<not> is_replay_error e"
  using assms
  by (auto simp: open_frame_def decode_datagram_header_def decode_plain_frame_def is_replay_error_def
      and_then_def map_err_def ok_or_def Let_def split: if_splits sum.splits option.splits)

text \<open>The sessions whose keys are tried on a datagram of a peer, in order.\<close>

definition rx_sessions :: "plane_runtime \<Rightarrow> peer_id \<Rightarrow> instant \<Rightarrow> plane_session list" where
  "rx_sessions p peer now =
     (case hm_get (pr_sessions p) peer of
        None \<Rightarrow> []
      | Some s \<Rightarrow> s #
          (case hm_get (pr_retiring_sessions p) peer of
             None \<Rightarrow> []
           | Some r \<Rightarrow>
               if ps_endpoint (rs_session r) = ps_endpoint s \<and>
                  now - ps_established_at (rs_session r) < rs_lifetime r
               then [rs_session r] else []))"

lemma open_session_datagram_sound:
  assumes "open_session_datagram crypto p peer datagram now = Some (Inr frame, q)"
  shows "\<exists>s \<in> set (rx_sessions p peer now).
    open_frame (chacha20_decrypt crypto) (sk_open (ps_keys s)) datagram (unat (ps_mtu s)) = Ok frame \<and>
    fst (accept_datagram_at s frame now) = Ok ()"
  using assms
  by (auto simp: open_session_datagram_def rx_sessions_def Let_def case_prod_unfold and_then_Inr_iff
      split: option.splits sum.splits if_splits)

lemma open_session_datagram_failure:
  assumes "open_session_datagram crypto p peer datagram now = Some (Inl e, q)" and "\<not> is_replay_error e"
  shows "q = p"
proof -
  have "fst (accept_datagram_at s frame now) \<noteq> Err e" for s frame
    using assms(2) by (cases "fst (judge_sequence (session_room s (hdr_session_id (frame_header frame)))
          (hdr_session_id (frame_header frame)) (hdr_sequence (frame_header frame)) now)")
      (auto simp: accept_datagram_at_eq is_replay_error_def datagram_replay_error_def Let_def
        split: replay_accept_error.splits)
  with assms(1) show ?thesis
    by (auto simp: open_session_datagram_def Let_def case_prod_unfold and_then_def
        split: option.splits sum.splits if_splits)
qed

lemma try_peers_result:
  assumes "plane_inv p"
  shows "\<exists>r q. try_peers crypto p local_addr remote_addr datagram now err peers = Some (r, q) \<and>
    plane_inv q \<and> received_only p q \<and>
    (\<forall>rf. r = Ok rf \<longrightarrow> (\<exists>peer \<in> set peers. rf_peer rf = Some peer \<and> rf_remote_addr rf = remote_addr \<and>
       rf_local_addr rf = local_addr \<and>
       open_session_datagram crypto p peer datagram now = Some (Inr (rf_frame rf), q)))"
proof (induction peers arbitrary: err)
  case Nil
  then show ?case using assms by (cases err) simp_all
next
  case (Cons peer peers)
  show ?case
  proof (cases "hm_contains (pr_sessions p) peer")
    case False
    then show ?thesis using Cons.IH [of err] by auto
  next
    case True
    then obtain r q where open_eq: "open_session_datagram crypto p peer datagram now = Some (r, q)"
      using open_session_datagram_total [OF True] by (metis option.exhaust prod.exhaust)
    note inv = open_session_datagram_inv [OF assms open_eq]
    show ?thesis
    proof (cases r)
      case (Inr frame)
      then show ?thesis using True open_eq inv by simp
    next
      case (Inl e)
      show ?thesis
      proof (cases "is_replay_error e")
        case True
        then show ?thesis using Inl open_eq inv \<open>hm_contains (pr_sessions p) peer\<close> by simp
      next
        case False
        then have "q = p" using open_session_datagram_failure open_eq Inl by blast
        then show ?thesis
          using False Inl open_eq True Cons.IH [of "case err of Some first \<Rightarrow> Some first | None \<Rightarrow> Some e"]
          by auto
      qed
    qed
  qed
qed

lemma recv_from_session_result:
  assumes "plane_inv p"
  shows "\<exists>r q. recv_frame_from_session_on crypto p i datagram remote_addr now = Some (r, q) \<and>
    plane_inv q \<and> received_only p q \<and>
    (\<forall>rf. r = Ok rf \<longrightarrow> i < length (pr_sockets p) \<and>
       (\<exists>peer \<in> set (indexed (pr_session_endpoints p) remote_addr).
          rf_peer rf = Some peer \<and> rf_remote_addr rf = remote_addr \<and> rf_local_addr rf = pr_sockets p ! i \<and>
          open_session_datagram crypto p peer datagram now = Some (Inr (rf_frame rf), q)))"
proof -
  have same: "received_only p p" by simp
  show ?thesis
  proof (cases "pr_sessions p = [] \<or> length (pr_sockets p) \<le> i \<or> hm_get (pr_session_endpoints p) remote_addr = None")
    case True
    then show ?thesis using assms same by (auto simp: recv_frame_from_session_on_def)
  next
    case False
    then obtain peers where "hm_get (pr_session_endpoints p) remote_addr = Some peers" by auto
    with False try_peers_result [OF assms, of crypto "pr_sockets p ! i" remote_addr datagram now None peers]
    show ?thesis by (auto simp: recv_frame_from_session_on_def indexed_def)
  qed
qed

lemma recv_from_peer_result:
  assumes "plane_inv p"
  shows "\<exists>r q. recv_frame_from_peer_on crypto p i peer datagram remote_addr now = Some (r, q) \<and>
    plane_inv q \<and> received_only p q"
proof -
  have same: "received_only p p" by simp
  show ?thesis
  proof (cases "hm_get (pr_sessions p) peer")
    case None
    then show ?thesis using assms same by (simp add: recv_frame_from_peer_on_def)
  next
    case (Some s)
    then obtain r q where "open_session_datagram crypto p peer datagram now = Some (r, q)"
      using open_session_datagram_total [of p peer] by (metis hm_contains_def option.exhaust option.simps(3) prod.exhaust)
    with Some assms same open_session_datagram_inv [OF assms this] show ?thesis
      by (auto simp: recv_frame_from_peer_on_def)
  qed
qed

subsection \<open>Runs\<close>

inductive plane_step :: "crypto_library \<Rightarrow> (socket_addr \<Rightarrow> bytes) \<Rightarrow> plane_runtime \<Rightarrow> plane_runtime \<Rightarrow> bool"
  for crypto show_addr where
  step_install:
    "plane_step crypto show_addr p
       (snd (install_session crypto show_addr p role secret local_hs remote_hs t overlapping))"
| step_set_ttl: "plane_step crypto show_addr p (set_session_ttl p ttl)"
| step_forget_peer: "plane_step crypto show_addr p (snd (plane_forget_peer p peer))"
| step_forget_all: "plane_step crypto show_addr p (snd (forget_all_sessions p))"
| step_expire: "expire_sessions_at p now max_age = Some (snapshots, q) \<Longrightarrow> plane_step crypto show_addr p q"
| step_recv_peer: "recv_frame_from_peer_on crypto p i peer datagram remote_addr now = Some (r, q) \<Longrightarrow>
    plane_step crypto show_addr p q"
| step_recv_session: "recv_frame_from_session_on crypto p i datagram remote_addr now = Some (r, q) \<Longrightarrow>
    plane_step crypto show_addr p q"

inductive plane_run :: "crypto_library \<Rightarrow> (socket_addr \<Rightarrow> bytes) \<Rightarrow> plane_runtime \<Rightarrow> bool"
  for crypto show_addr where
  run_bind: "plane_run crypto show_addr (plane_bind_with_replay_window_limit addrs n)"
| run_step: "plane_run crypto show_addr p \<Longrightarrow> plane_step crypto show_addr p q \<Longrightarrow> plane_run crypto show_addr q"

lemma plane_inv_expire:
  assumes "plane_inv p" and "expire_sessions_at p now max_age = Some (snapshots, q)"
  shows "plane_inv q"
  using assms(2) plane_inv_remove_expired [OF plane_inv_shorten [OF assms(1)]]
  by (auto simp: expire_sessions_at_eq [OF assms(1)] case_prod_unfold Let_def)

lemma plane_step_inv:
  assumes "plane_step crypto show_addr p q" and "plane_inv p"
  shows "plane_inv q"
  using assms
proof (induction rule: plane_step.induct)
  case (step_recv_peer p i peer datagram remote_addr now r q)
  then show ?case using recv_from_peer_result [of p crypto i peer datagram remote_addr now] by auto
next
  case (step_recv_session p i datagram remote_addr now r q)
  then show ?case using recv_from_session_result [of p crypto i datagram remote_addr now] by auto
qed (simp_all add: plane_inv_install plane_inv_set_ttl plane_inv_forget_peer plane_inv_forget_all plane_inv_expire)

lemma plane_run_inv: "plane_run crypto show_addr p \<Longrightarrow> plane_inv p"
  by (induction rule: plane_run.induct) (simp_all add: plane_inv_bind plane_step_inv)

lemma renewal_due_total:
  assumes "plane_inv p"
  shows "renewal_due_for_peer p peer now \<noteq> None"
proof (cases "hm_get (pr_sessions p) peer")
  case (Some s)
  obtain l where "hm_get (pr_session_lifetimes p) peer = Some l" by (rule plane_inv_session [OF assms Some])
  with Some show ?thesis by (simp add: renewal_due_for_peer_def Let_def)
qed (simp add: renewal_due_for_peer_def)

lemma filter_due_total: "plane_inv p \<Longrightarrow> filter_due p now peers \<noteq> None"
  using renewal_due_total [of p] by (induction peers) (auto split: option.split)

text \<open>
  C12: on every run of the packet plane, from binding through any sequence of handshakes, renewals,
  changes of the lifetime, forgotten peers, expiries and received datagrams, the index from endpoints
  to peers mirrors the sessions, every session has a lifetime within the configured one, and a retired
  session belongs to the peer and endpoint of the current one. So no later operation panics.
\<close>

theorem packet_plane_invariant:
  assumes "plane_run crypto show_addr p"
  shows "(\<forall>e peer. peer \<in> set (indexed (pr_session_endpoints p) e) \<longleftrightarrow>
            (\<exists>s. hm_get (pr_sessions p) peer = Some s \<and> ps_endpoint s = e \<and> ps_peer s = peer)) \<and>
    (\<forall>peer. hm_contains (pr_session_lifetimes p) peer \<longleftrightarrow> hm_contains (pr_sessions p) peer) \<and>
    (\<forall>peer l. hm_get (pr_session_lifetimes p) peer = Some l \<longrightarrow> l \<le> pr_session_ttl p) \<and>
    (\<forall>peer r. hm_get (pr_retiring_sessions p) peer = Some r \<longrightarrow> rs_lifetime r \<le> pr_session_ttl p \<and>
       (\<exists>s. hm_get (pr_sessions p) peer = Some s \<and> ps_endpoint s = ps_endpoint (rs_session r))) \<and>
    expire_sessions_at p now max_age \<noteq> None \<and> renewal_due_peers p now \<noteq> None \<and>
    recv_frame_from_peer_on crypto p i peer datagram addr now \<noteq> None \<and>
    recv_frame_from_session_on crypto p i datagram addr now \<noteq> None"
proof -
  have inv: "plane_inv p" by (rule plane_run_inv [OF assms])
  have at: "endpoints_of (pr_sessions p) peer = Some e \<longleftrightarrow>
      (\<exists>s. hm_get (pr_sessions p) peer = Some s \<and> ps_endpoint s = e \<and> ps_peer s = peer)" for peer e
    using inv by (auto simp: endpoints_of_def plane_inv_def sessions_inv_def)
  have "expire_sessions_at p now max_age \<noteq> None"
    by (simp add: expire_sessions_at_eq [OF inv] case_prod_unfold Let_def)
  moreover have "renewal_due_peers p now \<noteq> None"
    using filter_due_total [OF inv] by (simp add: renewal_due_peers_def)
  moreover have "recv_frame_from_peer_on crypto p i peer datagram addr now \<noteq> None"
    using recv_from_peer_result [OF inv, of crypto i peer datagram addr now] by auto
  moreover have "recv_frame_from_session_on crypto p i datagram addr now \<noteq> None"
    using recv_from_session_result [OF inv, of crypto i datagram addr now] by auto
  moreover have "rs_lifetime r \<le> pr_session_ttl p \<and>
      (\<exists>s. hm_get (pr_sessions p) peer = Some s \<and> ps_endpoint s = ps_endpoint (rs_session r))"
    if "hm_get (pr_retiring_sessions p) peer = Some r" for peer r
    using plane_inv_retiring [OF inv that] by (auto simp: endpoints_of_def)
  ultimately show ?thesis
    using inv at unfolding plane_inv_def index_inv_def lifetimes_inv_def by blast
qed

text \<open>A runtime with one session, for the witnesses.\<close>

definition sample_bound :: plane_runtime where
  "sample_bound = plane_bind_with_replay_window_limit [SocketV4 0x0a000001 1] 2"

definition sample_plane :: plane_runtime where
  "sample_plane =
     snd (install_session sample_crypto sample_show_addr sample_bound Initiator [1] sample_hello sample_accept 0 False)"

lemma sample_plane_run: "plane_run sample_crypto sample_show_addr sample_plane"
  unfolding sample_plane_def sample_bound_def by (rule run_step [OF run_bind step_install])

lemma sample_plane_eq:
  "sample_plane = with_session sample_bound (PeerId [2])
     (new_session sample_bound Initiator sample_keys sample_hello sample_accept 0) None"
  by (simp add: sample_plane_def install_session_eq sample_keys_derived Let_def retired_def)
    (simp add: sample_accept_def)

lemma sample_plane_fields:
  "pr_sessions sample_plane = [(PeerId [2], sample_session)]"
  "pr_session_endpoints sample_plane = [(SocketV4 0x0a000002 2, [PeerId [2]])]"
  "pr_sockets sample_plane = [SocketV4 0x0a000001 1]"
  "pr_retiring_sessions sample_plane = []"
  "pr_session_lifetimes sample_plane = [(PeerId [2], from_secs 600)]"
  by (simp_all add: sample_plane_eq with_session_def reindexed_def sample_bound_def insert_endpoint_mapping_def
      plane_bind_with_replay_window_limit_def plane_default_def new_session_def sample_session_def
      sample_hello_def sample_accept_def hm_insert_def hm_remove_def Let_def
      default_packet_plane_session_ttl_seconds_def)

theorem packet_plane_invariant_witness:
  "plane_run sample_crypto sample_show_addr sample_plane \<and>
   PeerId [2] \<in> set (indexed (pr_session_endpoints sample_plane) (SocketV4 0x0a000002 2)) \<and>
   expire_sessions_at sample_plane 5 10 \<noteq> None"
  using packet_plane_invariant [OF sample_plane_run, where now = 5 and max_age = 10] sample_plane_run
  by (auto simp: sample_plane_fields indexed_def hm_get_def)

subsection \<open>Attribution\<close>

lemma rx_sessions_of_peer:
  assumes "plane_inv p" and "s \<in> set (rx_sessions p peer now)" and "endpoints_of (pr_sessions p) peer = Some e"
  shows "ps_peer s = peer \<and> ps_endpoint s = e"
  using assms plane_inv_retiring [OF assms(1), of peer]
  by (auto simp: rx_sessions_def endpoints_of_def plane_inv_def sessions_inv_def split: option.splits if_splits)


lemma sample_crypto_exact: "aead_exact (chacha20_encrypt sample_crypto) (chacha20_decrypt sample_crypto)"
  using sample_aead_exact by (simp add: sample_crypto_def)


subsection \<open>Expiry\<close>

lemma drop_peer_get:
  "hm_get (pr_sessions (drop_peer p peer s)) j = (if j = peer then None else hm_get (pr_sessions p) j)"
  "hm_get (pr_retiring_sessions (drop_peer p peer s)) j = (if j = peer then None else hm_get (pr_retiring_sessions p) j)"
  "hm_get (pr_session_lifetimes (drop_peer p peer s)) j = (if j = peer then None else hm_get (pr_session_lifetimes p) j)"
  by (simp_all add: drop_peer_def)

lemma remove_expired_get:
  assumes "distinct peers" and "set peers \<subseteq> {peer. hm_contains (pr_sessions p) peer}"
  shows "hm_get (pr_sessions (snd (remove_expired p peers))) j =
      (if j \<in> set peers then None else hm_get (pr_sessions p) j) \<and>
    hm_get (pr_retiring_sessions (snd (remove_expired p peers))) j =
      (if j \<in> set peers then None else hm_get (pr_retiring_sessions p) j) \<and>
    hm_get (pr_session_lifetimes (snd (remove_expired p peers))) j =
      (if j \<in> set peers then None else hm_get (pr_session_lifetimes p) j) \<and>
    fst (remove_expired p peers) = map (\<lambda>peer. session_snapshot_of (the (hm_get (pr_sessions p) peer))) peers"
  using assms
proof (induction peers arbitrary: p)
  case (Cons peer peers)
  then obtain s where s: "hm_get (pr_sessions p) peer = Some s" by (auto simp: hm_contains_def)
  have "set peers \<subseteq> {c. hm_contains (pr_sessions (drop_peer p peer s)) c}"
    using Cons.prems by (auto simp: hm_contains_def drop_peer_get)
  with Cons.IH [of "drop_peer p peer s"] Cons.prems(1) show ?case
    by (auto simp: remove_expired_Cons s drop_peer_get case_prod_unfold Let_def intro!: map_cong)
qed simp

lemma image_the_eq:
  assumes "\<And>x. x \<in> X \<Longrightarrow> g x \<noteq> None"
  shows "(\<lambda>x. f (the (g x))) ` X = {f s | s. \<exists>x. g x = Some s \<and> x \<in> X}"
proof -
  have "\<exists>s. g x = Some s" if "x \<in> X" for x using assms [OF that] by simp
  then show ?thesis by force
qed

text \<open>The peers whose sessions an expiry removes, and what it leaves.\<close>

definition outdated :: "plane_runtime \<Rightarrow> instant \<Rightarrow> duration \<Rightarrow> peer_id list" where
  "outdated p now max_age =
     map fst (filter (\<lambda>(peer, s). now - ps_established_at s \<ge>
       min (the (hm_get (pr_session_lifetimes p) peer)) max_age) (pr_sessions p))"

lemma outdated_iff:
  assumes "plane_inv p"
  shows "peer \<in> set (outdated p now max_age) \<longleftrightarrow> (\<exists>s l. hm_get (pr_sessions p) peer = Some s \<and>
    hm_get (pr_session_lifetimes p) peer = Some l \<and> now - ps_established_at s \<ge> min l max_age)"
proof -
  have wf: "hm_wf (pr_sessions p)" using assms by (simp add: plane_inv_def sessions_inv_def)
  have "peer \<in> set (outdated p now max_age) \<longleftrightarrow> (\<exists>s. hm_get (pr_sessions p) peer = Some s \<and>
      now - ps_established_at s \<ge> min (the (hm_get (pr_session_lifetimes p) peer)) max_age)"
    by (auto simp: outdated_def hm_get_Some_iff [OF wf] image_iff)
  then show ?thesis using plane_inv_session [OF assms, of peer] by (metis option.sel)
qed

lemma expire_sessions_at_get:
  assumes "plane_inv p" and "expire_sessions_at p now max_age = Some (snapshots, q)"
  defines "old \<equiv> outdated p now max_age"
  shows "hm_get (pr_sessions q) peer = (if peer \<in> set old then None else hm_get (pr_sessions p) peer)"
    and "hm_get (pr_session_lifetimes q) peer = (if peer \<in> set old then None else hm_get (pr_session_lifetimes p) peer)"
    and "hm_get (pr_retiring_sessions q) peer =
      (if peer \<in> set old then None
       else case hm_get (pr_retiring_sessions p) peer of
         None \<Rightarrow> None
       | Some r \<Rightarrow> if now - ps_established_at (rs_session r) < min (rs_lifetime r) max_age
                   then Some (r\<lparr>rs_lifetime := min (rs_lifetime r) max_age\<rparr>) else None)"
    and "snapshots = sort_key snapshot_key
      (map (\<lambda>peer. session_snapshot_of (the (hm_get (pr_sessions p) peer))) old)"
proof -
  have wf: "hm_wf (pr_sessions p)" "hm_wf (pr_retiring_sessions p)"
    using assms(1) by (simp_all add: plane_inv_def sessions_inv_def retiring_inv_def)
  let ?p = "shorten_retiring p now max_age"
  have p: "pr_sessions ?p = pr_sessions p" "pr_session_lifetimes ?p = pr_session_lifetimes p"
    by (simp_all add: shorten_retiring_def)
  have "distinct old" using wf(1) by (simp add: old_def outdated_def hm_wf_def distinct_map_filter)
  moreover have "set old \<subseteq> {peer. hm_contains (pr_sessions ?p) peer}"
    by (auto simp: old_def outdated_def p hm_contains_iff image_iff)
  ultimately show "hm_get (pr_sessions q) peer = (if peer \<in> set old then None else hm_get (pr_sessions p) peer)"
    "hm_get (pr_session_lifetimes q) peer = (if peer \<in> set old then None else hm_get (pr_session_lifetimes p) peer)"
    "hm_get (pr_retiring_sessions q) peer =
      (if peer \<in> set old then None
       else case hm_get (pr_retiring_sessions p) peer of
         None \<Rightarrow> None
       | Some r \<Rightarrow> if now - ps_established_at (rs_session r) < min (rs_lifetime r) max_age
                   then Some (r\<lparr>rs_lifetime := min (rs_lifetime r) max_age\<rparr>) else None)"
    "snapshots = sort_key snapshot_key
      (map (\<lambda>peer. session_snapshot_of (the (hm_get (pr_sessions p) peer))) old)"
    using remove_expired_get [of old ?p] assms(2)
    unfolding expire_sessions_at_eq [OF assms(1)] outdated_def [symmetric] old_def [symmetric]
    by (auto simp: p shorten_retiring_get [OF wf(2)] case_prod_unfold Let_def)
qed

text \<open>
  expiry is exact. After it no session, current or retired, is at or past its lifetime or the
  given age; every younger session is kept as it was, and the result lists exactly the removed current
  sessions, in the order of their peers' names.
\<close>

theorem expiry_is_exact:
  assumes "plane_run crypto show_addr p" and "expire_sessions_at p now max_age = Some (snapshots, q)"
  shows "(\<forall>peer. hm_get (pr_sessions q) peer =
      (case (hm_get (pr_sessions p) peer, hm_get (pr_session_lifetimes p) peer) of
         (Some s, Some l) \<Rightarrow> if now - ps_established_at s < min l max_age then Some s else None
       | _ \<Rightarrow> None)) \<and>
    (\<forall>peer. hm_get (pr_retiring_sessions q) peer =
      (case hm_get (pr_retiring_sessions p) peer of
         Some r \<Rightarrow>
           if hm_contains (pr_sessions q) peer \<and>
              now - ps_established_at (rs_session r) < min (rs_lifetime r) max_age
           then Some (r\<lparr>rs_lifetime := min (rs_lifetime r) max_age\<rparr>) else None
       | None \<Rightarrow> None)) \<and>
    set snapshots = {session_snapshot_of s | s. \<exists>peer. hm_get (pr_sessions p) peer = Some s \<and>
      hm_get (pr_sessions q) peer = None} \<and>
    sorted (map snapshot_key snapshots)"
proof -
  have inv: "plane_inv p" by (rule plane_run_inv [OF assms(1)])
  let ?old = "outdated p now max_age"
  note get = expire_sessions_at_get [OF inv assms(2)]
  have current: "hm_get (pr_sessions q) peer =
      (case (hm_get (pr_sessions p) peer, hm_get (pr_session_lifetimes p) peer) of
         (Some s, Some l) \<Rightarrow> if now - ps_established_at s < min l max_age then Some s else None
       | _ \<Rightarrow> None)" for peer
  proof (cases "hm_get (pr_sessions p) peer")
    case (Some s)
    obtain l where "hm_get (pr_session_lifetimes p) peer = Some l" by (rule plane_inv_session [OF inv Some])
    with Some show ?thesis unfolding get(1) outdated_iff [OF inv] by auto
  qed (simp add: get(1))
  have retiring: "hm_get (pr_retiring_sessions q) peer =
      (case hm_get (pr_retiring_sessions p) peer of
         Some r \<Rightarrow>
           if hm_contains (pr_sessions q) peer \<and>
              now - ps_established_at (rs_session r) < min (rs_lifetime r) max_age
           then Some (r\<lparr>rs_lifetime := min (rs_lifetime r) max_age\<rparr>) else None
       | None \<Rightarrow> None)" for peer
  proof (cases "hm_get (pr_retiring_sessions p) peer")
    case (Some r)
    then have "hm_get (pr_sessions p) peer \<noteq> None"
      using plane_inv_retiring(3) [OF inv Some] by (auto simp: endpoints_of_def)
    then show ?thesis unfolding hm_contains_def get(1,3) by (simp add: Some)
  qed (simp add: get(3))
  have "set snapshots = (\<lambda>peer. session_snapshot_of (the (hm_get (pr_sessions p) peer))) ` set ?old"
    unfolding get(4) set_sort set_map [of _ ?old] ..
  also have "\<dots> = {session_snapshot_of s | s. \<exists>peer. hm_get (pr_sessions p) peer = Some s \<and> peer \<in> set ?old}"
    using outdated_iff [OF inv] by (intro image_the_eq) auto
  also have "\<dots> = {session_snapshot_of s | s. \<exists>peer. hm_get (pr_sessions p) peer = Some s \<and>
      hm_get (pr_sessions q) peer = None}"
    unfolding get(1) by (metis (no_types, lifting) option.distinct(1))
  finally have "set snapshots = {session_snapshot_of s | s. \<exists>peer. hm_get (pr_sessions p) peer = Some s \<and>
      hm_get (pr_sessions q) peer = None}" .
  with current retiring show ?thesis by (simp add: get(4))
qed

end
