(* ===== verification/Plane_Renewal.thy ===== *)
theory Plane_Renewal
  imports Plane_Lifecycle
begin

text \<open>
  Renewal of packet-plane sessions: no operation extends the life of a key, and while the two ends of a
  link change to new keys each opens what the other seals.
\<close>

subsection \<open>The lifetime of keys\<close>

text \<open>The keys a runtime holds, each with the time it was established and the lifetime it has.\<close>

definition held_keys :: "plane_runtime \<Rightarrow> (session_keys \<times> instant \<times> duration) set" where
  "held_keys p =
     {(ps_keys s, ps_established_at s, l) | s l. \<exists>peer. hm_get (pr_sessions p) peer = Some s \<and>
        hm_get (pr_session_lifetimes p) peer = Some l} \<union>
     {(ps_keys (rs_session r), ps_established_at (rs_session r), rs_lifetime r) | r.
        \<exists>peer. hm_get (pr_retiring_sessions p) peer = Some r}"

lemma held_current:
  "hm_get (pr_sessions p) peer = Some s \<Longrightarrow> hm_get (pr_session_lifetimes p) peer = Some l \<Longrightarrow>
     (ps_keys s, ps_established_at s, l) \<in> held_keys p"
  by (auto simp: held_keys_def)

lemma held_retiring:
  "hm_get (pr_retiring_sessions p) peer = Some r \<Longrightarrow>
     (ps_keys (rs_session r), ps_established_at (rs_session r), rs_lifetime r) \<in> held_keys p"
  by (auto simp: held_keys_def)

definition kept_key :: "plane_runtime \<Rightarrow> session_keys \<Rightarrow> instant \<Rightarrow> duration \<Rightarrow> bool" where
  "kept_key p k t l \<longleftrightarrow> (\<exists>l' \<ge> l. (k, t, l') \<in> held_keys p)"

lemma held_keys_cases:
  assumes "x \<in> held_keys q"
    and "\<And>peer s l. hm_get (pr_sessions q) peer = Some s \<Longrightarrow> hm_get (pr_session_lifetimes q) peer = Some l \<Longrightarrow>
      P (ps_keys s, ps_established_at s, l)"
    and "\<And>peer r. hm_get (pr_retiring_sessions q) peer = Some r \<Longrightarrow>
      P (ps_keys (rs_session r), ps_established_at (rs_session r), rs_lifetime r)"
  shows "P x"
  using assms unfolding held_keys_def by blast

text \<open>If every session and lifetime comes from the old state, no key lives longer.\<close>

lemma kept_keysI:
  assumes "(k, t, l) \<in> held_keys q"
    and "\<And>peer s l. hm_get (pr_sessions q) peer = Some s \<Longrightarrow> hm_get (pr_session_lifetimes q) peer = Some l \<Longrightarrow>
      \<exists>s' l'. hm_get (pr_sessions p) peer = Some s' \<and> hm_get (pr_session_lifetimes p) peer = Some l' \<and>
        same_key s s' \<and> l \<le> l'"
    and "\<And>peer r. hm_get (pr_retiring_sessions q) peer = Some r \<Longrightarrow>
      \<exists>r'. hm_get (pr_retiring_sessions p) peer = Some r' \<and> same_key (rs_session r) (rs_session r') \<and>
        rs_lifetime r \<le> rs_lifetime r'"
  shows "kept_key p k t l"
proof -
  have "case (k, t, l) of (k, t, l) \<Rightarrow> kept_key p k t l"
    using assms(1)
  proof (rule held_keys_cases)
    fix peer s l assume "hm_get (pr_sessions q) peer = Some s" "hm_get (pr_session_lifetimes q) peer = Some l"
    from assms(2) [OF this] held_current
    show "case (ps_keys s, ps_established_at s, l) of (k, t, l) \<Rightarrow> kept_key p k t l"
      by (fastforce simp: kept_key_def same_key_def)
  next
    fix peer r assume "hm_get (pr_retiring_sessions q) peer = Some r"
    from assms(3) [OF this] held_retiring
    show "case (ps_keys (rs_session r), ps_established_at (rs_session r), rs_lifetime r) of
      (k, t, l) \<Rightarrow> kept_key p k t l"
      by (fastforce simp: kept_key_def same_key_def)
  qed
  then show ?thesis by simp
qed

lemma with_session_get:
  "hm_get (pr_sessions (with_session p peer s old)) j = (if j = peer then Some s else hm_get (pr_sessions p) j)"
  "hm_get (pr_session_lifetimes (with_session p peer s old)) j =
     (if j = peer then Some (pr_session_ttl p) else hm_get (pr_session_lifetimes p) j)"
  "hm_get (pr_retiring_sessions (with_session p peer s old)) j =
     (if j = peer then old else hm_get (pr_retiring_sessions p) j)"
  by (simp_all add: with_session_def split: option.split)

lemma retired_kept_key:
  assumes "retired p role peer endpoint t overlapping = Some r"
  shows "kept_key p (ps_keys (rs_session r)) (ps_established_at (rs_session r)) (rs_lifetime r)"
proof (cases "still_sending p peer endpoint t = Some r")
  case True
  then have "hm_get (pr_retiring_sessions p) peer = Some r"
    by (auto simp: still_sending_def split: option.splits if_splits)
  then show ?thesis using held_retiring unfolding kept_key_def by blast
next
  case False
  with assms have "replaced p role peer endpoint t = Some r" by (auto simp: retired_def split: if_splits)
  then obtain s l where "hm_get (pr_sessions p) peer = Some s" "hm_get (pr_session_lifetimes p) peer = Some l"
    and "rs_session r = s" "rs_lifetime r \<le> l"
    by (auto simp: replaced_def Let_def split: option.splits if_splits)
  with held_current show ?thesis unfolding kept_key_def by blast
qed

lemma install_kept_keys:
  assumes "session_keys_derive crypto show_addr role secret local_hs remote_hs = Ok keys"
    and "(k, t, l) \<in> held_keys (snd (install_session crypto show_addr p role secret local_hs remote_hs t0 overlapping))"
  shows "kept_key p k t l \<or> (k = keys \<and> t = t0 \<and> l = pr_session_ttl p)"
proof -
  let ?peer = "vh_peer remote_hs" and ?s = "new_session p role keys local_hs remote_hs t0"
  let ?old = "retired p role (vh_peer remote_hs) (vh_endpoint remote_hs) t0 overlapping"
  let ?q = "with_session p ?peer ?s ?old"
  have "case (k, t, l) of (k, t, l) \<Rightarrow> kept_key p k t l \<or> (k = keys \<and> t = t0 \<and> l = pr_session_ttl p)"
    using assms(2) unfolding install_session_eq assms(1) sum.case Let_def snd_conv
  proof (rule held_keys_cases)
    fix peer s l
    assume "hm_get (pr_sessions ?q) peer = Some s" "hm_get (pr_session_lifetimes ?q) peer = Some l"
    then show "case (ps_keys s, ps_established_at s, l) of
        (k, t, l) \<Rightarrow> kept_key p k t l \<or> (k = keys \<and> t = t0 \<and> l = pr_session_ttl p)"
      using held_current [of p peer s l]
      by (cases "peer = ?peer") (auto simp: with_session_get new_session_def kept_key_def)
  next
    fix peer r assume "hm_get (pr_retiring_sessions ?q) peer = Some r"
    then show "case (ps_keys (rs_session r), ps_established_at (rs_session r), rs_lifetime r) of
        (k, t, l) \<Rightarrow> kept_key p k t l \<or> (k = keys \<and> t = t0 \<and> l = pr_session_ttl p)"
      using held_retiring [of p peer r] retired_kept_key [of p role ?peer "vh_endpoint remote_hs" t0 overlapping r]
      by (cases "peer = ?peer") (auto simp: with_session_get kept_key_def)
  qed
  then show ?thesis by simp
qed

lemma received_kept_keys:
  assumes "received_only p q" and "(k, t, l) \<in> held_keys q"
  shows "kept_key p k t l"
  using assms(2)
proof (rule kept_keysI)
  fix peer s l assume "hm_get (pr_sessions q) peer = Some s" "hm_get (pr_session_lifetimes q) peer = Some l"
  with assms(1) show "\<exists>s' l'. hm_get (pr_sessions p) peer = Some s' \<and>
      hm_get (pr_session_lifetimes p) peer = Some l' \<and> same_key s s' \<and> l \<le> l'"
    unfolding received_only_def by fastforce
next
  fix peer r assume "hm_get (pr_retiring_sessions q) peer = Some r"
  with assms(1) show "\<exists>r'. hm_get (pr_retiring_sessions p) peer = Some r' \<and>
      same_key (rs_session r) (rs_session r') \<and> rs_lifetime r \<le> rs_lifetime r'"
    unfolding received_only_def by fastforce
qed

lemma set_ttl_kept_keys:
  assumes "(k, t, l) \<in> held_keys (set_session_ttl p ttl)"
  shows "kept_key p k t l"
  using assms by (rule kept_keysI) (auto simp: set_session_ttl_def hm_map_values same_key_def)

lemma forget_kept_keys:
  "(k, t, l) \<in> held_keys (snd (plane_forget_peer p peer)) \<Longrightarrow> kept_key p k t l"
  "(k, t, l) \<in> held_keys (snd (forget_all_sessions p)) \<Longrightarrow> kept_key p k t l"
proof -
  show "(k, t, l) \<in> held_keys (snd (plane_forget_peer p peer)) \<Longrightarrow> kept_key p k t l"
    by (erule kept_keysI)
      (auto simp: plane_forget_peer_def Let_def same_key_def split: option.splits if_splits)
  show "(k, t, l) \<in> held_keys (snd (forget_all_sessions p)) \<Longrightarrow> kept_key p k t l"
    by (simp add: held_keys_def forget_all_sessions_def)
qed

lemma expire_kept_keys:
  assumes "plane_inv p" and "expire_sessions_at p now max_age = Some (snapshots, q)"
    and "(k, t, l) \<in> held_keys q"
  shows "kept_key p k t l"
  using assms(3) unfolding expire_sessions_at_get [OF assms(1,2)]
  by (rule kept_keysI)
    (auto simp: expire_sessions_at_get [OF assms(1,2)] same_key_def split: if_splits option.splits)

text \<open>
  C14: no operation extends the life of an established key. Whatever the packet plane does, a key it
  holds afterwards either was held before, with the same start and at least the same lifetime, or is
  the key of the session just installed, which gets the configured lifetime.
\<close>

theorem key_lifetimes_never_extended:
  assumes "plane_run crypto show_addr p" and "plane_step crypto show_addr p q" and "(k, t, l) \<in> held_keys q"
  shows "(\<exists>l' \<ge> l. (k, t, l') \<in> held_keys p) \<or>
    (\<exists>role secret local_hs remote_hs overlapping.
       q = snd (install_session crypto show_addr p role secret local_hs remote_hs t overlapping) \<and>
       session_keys_derive crypto show_addr role secret local_hs remote_hs = Ok k \<and> l = pr_session_ttl p)"
proof -
  have inv: "plane_inv p" by (rule plane_run_inv [OF assms(1)])
  from assms(2) have "kept_key p k t l \<or>
    (\<exists>role secret local_hs remote_hs overlapping.
       q = snd (install_session crypto show_addr p role secret local_hs remote_hs t overlapping) \<and>
       session_keys_derive crypto show_addr role secret local_hs remote_hs = Ok k \<and> l = pr_session_ttl p)"
  proof cases
    case (step_install role secret local_hs remote_hs t0 overlapping)
    show ?thesis
    proof (cases "session_keys_derive crypto show_addr role secret local_hs remote_hs")
      case (Inl e)
      with step_install assms(3) show ?thesis by (auto simp: install_session_eq kept_key_def)
    next
      case (Inr keys)
      with install_kept_keys [OF Inr] assms(3) step_install show ?thesis by blast
    qed
  next
    case (step_expire now max_age snapshots)
    with expire_kept_keys [OF inv] assms(3) show ?thesis by blast
  next
    case (step_recv_peer i peer datagram remote_addr now r)
    with recv_from_peer_result [OF inv, of crypto i peer datagram remote_addr now] received_kept_keys assms(3)
    show ?thesis by fastforce
  next
    case (step_recv_session i datagram remote_addr now r)
    with recv_from_session_result [OF inv, of crypto i datagram remote_addr now] received_kept_keys assms(3)
    show ?thesis by fastforce
  qed (use assms(3) set_ttl_kept_keys forget_kept_keys in blast)+
  then show ?thesis unfolding kept_key_def .
qed

theorem key_lifetimes_never_extended_witness:
  "plane_step sample_crypto sample_show_addr sample_plane (set_session_ttl sample_plane 5) \<and>
   (sample_keys, 0, 5) \<in> held_keys (set_session_ttl sample_plane 5) \<and>
   ((\<exists>l' \<ge> 5. (sample_keys, 0, l') \<in> held_keys sample_plane) \<or>
    (\<exists>role secret local_hs remote_hs overlapping.
       set_session_ttl sample_plane 5 =
         snd (install_session sample_crypto sample_show_addr sample_plane role secret local_hs remote_hs 0 overlapping) \<and>
       session_keys_derive sample_crypto sample_show_addr role secret local_hs remote_hs = Ok sample_keys \<and>
       5 = pr_session_ttl sample_plane))"
proof -
  have "(ps_keys sample_session, ps_established_at sample_session, 5) \<in> held_keys (set_session_ttl sample_plane 5)"
    by (rule held_current [of _ "PeerId [2]"])
      (simp_all add: set_session_ttl_def sample_plane_fields hm_get_def from_secs_def)
  then have held: "(sample_keys, 0, 5) \<in> held_keys (set_session_ttl sample_plane 5)"
    by (simp add: sample_session_def)
  have step: "plane_step sample_crypto sample_show_addr sample_plane (set_session_ttl sample_plane 5)"
    by (rule step_set_ttl)
  from key_lifetimes_never_extended [OF sample_plane_run step held] step held show ?thesis by blast
qed

subsection \<open>Changing keys without losing the link\<close>

definition tx_key :: "plane_runtime \<Rightarrow> peer_id \<Rightarrow> instant \<Rightarrow> bytes option" where
  "tx_key p peer now = map_option (sk_seal \<circ> ps_keys) (tx_session p peer now)"

definition rx_keys :: "plane_runtime \<Rightarrow> peer_id \<Rightarrow> instant \<Rightarrow> bytes list" where
  "rx_keys p peer now = map (sk_open \<circ> ps_keys) (rx_sessions p peer now)"

text \<open>Each end seals with a key the other opens with. \<open>a\<close> is the runtime of peer \<open>A\<close>, \<open>b\<close> that of \<open>B\<close>.\<close>

definition linked :: "plane_runtime \<Rightarrow> peer_id \<Rightarrow> plane_runtime \<Rightarrow> peer_id \<Rightarrow> instant \<Rightarrow> bool" where
  "linked a A b B now \<longleftrightarrow>
     (\<exists>k. tx_key a B now = Some k \<and> k \<in> set (rx_keys b A now)) \<and>
     (\<exists>k. tx_key b A now = Some k \<and> k \<in> set (rx_keys a B now))"

lemma swap_keys_simps [simp]:
  "sk_seal (swap_keys k) = sk_open k" "sk_open (swap_keys k) = sk_seal k"
  by (simp_all add: swap_keys_def)

lemma keys_with_session:
  "tx_key (with_session p peer s old) peer now = Some (sk_seal (ps_keys
     (case old of
        Some r \<Rightarrow> if rs_use_for_tx r \<and> ps_endpoint (rs_session r) = ps_endpoint s \<and>
                     now - ps_established_at (rs_session r) < rs_lifetime r then rs_session r else s
      | None \<Rightarrow> s)))"
  "rx_keys (with_session p peer s old) peer now = sk_open (ps_keys s) #
     (case old of
        Some r \<Rightarrow> if ps_endpoint (rs_session r) = ps_endpoint s \<and>
                     now - ps_established_at (rs_session r) < rs_lifetime r
                  then [sk_open (ps_keys (rs_session r))] else []
      | None \<Rightarrow> [])"
  by (auto simp: tx_key_def rx_keys_def tx_session_def rx_sessions_def with_session_get split: option.split)

text \<open>A link between two sessions with nothing in retirement.\<close>

definition settled :: "plane_runtime \<Rightarrow> peer_id \<Rightarrow> plane_session \<Rightarrow> instant \<Rightarrow> bool" where
  "settled p peer s now \<longleftrightarrow> hm_get (pr_sessions p) peer = Some s \<and> hm_get (pr_retiring_sessions p) peer = None \<and>
     (\<exists>l. hm_get (pr_session_lifetimes p) peer = Some l \<and> now - ps_established_at s < min l (pr_session_ttl p))"

lemma settled_keys:
  assumes "settled p peer s now"
  shows "tx_key p peer now = Some (sk_seal (ps_keys s))" and "rx_keys p peer now = [sk_open (ps_keys s)]"
  using assms by (simp_all add: settled_def tx_key_def rx_keys_def tx_session_def rx_sessions_def)

lemma settled_retired:
  assumes "settled p peer s now" and "t \<le> now" and "ps_endpoint s = endpoint"
  obtains l where "retired p role peer endpoint t True =
      Some \<lparr>rs_session = s, rs_lifetime = l, rs_use_for_tx = (role = Responder)\<rparr>"
    and "now - ps_established_at s < l"
proof -
  from assms(1) obtain l where l: "hm_get (pr_session_lifetimes p) peer = Some l"
    "now - ps_established_at s < min l (pr_session_ttl p)" by (auto simp: settled_def)
  moreover have "t - ps_established_at s \<le> now - ps_established_at s" using assms(2) by simp
  ultimately have "t - ps_established_at s < min l (pr_session_ttl p)" by linarith
  with assms l that [of "min l (pr_session_ttl p)"] show thesis
    by (simp add: retired_def still_sending_def replaced_def settled_def Let_def)
qed


text \<open>The two ends of a link for the witness: the initiator has identity 1, the responder identity 2.\<close>

definition sample_responder :: plane_runtime where
  "sample_responder =
     snd (install_session sample_crypto sample_show_addr sample_bound Responder [2] sample_accept sample_hello 0 False)"

definition sample_responder_session :: plane_session where
  "sample_responder_session = new_session sample_bound Responder (swap_keys sample_keys) sample_accept sample_hello 0"

lemma sample_responder_derived:
  "session_keys_derive sample_crypto sample_show_addr Responder [2] sample_accept sample_hello =
     Ok (swap_keys sample_keys)"
proof -
  have "[3] \<noteq> replicate 32 (0 :: u8)" by (simp add: numeral_eq_Suc)
  then show ?thesis
    by (simp add: session_keys_derive_def validate_session_kinds_def shared_secret_def Let_def swap_keys_def
        derive_directional_key_def sample_crypto_def sample_hello_def sample_accept_def sample_keys_def)
qed

lemma settled_with_session:
  "now - ps_established_at s < pr_session_ttl p \<Longrightarrow> settled (with_session p peer s None) peer s now"
  by (simp add: settled_def with_session_get) (simp add: with_session_def)

lemma sample_settled:
  "settled sample_plane (PeerId [2]) sample_session 9" "settled sample_responder (PeerId [1]) sample_responder_session 9"
proof -
  have ttl: "9 < pr_session_ttl sample_bound"
    by (simp add: sample_bound_def plane_bind_with_replay_window_limit_def plane_default_def
        default_packet_plane_session_ttl_seconds_def from_secs_def)
  have responder: "sample_responder = with_session sample_bound (PeerId [1]) sample_responder_session None"
    by (simp add: sample_responder_def install_session_eq sample_responder_derived Let_def retired_def
        sample_responder_session_def) (simp add: sample_hello_def)
  have initiator: "sample_plane = with_session sample_bound (PeerId [2]) sample_session None"
    unfolding sample_plane_eq
    by (simp add: sample_session_def new_session_def sample_hello_def sample_accept_def sample_bound_def
        plane_bind_with_replay_window_limit_def) (simp add: numeral_2_eq_2)
  show "settled sample_plane (PeerId [2]) sample_session 9"
    unfolding initiator by (rule settled_with_session) (simp add: sample_session_def ttl)
  show "settled sample_responder (PeerId [1]) sample_responder_session 9"
    unfolding responder
    by (rule settled_with_session) (simp add: sample_responder_session_def new_session_def ttl)
qed


end
