(* ===== verification/Quic_Router.thy ===== *)
theory Quic_Router
  imports Packet_Plane "HOL-Library.Multiset"
begin

text \<open>
  How the QUIC packet plane pairs incoming connections with the negotiations that expect them
  (\<open>PacketPlaneQuicBinding\<close>, \<open>PacketPlaneQuicAcceptRouter\<close> and its registrations in
  \<open>src/src/runtime/packet_plane.rs\<close>). A connection is an opaque value. An operation that closes
  connections returns them; waking the waiting tasks is not part of the state.
\<close>

definition QUIC_BINDING_MAGIC :: bytes where
  "QUIC_BINDING_MAGIC = [0x70, 0x32, 0x70, 0x76, 0x70, 0x6e, 0x51, 0x31]"

text \<open>\<open>QUIC_BINDING_DOMAIN\<close> is the text \<open>p2p-vpn QUIC connection binding v1\<close>.\<close>

definition QUIC_BINDING_DOMAIN :: bytes where
  "QUIC_BINDING_DOMAIN =
     [0x70, 0x32, 0x70, 0x2d, 0x76, 0x70, 0x6e, 0x20, 0x51, 0x55, 0x49, 0x43, 0x20, 0x63, 0x6f,
      0x6e, 0x6e, 0x65, 0x63, 0x74, 0x69, 0x6f, 0x6e, 0x20, 0x62, 0x69, 0x6e, 0x64, 0x69, 0x6e,
      0x67, 0x20, 0x76, 0x31]"

definition QUIC_BINDING_TOKEN_LEN :: usize where
  "QUIC_BINDING_TOKEN_LEN = 32"

definition QUIC_BINDING_WIRE_LEN :: usize where
  "QUIC_BINDING_WIRE_LEN = length QUIC_BINDING_MAGIC + QUIC_BINDING_TOKEN_LEN"

definition QUIC_BINDING_EARLY_TTL :: duration where
  "QUIC_BINDING_EARLY_TTL = from_secs 2"

definition QUIC_BINDING_MAX_IN_FLIGHT :: usize where
  "QUIC_BINDING_MAX_IN_FLIGHT = 16"

text \<open>A binding is its 32-byte token.\<close>

type_synonym quic_binding = bytes

definition binding_from_handshake :: "crypto_library \<Rightarrow> verified_handshake \<Rightarrow> quic_binding" where
  "binding_from_handshake crypto h =
     kdf_sha256 crypto
       (QUIC_BINDING_DOMAIN @ [handshake_kind_byte (vh_kind h)] @ as_bytes (vh_peer h)
          @ vh_ephemeral_public_key h @ to_be_bytes 4 (vh_session_id h) @ to_be_bytes 8 (vh_nonce h))"

definition binding_encode :: "quic_binding \<Rightarrow> bytes" where
  "binding_encode b = QUIC_BINDING_MAGIC @ b"

text \<open>The error of a malformed binding is \<open>None\<close>.\<close>

definition binding_decode :: "bytes \<Rightarrow> quic_binding option" where
  "binding_decode encoded =
     (if length encoded \<noteq> QUIC_BINDING_WIRE_LEN \<or>
         take (length QUIC_BINDING_MAGIC) encoded \<noteq> QUIC_BINDING_MAGIC
      then None else Some (drop (length QUIC_BINDING_MAGIC) encoded))"

lemma binding_decode_iff:
  "binding_decode encoded = Some b \<longleftrightarrow> length b = QUIC_BINDING_TOKEN_LEN \<and> encoded = binding_encode b"
proof -
  have "length QUIC_BINDING_MAGIC = 8" by (simp add: QUIC_BINDING_MAGIC_def)
  then show ?thesis
    by (auto simp: binding_decode_def binding_encode_def QUIC_BINDING_WIRE_LEN_def)
      (metis append_take_drop_id)
qed

subsection \<open>The router\<close>

record 'c quic_router =
  qr_closed :: bool
  qr_expected :: "(quic_binding, nat) hash_map"
  qr_pending :: "(quic_binding, 'c) hash_map"
  qr_early :: "(quic_binding, 'c \<times> instant) hash_map"

definition router_default :: "'c quic_router" where
  "router_default = \<lparr>qr_closed = False, qr_expected = [], qr_pending = [], qr_early = []\<rparr>"

definition router_register :: "'c quic_router \<Rightarrow> quic_binding \<Rightarrow> 'c quic_router" where
  "router_register r b =
     (let n = (case hm_get (qr_expected r) b of Some n \<Rightarrow> n | None \<Rightarrow> 0);
          r = r\<lparr>qr_expected := hm_insert (qr_expected r) b (n + 1)\<rparr>
      in if hm_contains (qr_pending r) b then r
         else
           (case hm_get (qr_early r) b of
              None \<Rightarrow> r
            | Some (connection, _) \<Rightarrow>
                r\<lparr>qr_early := hm_remove (qr_early r) b,
                  qr_pending := hm_insert (qr_pending r) b connection\<rparr>))"

definition router_take :: "'c quic_router \<Rightarrow> quic_binding \<Rightarrow> 'c option \<times> 'c quic_router" where
  "router_take r b = (hm_get (qr_pending r) b, r\<lparr>qr_pending := hm_remove (qr_pending r) b\<rparr>)"

definition router_route ::
    "'c quic_router \<Rightarrow> quic_binding \<Rightarrow> 'c \<Rightarrow> instant \<Rightarrow> bool \<times> 'c quic_router" where
  "router_route r b connection now =
     (if qr_closed r \<or> hm_contains (qr_pending r) b \<or> hm_contains (qr_early r) b then (False, r)
      else if hm_contains (qr_expected r) b
      then (True, r\<lparr>qr_pending := hm_insert (qr_pending r) b connection\<rparr>)
      else if length (qr_early r) < QUIC_BINDING_MAX_IN_FLIGHT
      then (True, r\<lparr>qr_early := hm_insert (qr_early r) b (connection, now)\<rparr>)
      else (False, r))"

definition dispatch_capacity :: "'c quic_router \<Rightarrow> usize \<Rightarrow> bool" where
  "dispatch_capacity r handshakes \<longleftrightarrow>
     qr_expected r \<noteq> [] \<and>
     saturating_add_usize handshakes (length (qr_early r)) < QUIC_BINDING_MAX_IN_FLIGHT"

definition expire_early_bindings :: "'c quic_router \<Rightarrow> instant \<Rightarrow> 'c list \<times> 'c quic_router" where
  "expire_early_bindings r now =
     (let old = (\<lambda>(_, received_at). now - received_at \<ge> QUIC_BINDING_EARLY_TTL)
      in (map (fst \<circ> snd) (filter (\<lambda>(_, v). old v) (qr_early r)),
          r\<lparr>qr_early := hm_retain (\<lambda>_ v. \<not> old v) (qr_early r)\<rparr>))"

definition mark_closed :: "'c quic_router \<Rightarrow> 'c quic_router" where
  "mark_closed r = r\<lparr>qr_closed := True\<rparr>"

text \<open>\<open>Drop for PacketPlaneQuicBindingRegistration\<close>.\<close>

definition drop_registration :: "'c quic_router \<Rightarrow> quic_binding \<Rightarrow> 'c list \<times> 'c quic_router" where
  "drop_registration r b =
     (case hm_get (qr_expected r) b of
        None \<Rightarrow> ([], r)
      | Some n \<Rightarrow>
          if n > 1 then ([], r\<lparr>qr_expected := hm_insert (qr_expected r) b (n - 1)\<rparr>)
          else
            (let r = r\<lparr>qr_expected := hm_remove (qr_expected r) b\<rparr>
             in case hm_get (qr_pending r) b of
                  None \<Rightarrow> ([], r)
                | Some connection \<Rightarrow> ([connection], r\<lparr>qr_pending := hm_remove (qr_pending r) b\<rparr>)))"

text \<open>
  One turn of the loop of \<open>accept_bound\<close>, which holds a registration: it returns the connection routed
  to it, or fails because the endpoint is closed, or waits. Returning drops the registration.
\<close>

datatype 'c accept_turn = Accepted_connection 'c | Endpoint_closed | Still_waiting

definition accept_bound_turn ::
    "'c quic_router \<Rightarrow> quic_binding \<Rightarrow> 'c accept_turn \<times> 'c list \<times> 'c quic_router" where
  "accept_bound_turn r b =
     (case router_take r b of
        (Some connection, r) \<Rightarrow>
          (let (closed, r) = drop_registration r b in (Accepted_connection connection, closed, r))
      | (None, r) \<Rightarrow>
          if qr_closed r then (let (closed, r) = drop_registration r b in (Endpoint_closed, closed, r))
          else (Still_waiting, [], r))"

subsection \<open>Every connection is accounted for\<close>

definition waiting_connections :: "'c quic_router \<Rightarrow> 'c multiset" where
  "waiting_connections r = mset (map snd (qr_pending r)) + mset (map (fst \<circ> snd) (qr_early r))"

definition router_inv :: "'c quic_router \<Rightarrow> quic_binding multiset \<Rightarrow> bool" where
  "router_inv r regs \<longleftrightarrow>
     hm_wf (qr_expected r) \<and> hm_wf (qr_pending r) \<and> hm_wf (qr_early r) \<and>
     (\<forall>b. hm_get (qr_expected r) b = (if b \<in># regs then Some (count regs b) else None)) \<and>
     (\<forall>b. hm_contains (qr_pending r) b \<longrightarrow> b \<in># regs) \<and>
     (\<forall>b. hm_contains (qr_early r) b \<longrightarrow> b \<notin># regs) \<and>
     length (qr_early r) \<le> QUIC_BINDING_MAX_IN_FLIGHT"

text \<open>
  The router as negotiations register and give up, connections arrive and are taken, and the sweep
  runs. The ghost state is the live registrations, the connections the router accepted, those handed
  to negotiations and those closed.
\<close>

inductive router_run ::
    "'c quic_router \<Rightarrow> quic_binding multiset \<Rightarrow> 'c multiset \<Rightarrow> 'c multiset \<Rightarrow> 'c multiset \<Rightarrow> bool" where
  router_start: "router_run router_default {#} {#} {#} {#}"
| router_registers: "router_run r regs routed taken closed \<Longrightarrow>
    router_run (router_register r b) (add_mset b regs) routed taken closed"
| router_routes: "router_run r regs routed taken closed \<Longrightarrow> router_route r b c now = (ok, r') \<Longrightarrow>
    router_run r' regs (if ok then add_mset c routed else routed) taken closed"
| router_accepts: "router_run r regs routed taken closed \<Longrightarrow> b \<in># regs \<Longrightarrow>
    accept_bound_turn r b = (Accepted_connection c, cs, r') \<Longrightarrow>
    router_run r' (regs - {#b#}) routed (add_mset c taken) (closed + mset cs)"
| router_fails: "router_run r regs routed taken closed \<Longrightarrow> b \<in># regs \<Longrightarrow>
    accept_bound_turn r b = (Endpoint_closed, cs, r') \<Longrightarrow>
    router_run r' (regs - {#b#}) routed taken (closed + mset cs)"
| router_gives_up: "router_run r regs routed taken closed \<Longrightarrow> b \<in># regs \<Longrightarrow>
    drop_registration r b = (cs, r') \<Longrightarrow>
    router_run r' (regs - {#b#}) routed taken (closed + mset cs)"
| router_sweeps: "router_run r regs routed taken closed \<Longrightarrow> expire_early_bindings r now = (cs, r') \<Longrightarrow>
    router_run r' regs routed taken (closed + mset cs)"
| router_closes: "router_run r regs routed taken closed \<Longrightarrow>
    router_run (mark_closed r) regs routed taken closed"

declare hm_contains_insert [simp] hm_contains_remove [simp]

lemma expected_iff: "router_inv r regs \<Longrightarrow> hm_contains (qr_expected r) b \<longleftrightarrow> b \<in># regs"
  by (simp add: router_inv_def hm_contains_def)

lemma router_register_inv:
  assumes "router_inv r regs"
  shows "router_inv (router_register r b) (add_mset b regs) \<and>
    waiting_connections (router_register r b) = waiting_connections r"
proof -
  let ?r = "r\<lparr>qr_expected := hm_insert (qr_expected r) b (count regs b + 1)\<rparr>"
  have n: "(case hm_get (qr_expected r) b of Some n \<Rightarrow> n | None \<Rightarrow> 0) = count regs b"
    using assms by (auto simp: router_inv_def not_in_iff split: option.split)
  show ?thesis
  proof (cases "hm_get (qr_early r) b")
    case None
    then have "router_register r b = ?r" by (simp add: router_register_def n Let_def)
    moreover have "router_inv ?r (add_mset b regs)"
      using assms None by (auto simp: router_inv_def hm_contains_def)
    ultimately show ?thesis by (simp add: waiting_connections_def)
  next
    case (Some v)
    obtain c t where v: "v = (c, t)" by force
    from Some assms have "b \<notin># regs" by (auto simp: router_inv_def hm_contains_def)
    then have np: "\<not> hm_contains (qr_pending r) b" using assms by (auto simp: router_inv_def)
    have reg: "router_register r b = ?r\<lparr>qr_early := hm_remove (qr_early r) b,
        qr_pending := hm_insert (qr_pending r) b c\<rparr>"
      using Some np v by (simp add: router_register_def n Let_def)
    have wf: "hm_wf (qr_early r)" using assms by (simp add: router_inv_def)
    have "length (hm_remove (qr_early r) b) \<le> QUIC_BINDING_MAX_IN_FLIGHT"
      using assms length_hm_remove [OF wf, of b] by (auto simp: router_inv_def)
    then have "router_inv (router_register r b) (add_mset b regs)"
      using assms by (auto simp: reg router_inv_def)
    moreover have "mset (map (fst \<circ> snd) (qr_early r)) = add_mset c (mset (map (fst \<circ> snd) (hm_remove (qr_early r) b)))"
      using arg_cong [OF mset_hm_remove [OF wf Some], of "image_mset (fst \<circ> snd)"] by (simp add: v)
    ultimately show ?thesis
      using arg_cong [OF mset_hm_insert [OF np, of c], of "image_mset snd"]
      by (simp add: reg waiting_connections_def)
  qed
qed

lemma router_route_inv:
  assumes "router_inv r regs" and "router_route r b c now = (ok, r')"
  shows "router_inv r' regs \<and>
    waiting_connections r' = (if ok then add_mset c (waiting_connections r) else waiting_connections r)"
proof -
  from assms(2) consider "ok = False" "r' = r"
    | "ok" "r' = r\<lparr>qr_pending := hm_insert (qr_pending r) b c\<rparr>" "\<not> hm_contains (qr_pending r) b"
      "hm_contains (qr_expected r) b"
    | "ok" "r' = r\<lparr>qr_early := hm_insert (qr_early r) b (c, now)\<rparr>" "\<not> hm_contains (qr_early r) b"
      "\<not> hm_contains (qr_expected r) b" "length (qr_early r) < QUIC_BINDING_MAX_IN_FLIGHT"
    by (auto simp: router_route_def split: if_splits)
  then show ?thesis
  proof cases
    case 1
    then show ?thesis using assms(1) by simp
  next
    case 2
    then have "b \<in># regs" using expected_iff [OF assms(1)] by simp
    then show ?thesis
      using assms(1) 2 arg_cong [OF mset_hm_insert [OF 2(3), of c], of "image_mset snd"]
      by (auto simp: router_inv_def waiting_connections_def)
  next
    case 3
    then have "b \<notin># regs" using expected_iff [OF assms(1)] by simp
    then show ?thesis
      using assms(1) 3 arg_cong [OF mset_hm_insert [OF 3(3), of "(c, now)"], of "image_mset (fst \<circ> snd)"]
      by (auto simp: router_inv_def waiting_connections_def length_hm_insert)
  qed
qed

lemma drop_registration_inv:
  assumes "router_inv r regs" and "b \<in># regs" and "drop_registration r b = (cs, r')"
  shows "router_inv r' (regs - {#b#}) \<and> waiting_connections r = waiting_connections r' + mset cs"
proof -
  have n: "hm_get (qr_expected r) b = Some (count regs b)" using assms(1,2) by (simp add: router_inv_def)
  show ?thesis
  proof (cases "count regs b > 1")
    case True
    then have "r' = r\<lparr>qr_expected := hm_insert (qr_expected r) b (count regs b - 1)\<rparr>" "cs = []"
      using assms(3) n by (simp_all add: drop_registration_def)
    moreover from True have "b' \<in># regs - {#b#} \<longleftrightarrow> b' \<in># regs" for b'
      by (auto simp: in_diff_count count_greater_zero_iff [symmetric] simp del: count_greater_zero_iff)
    ultimately show ?thesis using assms(1,2) by (auto simp: router_inv_def waiting_connections_def)
  next
    case False
    with assms(2) have one: "count regs b = 1" by (simp add: Suc_le_eq leI le_antisym)
    then have gone: "b' \<in># regs - {#b#} \<longleftrightarrow> b' \<noteq> b \<and> b' \<in># regs" for b'
      by (auto simp: in_diff_count count_greater_zero_iff [symmetric] simp del: count_greater_zero_iff)
    let ?r = "r\<lparr>qr_expected := hm_remove (qr_expected r) b\<rparr>"
    have wf: "hm_wf (qr_pending r)" using assms(1) by (simp add: router_inv_def)
    show ?thesis
    proof (cases "hm_get (qr_pending r) b")
      case None
      then have "r' = ?r" "cs = []" using assms(3) n one by (simp_all add: drop_registration_def Let_def)
      then show ?thesis
        using assms(1) None by (auto simp: router_inv_def waiting_connections_def gone hm_contains_def)
    next
      case (Some c)
      then have r': "r' = ?r\<lparr>qr_pending := hm_remove (qr_pending r) b\<rparr>" "cs = [c]"
        using assms(3) n one by (simp_all add: drop_registration_def Let_def)
      have "mset (map snd (qr_pending r)) = add_mset c (mset (map snd (hm_remove (qr_pending r) b)))"
        using arg_cong [OF mset_hm_remove [OF wf Some], of "image_mset snd"] by simp
      then show ?thesis
        using assms(1) by (auto simp: r' router_inv_def waiting_connections_def gone)
    qed
  qed
qed

lemma router_take_inv:
  assumes "router_inv r regs" and "router_take r b = (c, r')"
  shows "router_inv r' regs \<and>
    waiting_connections r = (case c of None \<Rightarrow> waiting_connections r' | Some c \<Rightarrow> add_mset c (waiting_connections r'))"
proof (cases "hm_get (qr_pending r) b")
  case None
  have "AList.delete b (qr_pending r) = qr_pending r"
    using None by (simp add: hm_get_def map_of_eq_None_iff delete_idem)
  with assms None show ?thesis by (auto simp: router_take_def hm_remove_def)
next
  case (Some c')
  have wf: "hm_wf (qr_pending r)" using assms(1) by (simp add: router_inv_def)
  have "mset (map snd (qr_pending r)) = add_mset c' (mset (map snd (hm_remove (qr_pending r) b)))"
    using arg_cong [OF mset_hm_remove [OF wf Some], of "image_mset snd"] by simp
  moreover have "c = Some c'" "r' = r\<lparr>qr_pending := hm_remove (qr_pending r) b\<rparr>"
    using assms(2) Some by (simp_all add: router_take_def)
  ultimately show ?thesis using assms(1) by (auto simp: router_inv_def waiting_connections_def)
qed

lemma expire_early_inv:
  assumes "router_inv r regs" and "expire_early_bindings r now = (cs, r')"
  shows "router_inv r' regs \<and> waiting_connections r = waiting_connections r' + mset cs"
proof -
  let ?old = "\<lambda>(_, received_at). now - received_at \<ge> QUIC_BINDING_EARLY_TTL"
  let ?kept = "hm_retain (\<lambda>_ v. \<not> ?old v) (qr_early r)"
  from assms(2) have r': "r' = r\<lparr>qr_early := ?kept\<rparr>"
    and cs: "cs = map (fst \<circ> snd) (filter (\<lambda>(_, v). ?old v) (qr_early r))"
    by (auto simp: expire_early_bindings_def Let_def)
  have wf: "hm_wf (qr_early r)" using assms(1) by (simp add: router_inv_def)
  have sub: "hm_contains ?kept b \<Longrightarrow> hm_contains (qr_early r) b" for b
    by (simp add: hm_contains_def hm_get_retain [OF wf] split: option.splits if_splits)
  have "length ?kept \<le> length (qr_early r)" by (simp add: hm_retain_def)
  then have "router_inv r' regs"
    using assms(1) sub by (auto simp: r' router_inv_def)
  moreover have parts: "mset (qr_early r) = mset ?kept + mset (filter (\<lambda>(_, v). ?old v) (qr_early r))"
    unfolding hm_retain_def mset_filter
    using multiset_partition [of "mset (qr_early r)" "\<lambda>(_, v). ?old v"]
    by (simp add: case_prod_unfold)
  have "mset (map (fst \<circ> snd) (qr_early r)) = mset (map (fst \<circ> snd) ?kept) + mset cs"
    unfolding mset_map cs parts by (rule image_mset_union)
  ultimately show ?thesis by (simp add: r' waiting_connections_def)
qed

lemma accept_bound_turn_inv:
  assumes "router_inv r regs" and "b \<in># regs" and "accept_bound_turn r b = (turn, cs, r')"
    and "turn \<noteq> Still_waiting"
  shows "router_inv r' (regs - {#b#}) \<and> waiting_connections r =
    (case turn of Accepted_connection c \<Rightarrow> add_mset c (waiting_connections r') | _ \<Rightarrow> waiting_connections r') + mset cs"
proof -
  obtain c r1 where tk: "router_take r b = (c, r1)" by force
  obtain cs' r2 where dr: "drop_registration r1 b = (cs', r2)" by force
  from router_take_inv [OF assms(1) tk] have inv: "router_inv r1 regs" by blast
  note take_drop = router_take_inv [OF assms(1) tk] drop_registration_inv [OF inv assms(2) dr]
  from assms(3,4) tk dr take_drop show ?thesis
    by (cases c) (auto simp: accept_bound_turn_def split: if_splits)
qed

lemma router_run_inv:
  "router_run r regs routed taken closed \<Longrightarrow>
     router_inv r regs \<and> routed = waiting_connections r + taken + closed"
proof (induction rule: router_run.induct)
  case router_start
  show ?case by (simp add: router_inv_def router_default_def waiting_connections_def hm_contains_def)
next
  case (router_registers r regs routed taken closed b)
  then show ?case using router_register_inv by metis
next
  case (router_routes r regs routed taken closed b c now ok r')
  then show ?case using router_route_inv [of r regs b c now ok r'] by (cases ok) auto
next
  case (router_accepts r regs routed taken closed b c cs r')
  then show ?case using accept_bound_turn_inv [of r regs b "Accepted_connection c" cs r'] by simp
next
  case (router_fails r regs routed taken closed b cs r')
  then show ?case using accept_bound_turn_inv [of r regs b Endpoint_closed cs r'] by simp
next
  case (router_gives_up r regs routed taken closed b cs r')
  then show ?case using drop_registration_inv [of r regs b cs r'] by simp
next
  case (router_sweeps r regs routed taken closed now cs r')
  then show ?case using expire_early_inv [of r regs now cs r'] by simp
next
  case (router_closes r regs routed taken closed)
  then show ?case by (simp add: mark_closed_def router_inv_def waiting_connections_def)
qed

text \<open>
  C28: however negotiations register and give up and connections arrive, every connection the QUIC
  router accepted is either waiting in it, was handed to exactly one negotiation, or was closed. A
  connection waits for a binding only while some negotiation expects it, or unexpected and among at
  most 16; the count of a binding is its number of live registrations.
\<close>

theorem quic_router_accounts_for_connections:
  assumes "router_run r regs routed taken closed"
  shows "routed = mset (map snd (qr_pending r)) + mset (map (fst \<circ> snd) (qr_early r)) + taken + closed \<and>
    (\<forall>b. hm_get (qr_expected r) b = (if b \<in># regs then Some (count regs b) else None)) \<and>
    fst ` set (qr_pending r) \<subseteq> set_mset regs \<and> fst ` set (qr_early r) \<inter> set_mset regs = {} \<and>
    length (qr_early r) \<le> QUIC_BINDING_MAX_IN_FLIGHT"
  using router_run_inv [OF assms]
  by (auto simp: router_inv_def waiting_connections_def hm_contains_iff)

theorem quic_router_accounts_for_connections_witness:
  "\<exists>r. router_run r {#} {#7#} {#7 :: nat#} {#} \<and> length (qr_early r) \<le> QUIC_BINDING_MAX_IN_FLIGHT"
proof -
  let ?early = "snd (router_route (router_default :: nat quic_router) [1] 7 0)"
  let ?reg = "router_register ?early [1]"
  have e: "router_route (router_default :: nat quic_router) [1] 7 0 = (True, ?early)"
    by (simp add: router_route_def router_default_def hm_contains_def QUIC_BINDING_MAX_IN_FLIGHT_def)
  have "router_run ?early {#} {#7#} {#} {#}" using router_routes [OF router_start e] by simp
  then have reg: "router_run ?reg {#[1]#} {#7#} {#} {#}" using router_registers by fastforce
  obtain cs r where a: "accept_bound_turn ?reg [1] = (Accepted_connection 7, cs, r)" and "cs = []"
    by (auto simp: accept_bound_turn_def router_take_def router_register_def router_route_def router_default_def
        hm_contains_def hm_get_def hm_insert_def hm_remove_def QUIC_BINDING_MAX_IN_FLIGHT_def
        drop_registration_def Let_def)
  with router_accepts [OF reg _ a] have "router_run r {#} {#7#} {#7#} {#}" by simp
  with quic_router_accounts_for_connections [OF this] show ?thesis by blast
qed

end
