(* ===== verification/Quic_Plane.thy ===== *)
theory Quic_Plane
  imports Packet_Plane
begin

text \<open>
  The QUIC packet plane (\<open>PacketPlaneQuicRuntime\<close> in \<open>src/src/runtime/packet_plane.rs\<close>): a connection
  and a session per peer. QUIC connections belong to an external crate; a connection is an opaque value
  and the record gathers what the program asks of it. An operation that closes connections returns
  them, a received datagram is an argument (\<open>None\<close> when reading failed because the connection was
  lost), and a sending operation returns the datagram it hands to the connection.
\<close>

record 'c quic_library =
  connection_max_datagram_size :: "'c \<Rightarrow> usize option"
  connection_remote_address :: "'c \<Rightarrow> socket_addr"
  connection_is_closed :: "'c \<Rightarrow> bool"

record 'c quic_runtime =
  qp_local_addr :: socket_addr
  qp_server_certificate :: bytes
  qp_connections :: "(peer_id, 'c) hash_map"
  qp_sessions :: "(peer_id, plane_session) hash_map"
  qp_max_replay_windows_per_session :: usize

record quic_snapshot =
  qs_listener :: "socket_addr option"
  qs_certificate_der :: "bytes option"
  qs_sessions :: "session_snapshot list"
  qs_live_endpoints :: "(peer_id \<times> socket_addr) list"

datatype quic_error =
    QuicNoSessions
  | QuicNoConnection peer_id
  | QuicPeerConnection peer_id
  | QuicUnsupportedByPeer
  | QuicDatagram datagram_error
  | QuicSession session_error

definition quic_payload_mtu :: "'c quic_library \<Rightarrow> 'c \<Rightarrow> u16 \<Rightarrow> u16" where
  "quic_payload_mtu lib connection negotiated_mtu =
     (let payload_size =
            (case connection_max_datagram_size lib connection of Some n \<Rightarrow> n | None \<Rightarrow> 0)
              - PACKET_PLANE_DATAGRAM_OVERHEAD_LEN
      in min negotiated_mtu (clamp_word payload_size))"

text \<open>Binding the endpoint gives its local address and certificate.\<close>

definition quic_bind_with_replay_window_limit :: "socket_addr \<Rightarrow> bytes \<Rightarrow> usize \<Rightarrow> 'c quic_runtime" where
  "quic_bind_with_replay_window_limit local_addr certificate max_replay_windows_per_session =
     \<lparr>qp_local_addr = local_addr, qp_server_certificate = certificate, qp_connections = [],
      qp_sessions = [],
      qp_max_replay_windows_per_session = max max_replay_windows_per_session 1\<rparr>"

definition quic_snapshot_of :: "'c quic_library \<Rightarrow> 'c quic_runtime \<Rightarrow> quic_snapshot" where
  "quic_snapshot_of lib q =
     (let sessions = sort_key snapshot_key (map (\<lambda>(_, session).
            let snapshot = session_snapshot_of session in
            case hm_get (qp_connections q) (ps_peer session) of
              None \<Rightarrow> snapshot
            | Some connection \<Rightarrow>
                snapshot\<lparr>ss_mtu := quic_payload_mtu lib connection (ps_mtu session)\<rparr>) (qp_sessions q));
          live_endpoints = List.map_filter (\<lambda>session.
            map_option (\<lambda>connection. (ss_peer session, connection_remote_address lib connection))
              (hm_get (qp_connections q) (ss_peer session))) sessions
      in \<lparr>qs_listener = Some (qp_local_addr q), qs_certificate_der = Some (qp_server_certificate q),
          qs_sessions = sessions, qs_live_endpoints = live_endpoints\<rparr>)"

definition quic_has_usable_connection :: "'c quic_library \<Rightarrow> 'c quic_runtime \<Rightarrow> peer_id \<Rightarrow> bool" where
  "quic_has_usable_connection lib q peer =
     is_some_and (\<lambda>connection. \<not> connection_is_closed lib connection) (hm_get (qp_connections q) peer)"

definition quic_install_connection :: "'c quic_runtime \<Rightarrow> peer_id \<Rightarrow> 'c \<Rightarrow> 'c list \<times> 'c quic_runtime" where
  "quic_install_connection q peer connection =
     (case hm_get (qp_connections q) peer of Some previous \<Rightarrow> [previous] | None \<Rightarrow> [],
      q\<lparr>qp_connections := hm_insert (qp_connections q) peer connection\<rparr>)"

definition quic_forget_connection :: "'c quic_runtime \<Rightarrow> peer_id \<Rightarrow> bool \<times> 'c list \<times> 'c quic_runtime" where
  "quic_forget_connection q peer =
     (case hm_get (qp_connections q) peer of
        None \<Rightarrow> (False, [], q)
      | Some connection \<Rightarrow>
          (True, [connection], q\<lparr>qp_connections := hm_remove (qp_connections q) peer\<rparr>))"

definition quic_forget_peer :: "'c quic_runtime \<Rightarrow> peer_id \<Rightarrow> bool \<times> 'c list \<times> 'c quic_runtime" where
  "quic_forget_peer q peer =
     (let connection = hm_get (qp_connections q) peer;
          session = hm_get (qp_sessions q) peer
      in (connection \<noteq> None \<or> session \<noteq> None,
          case connection of Some c \<Rightarrow> [c] | None \<Rightarrow> [],
          q\<lparr>qp_connections := hm_remove (qp_connections q) peer,
            qp_sessions := hm_remove (qp_sessions q) peer\<rparr>))"

definition quic_session_mtu_for :: "'c quic_library \<Rightarrow> 'c quic_runtime \<Rightarrow> peer_id \<Rightarrow> u16 option" where
  "quic_session_mtu_for lib q peer =
     (case hm_get (qp_sessions q) peer of
        None \<Rightarrow> None
      | Some session \<Rightarrow>
          map_option (\<lambda>connection. quic_payload_mtu lib connection (ps_mtu session))
            (hm_get (qp_connections q) peer))"

definition quic_can_receive :: "'c quic_runtime \<Rightarrow> bool" where
  "quic_can_receive q \<longleftrightarrow> list_ex (\<lambda>(peer, _). hm_contains (qp_connections q) peer) (qp_sessions q)"

definition quic_forget_all_sessions ::
    "'c quic_runtime \<Rightarrow> session_snapshot list \<times> 'c list \<times> 'c quic_runtime" where
  "quic_forget_all_sessions q =
     (sort_key snapshot_key (map (session_snapshot_of \<circ> snd) (qp_sessions q)),
      map snd (qp_connections q),
      q\<lparr>qp_connections := [], qp_sessions := []\<rparr>)"

fun quic_remove_expired ::
    "'c quic_runtime \<Rightarrow> peer_id list \<Rightarrow> session_snapshot list \<times> 'c list \<times> 'c quic_runtime" where
  "quic_remove_expired q [] = ([], [], q)"
| "quic_remove_expired q (peer # rest) =
     (let closed = (case hm_get (qp_connections q) peer of Some c \<Rightarrow> [c] | None \<Rightarrow> []);
          removed = (case hm_get (qp_sessions q) peer of Some s \<Rightarrow> [session_snapshot_of s] | None \<Rightarrow> []);
          q = q\<lparr>qp_connections := hm_remove (qp_connections q) peer,
                qp_sessions := hm_remove (qp_sessions q) peer\<rparr>;
          (snapshots, connections, q) = quic_remove_expired q rest
      in (removed @ snapshots, closed @ connections, q))"

definition quic_expire_sessions_at ::
    "'c quic_runtime \<Rightarrow> instant \<Rightarrow> duration \<Rightarrow> session_snapshot list \<times> 'c list \<times> 'c quic_runtime" where
  "quic_expire_sessions_at q now max_age =
     (let expired = map fst (filter (\<lambda>(_, s). now - ps_established_at s \<ge> max_age) (qp_sessions q));
          (snapshots, closed, q) = quic_remove_expired q expired
      in (sort_key snapshot_key snapshots, closed, q))"

definition quic_establish_session ::
    "'c quic_library \<Rightarrow> crypto_library \<Rightarrow> (socket_addr \<Rightarrow> bytes) \<Rightarrow> 'c quic_runtime \<Rightarrow> session_role \<Rightarrow>
     bytes \<Rightarrow> verified_handshake \<Rightarrow> verified_handshake \<Rightarrow> instant \<Rightarrow>
     (session_snapshot, quic_error) result \<times> 'c quic_runtime" where
  "quic_establish_session lib crypto show_addr q role local_secret local_hs remote_hs now =
     (case hm_get (qp_connections q) (vh_peer remote_hs) of
        None \<Rightarrow> (Err (QuicNoConnection (vh_peer remote_hs)), q)
      | Some connection \<Rightarrow>
          if connection_max_datagram_size lib connection = None then (Err QuicUnsupportedByPeer, q)
          else
            (case session_keys_derive crypto show_addr role local_secret local_hs remote_hs of
               Inl e \<Rightarrow> (Err (QuicSession e), q)
             | Inr keys \<Rightarrow>
                 let session =
                       \<lparr>ps_peer = vh_peer remote_hs, ps_endpoint = vh_endpoint remote_hs,
                        ps_mtu = min (vh_mtu local_hs) (vh_mtu remote_hs), ps_role = role,
                        ps_local_session_id = vh_session_id local_hs,
                        ps_remote_session_id = vh_session_id remote_hs,
                        ps_established_at = now, ps_keys = keys, ps_replay_windows = [],
                        ps_max_replay_windows = qp_max_replay_windows_per_session q\<rparr>
                 in (Ok (session_snapshot_of session),
                     q\<lparr>qp_sessions := hm_insert (qp_sessions q) (vh_peer remote_hs) session\<rparr>)))"

definition quic_send_frame_to_peer ::
    "'c quic_library \<Rightarrow> crypto_library \<Rightarrow> 'c quic_runtime \<Rightarrow> peer_id \<Rightarrow> frame \<Rightarrow>
     ('c \<times> bytes, quic_error) result" where
  "quic_send_frame_to_peer lib crypto q peer frame =
     and_then (ok_or (hm_get (qp_sessions q) peer) (QuicNoConnection peer)) (\<lambda>session.
     and_then (ok_or (hm_get (qp_connections q) peer) (QuicNoConnection peer)) (\<lambda>connection.
       let effective_mtu = quic_payload_mtu lib connection (ps_mtu session);
           payload_len = length (frame_payload frame) in
       if payload_len > unat effective_mtu
       then Err (QuicDatagram (DatagramPayloadTooLarge payload_len (unat effective_mtu)))
       else
         and_then (map_err QuicDatagram (seal_frame (chacha20_encrypt crypto) (sk_seal (ps_keys session)) frame))
           (\<lambda>datagram. Ok (connection, datagram))))"

text \<open>The part of receiving that follows a read from the connection of \<open>peer\<close>.\<close>

definition quic_open_datagram ::
    "crypto_library \<Rightarrow> 'c quic_runtime \<Rightarrow> peer_id \<Rightarrow> socket_addr \<Rightarrow> bytes option \<Rightarrow> instant \<Rightarrow>
     (received_frame, quic_error) result \<times> 'c list \<times> 'c quic_runtime" where
  "quic_open_datagram crypto q peer remote_addr datagram now =
     (case datagram of
        None \<Rightarrow>
          (let (_, closed, q) = quic_forget_peer q peer in (Err (QuicPeerConnection peer), closed, q))
      | Some datagram \<Rightarrow>
          (case hm_get (qp_sessions q) peer of
             None \<Rightarrow> (Err (QuicNoConnection peer), [], q)
           | Some session \<Rightarrow>
               (case open_frame (chacha20_decrypt crypto) (sk_open (ps_keys session)) datagram
                       (unat (ps_mtu session)) of
                  Inl e \<Rightarrow> (Err (QuicDatagram e), [], q)
                | Inr frame \<Rightarrow>
                    (let (accepted, session) = accept_datagram_at session frame now;
                         q = q\<lparr>qp_sessions := hm_insert (qp_sessions q) peer session\<rparr>
                     in (and_then (map_err QuicDatagram accepted) (\<lambda>_.
                           Ok \<lparr>rf_frame = frame, rf_peer = Some peer, rf_remote_addr = remote_addr,
                               rf_local_addr = qp_local_addr q\<rparr>), [], q)))))"

definition quic_recv_frame_from_peer ::
    "'c quic_library \<Rightarrow> crypto_library \<Rightarrow> 'c quic_runtime \<Rightarrow> peer_id \<Rightarrow> bytes option \<Rightarrow> instant \<Rightarrow>
     (received_frame, quic_error) result \<times> 'c list \<times> 'c quic_runtime" where
  "quic_recv_frame_from_peer lib crypto q peer datagram now =
     (case hm_get (qp_connections q) peer of
        None \<Rightarrow> (Err (QuicNoConnection peer), [], q)
      | Some connection \<Rightarrow>
          quic_open_datagram crypto q peer (connection_remote_address lib connection) datagram now)"

text \<open>
  Receiving from any session waits on the connections of all peers that have both; \<open>peer\<close> is the one
  whose read completes first.
\<close>

definition quic_recv_frame_from_session ::
    "'c quic_library \<Rightarrow> crypto_library \<Rightarrow> 'c quic_runtime \<Rightarrow> peer_id \<Rightarrow> bytes option \<Rightarrow> instant \<Rightarrow>
     (received_frame, quic_error) result \<times> 'c list \<times> 'c quic_runtime" where
  "quic_recv_frame_from_session lib crypto q peer datagram now =
     (let peers = filter (hm_contains (qp_connections q)) (map fst (qp_sessions q)) in
      if peers = [] then (Err QuicNoSessions, [], q)
      else
        (case hm_get (qp_connections q) peer of
           None \<Rightarrow> (Err (QuicNoConnection peer), [], q)
         | Some connection \<Rightarrow>
             quic_open_datagram crypto q peer (connection_remote_address lib connection) datagram now))"

subsection \<open>Datagrams fit the connection\<close>

text \<open>
  A frame is sent only if its datagram fits what the connection can carry, unless the payload is empty:
  then the datagram has the 57 bytes of its headers and tag.
\<close>

lemma quic_datagrams_fit:
  assumes "aead_exact (chacha20_encrypt crypto) decrypt"
    and "quic_send_frame_to_peer lib crypto q peer frame = Ok (connection, datagram)"
  shows "length datagram = length (frame_payload frame) + PACKET_PLANE_DATAGRAM_OVERHEAD_LEN"
    and "frame_payload frame = [] \<or>
      (\<exists>n. connection_max_datagram_size lib connection = Some n \<and> length datagram \<le> n)"
proof -
  from assms(2) obtain session :: plane_session where
    small: "\<not> unat (quic_payload_mtu lib connection (ps_mtu session)) < length (frame_payload frame)"
    and sealed: "seal_frame (chacha20_encrypt crypto) (sk_seal (ps_keys session)) frame = Ok datagram"
    by (auto simp: quic_send_frame_to_peer_def and_then_Inr_iff Let_def split: if_splits)
  have enc: "\<And>key nonce aad m c. chacha20_encrypt crypto key nonce aad m = Some c \<Longrightarrow> length c = length m + 16"
    using assms(1) unfolding aead_exact_def by blast
  show len: "length datagram = length (frame_payload frame) + PACKET_PLANE_DATAGRAM_OVERHEAD_LEN"
    using sealed by (auto simp: seal_frame_Ok_iff Let_def datagram_lengths frame_encode_def dest!: enc)
  have "length (frame_payload frame) \<le>
      (case connection_max_datagram_size lib connection of Some n \<Rightarrow> n | None \<Rightarrow> 0) - PACKET_PLANE_DATAGRAM_OVERHEAD_LEN"
    using small [unfolded not_less] unfolding quic_payload_mtu_def Let_def
    by (simp add: min_def word_le_nat_alt unat_clamp_word split: if_splits)
  with len show "frame_payload frame = [] \<or>
      (\<exists>n. connection_max_datagram_size lib connection = Some n \<and> length datagram \<le> n)"
    by (cases "connection_max_datagram_size lib connection"; cases "frame_payload frame")
      (auto simp: datagram_lengths)
qed

end
