(* ===== verification/Config_Text.thy ===== *)
theory Config_Text
  imports Route
begin

text \<open>
  Text forms used by the configuration and by signed records: DNS labels (\<open>src/src/dns.rs\<close>) and route
  prefixes (\<open>src/src/config.rs\<close>). Text is its UTF-8 bytes. \<open>str::parse\<close> for addresses and for \<open>u8\<close>
  is the standard library's and is written out below.
\<close>

subsection \<open>DNS labels\<close>

datatype dns_name_error = EmptyLabel | LabelTooLong | LeadingHyphen | TrailingHyphen | InvalidCharacter

definition is_ascii_alphanumeric :: "u8 \<Rightarrow> bool" where
  "is_ascii_alphanumeric b \<longleftrightarrow>
     (48 \<le> b \<and> b \<le> 57) \<or> (65 \<le> b \<and> b \<le> 90) \<or> (97 \<le> b \<and> b \<le> 122)"

definition to_ascii_lowercase :: "u8 \<Rightarrow> u8" where
  "to_ascii_lowercase b = (if 65 \<le> b \<and> b \<le> 90 then b + 32 else b)"

definition canonical_dns_label :: "bytes \<Rightarrow> (bytes, dns_name_error) result" where
  "canonical_dns_label label =
     (if label = [] then Err EmptyLabel
      else if length label > 63 then Err LabelTooLong
      else if hd label = 45 then Err LeadingHyphen
      else if last label = 45 then Err TrailingHyphen
      else if \<not> list_all (\<lambda>b. is_ascii_alphanumeric b \<or> b = 45) label then Err InvalidCharacter
      else Ok (map to_ascii_lowercase label))"

subsection \<open>Addresses in text\<close>

text \<open>
  The parser of \<open>core::net\<close>. A reader takes the remaining bytes and returns a value with what is left,
  or \<open>None\<close> without consuming.
\<close>

type_synonym 'a reader = "bytes \<Rightarrow> ('a \<times> bytes) option"

definition to_digit :: "nat \<Rightarrow> u8 \<Rightarrow> nat option" where
  "to_digit radix b =
     (let d = (if 48 \<le> b \<and> b \<le> 57 then Some (unat b - 48)
               else if 97 \<le> b \<and> b \<le> 122 then Some (unat b - 87)
               else if 65 \<le> b \<and> b \<le> 90 then Some (unat b - 55)
               else None)
      in case d of Some n \<Rightarrow> if n < radix then Some n else None | None \<Rightarrow> None)"

definition digits_value :: "nat \<Rightarrow> bytes \<Rightarrow> nat" where
  "digits_value radix ds = foldl (\<lambda>n b. n * radix + the (to_digit radix b)) 0 ds"

definition read_number :: "nat \<Rightarrow> nat \<Rightarrow> bool \<Rightarrow> nat \<Rightarrow> nat reader" where
  "read_number radix max_digits allow_zero_prefix max_value bs =
     (let ds = takeWhile (\<lambda>b. to_digit radix b \<noteq> None) bs in
      if length ds > max_digits then None
      else if ds = [] then None
      else if \<not> allow_zero_prefix \<and> hd ds = 48 \<and> length ds > 1 then None
      else if digits_value radix ds > max_value then None
      else Some (digits_value radix ds, drop (length ds) bs))"

fun read_given_char :: "u8 \<Rightarrow> unit reader" where
  "read_given_char c (b # bs) = (if b = c then Some ((), bs) else None)"
| "read_given_char c [] = None"

definition read_separator :: "u8 \<Rightarrow> nat \<Rightarrow> 'a reader \<Rightarrow> 'a reader" where
  "read_separator sep index inner bs =
     (if index > 0
      then (case read_given_char sep bs of Some (_, rest) \<Rightarrow> inner rest | None \<Rightarrow> None)
      else inner bs)"

fun read_octets :: "nat \<Rightarrow> nat \<Rightarrow> nat list reader" where
  "read_octets index 0 bs = Some ([], bs)"
| "read_octets index (Suc n) bs =
     (case read_separator 46 index (read_number 10 3 False 255) bs of
        None \<Rightarrow> None
      | Some (octet, rest) \<Rightarrow>
          (case read_octets (Suc index) n rest of
             None \<Rightarrow> None
           | Some (octets, rest) \<Rightarrow> Some (octet # octets, rest)))"

definition read_ipv4_addr :: "u32 reader" where
  "read_ipv4_addr bs =
     map_option (\<lambda>(octets, rest). (word_of_nat (foldl (\<lambda>n octet. n * 256 + octet) 0 octets), rest))
       (read_octets 0 4 bs)"

text \<open>The groups read, whether they end in an IPv4 address, and the rest.\<close>

fun read_groups :: "nat \<Rightarrow> nat \<Rightarrow> bytes \<Rightarrow> nat list \<times> bool \<times> bytes" where
  "read_groups i 0 bs = ([], False, bs)"
| "read_groups i (Suc left) bs =
     (case (if left > 0 then read_separator 58 i read_ipv4_addr bs else None) of
        Some (v4, rest) \<Rightarrow> ([unat v4 div 65536, unat v4 mod 65536], True, rest)
      | None \<Rightarrow>
          (case read_separator 58 i (read_number 16 4 True 65535) bs of
             None \<Rightarrow> ([], False, bs)
           | Some (g, rest) \<Rightarrow>
               (let (groups, ipv4, rest) = read_groups (Suc i) left rest
                in (g # groups, ipv4, rest))))"

definition ipv6_of_groups :: "nat list \<Rightarrow> u128" where
  "ipv6_of_groups groups = word_of_nat (foldl (\<lambda>n g. n * 65536 + g) 0 groups)"

definition read_ipv6_addr :: "u128 reader" where
  "read_ipv6_addr bs =
     (let (head, head_ipv4, rest) = read_groups 0 8 bs in
      if length head = 8 then Some (ipv6_of_groups head, rest)
      else if head_ipv4 then None
      else (case read_given_char 58 rest of
              None \<Rightarrow> None
            | Some (_, rest) \<Rightarrow>
                (case read_given_char 58 rest of
                   None \<Rightarrow> None
                 | Some (_, rest) \<Rightarrow>
                     (let (tail, _, rest) = read_groups 0 (8 - (length head + 1)) rest in
                      Some (ipv6_of_groups
                              (head @ replicate (8 - length head - length tail) 0 @ tail), rest)))))"

definition parse_ip :: "bytes \<Rightarrow> ip_addr option" where
  "parse_ip bs =
     (case (case read_ipv4_addr bs of
              Some (address, rest) \<Rightarrow> Some (V4 address, rest)
            | None \<Rightarrow> map_option (\<lambda>(address, rest). (V6 address, rest)) (read_ipv6_addr bs)) of
        Some (address, []) \<Rightarrow> Some address
      | _ \<Rightarrow> None)"

definition parse_u8 :: "bytes \<Rightarrow> u8 option" where
  "parse_u8 bs =
     (let ds = (case bs of b # rest \<Rightarrow> if b = 43 then rest else bs | [] \<Rightarrow> []) in
      if ds = [] \<or> \<not> list_all (\<lambda>b. to_digit 10 b \<noteq> None) ds \<or> digits_value 10 ds > 255 then None
      else Some (word_of_nat (digits_value 10 ds)))"

subsection \<open>Route prefixes\<close>

datatype route_prefix_error =
    MissingSlash
  | InvalidAddress bytes
  | InvalidPrefixText bytes
  | InvalidPrefixLength route_error

record route_config =
  rc_prefix :: bytes
  rc_metric :: u16

text \<open>
  The subtraction \<open>32 - prefix_len\<close> wraps for a length above 32; the shift is then out of range and
  the mask 0.
\<close>

definition ipv4_mask :: "u8 \<Rightarrow> u32" where
  "ipv4_mask prefix_len =
     (if prefix_len = 0 then 0
      else let shift = 32 - (ucast prefix_len :: u32) in
           if shift < 32 then push_bit (unat shift) (- 1) else 0)"

definition ipv6_mask :: "u8 \<Rightarrow> u128" where
  "ipv6_mask prefix_len =
     (if prefix_len = 0 then 0
      else let shift = 128 - (ucast prefix_len :: u32) in
           if shift < 128 then push_bit (unat shift) (- 1) else 0)"

fun normalize_address :: "ip_addr \<Rightarrow> u8 \<Rightarrow> ip_addr" where
  "normalize_address (V4 address) prefix_len = V4 (address AND ipv4_mask prefix_len)"
| "normalize_address (V6 address) prefix_len = V6 (address AND ipv6_mask prefix_len)"

definition parse_cidr :: "bytes \<Rightarrow> (ip_cidr, route_prefix_error) result" where
  "parse_cidr input =
     (case position (\<lambda>b. b = 47) input of
        None \<Rightarrow> Err MissingSlash
      | Some i \<Rightarrow>
          (let address = take i input; prefix = drop (Suc i) input in
           and_then (ok_or (parse_ip address) (InvalidAddress address)) (\<lambda>address.
           and_then (ok_or (parse_u8 prefix) (InvalidPrefixText prefix)) (\<lambda>prefix_len.
             map_err InvalidPrefixLength
               (cidr_new (normalize_address address prefix_len) prefix_len)))))"

definition route_config_prefix :: "route_config \<Rightarrow> (ip_cidr, route_prefix_error) result" where
  "route_config_prefix route = parse_cidr (rc_prefix route)"

datatype vpn_ip_error = VpnIpPrefix route_prefix_error | VpnIpRoute route_error

definition vpn_ip_host_route :: "bytes \<Rightarrow> (ip_cidr, vpn_ip_error) result" where
  "vpn_ip_host_route input =
     (if 47 \<in> set input then map_err VpnIpPrefix (parse_cidr input)
      else
        and_then (ok_or (parse_ip input) (VpnIpPrefix (InvalidAddress input))) (\<lambda>address.
          map_err VpnIpRoute (cidr_new address (max_prefix address))))"

subsection \<open>Facts\<close>

lemma parse_cidr_wf: "parse_cidr bs = Ok c \<Longrightarrow> cidr_wf c"
  by (auto simp: parse_cidr_def and_then_Inr_iff map_err_Inr_iff Let_def intro: cidr_new_wf
      split: option.splits)

lemma vpn_ip_host_route_wf: "vpn_ip_host_route bs = Ok c \<Longrightarrow> cidr_wf c"
  by (auto simp: vpn_ip_host_route_def and_then_Inr_iff map_err_Inr_iff intro: cidr_new_wf parse_cidr_wf
      split: if_splits)


end
