(* ===== verification/Membership_Record.thy ===== *)
theory Membership_Record
  imports Identity Config_Text
begin

text \<open>
  Signed membership records (\<open>src/src/membership.rs\<close>): their fields, the validation of a record, its
  signature, and how one is issued. Times are seconds since the Unix epoch. The JSON form of a payload
  and of a record comes from an external crate: it is part of the library record, next to the
  identity library. \<open>None\<close> is a serialisation error.
\<close>

definition MEMBERSHIP_RECORD_VERSION :: u8 where
  "MEMBERSHIP_RECORD_VERSION = 1"

text \<open>The largest \<open>i64\<close>.\<close>

definition MAX_MEMBERSHIP_RECORD_INTEGER :: u64 where
  "MAX_MEMBERSHIP_RECORD_INTEGER = 0x7fffffffffffffff"

definition MAX_MEMBERSHIP_RECORDS :: usize where
  "MAX_MEMBERSHIP_RECORDS = 256"

definition MAX_MEMBERSHIP_RECORD_ENCODED_LEN :: usize where
  "MAX_MEMBERSHIP_RECORD_ENCODED_LEN = 12 * 1024"

definition MAX_MEMBERSHIP_CLOCK_SKEW_SECONDS :: u64 where
  "MAX_MEMBERSHIP_CLOCK_SKEW_SECONDS = 60"

text \<open>The text \<open>p2p-vpn membership record v1\<close> and a line feed.\<close>

definition MEMBERSHIP_SIGNING_DOMAIN :: bytes where
  "MEMBERSHIP_SIGNING_DOMAIN =
     [0x70, 0x32, 0x70, 0x2d, 0x76, 0x70, 0x6e, 0x20, 0x6d, 0x65, 0x6d, 0x62, 0x65, 0x72, 0x73,
      0x68, 0x69, 0x70, 0x20, 0x72, 0x65, 0x63, 0x6f, 0x72, 0x64, 0x20, 0x76, 0x31, 0x0a]"

datatype membership_role = OverlayMember | RouteAuthority

record membership_payload =
  mp_version :: u8
  mp_network_name :: bytes
  mp_member_peer :: bytes
  mp_member_public_key :: bytes
  mp_issuer_peer :: bytes
  mp_issuer_public_key :: bytes
  mp_membership_epoch :: u64
  mp_sequence :: u64
  mp_revoked :: bool
  mp_hostname :: "bytes option"
  mp_roles :: "membership_role list"
  mp_route_grants :: "route_config list"
  mp_issued_at :: u64
  mp_expires_at :: "u64 option"

record signed_record =
  sr_payload :: membership_payload
  sr_signature :: bytes

record record_subject =
  rs_peer_id :: bytes
  rs_public_key :: bytes

record issue_options =
  io_network_name :: bytes
  io_member :: record_subject
  io_membership_epoch :: u64
  io_sequence :: u64
  io_revoked :: bool
  io_roles :: "membership_role list"
  io_route_grants :: "route_config list"
  io_expires_at :: "u64 option"

record ('kp, 'key, 'l) membership_library =
  ml_identity :: "('kp, 'key, 'l) identity_library"
  payload_to_json :: "membership_payload \<Rightarrow> bytes option"
  record_to_json :: "signed_record \<Rightarrow> bytes option"

datatype membership_error =
    MembershipIdentity identity_error
  | MembershipJson
  | MembershipBase64
  | MembershipLibp2pIdentity
  | MembershipLibp2pPeerId
  | MembershipRoutePrefix route_prefix_error
  | MembershipInvalidHostname dns_name_error
  | MembershipUnsupportedVersion u8
  | EmptyNetworkName
  | InvalidMembershipEpoch
  | IntegerOutOfRange string u64 u64
  | MissingRoles
  | RevocationCarriesAuthority
  | RevocationExpires
  | MembershipNetworkMismatch bytes bytes
  | PublicKeyPeerMismatch string bytes bytes
  | MembershipInvalidSignature
  | UntrustedIssuer bytes
  | ConflictingRecordVersion bytes bytes u64 u64
  | TooManyRecords usize usize
  | EncodedRecordTooLarge usize usize
  | RecordExpired u64 u64
  | IssuedInFuture u64 u64
  | ExpiredBeforeIssued

subsection \<open>Validation\<close>

definition record_is_expired_at :: "signed_record \<Rightarrow> u64 \<Rightarrow> bool" where
  "record_is_expired_at r now = is_some_and (\<lambda>expires_at. now \<ge> expires_at) (mp_expires_at (sr_payload r))"

definition validate_portable_integer :: "string \<Rightarrow> u64 \<Rightarrow> (unit, membership_error) result" where
  "validate_portable_integer field v =
     (if v \<le> MAX_MEMBERSHIP_RECORD_INTEGER then Ok ()
      else Err (IntegerOutOfRange field v MAX_MEMBERSHIP_RECORD_INTEGER))"

fun validate_route_grants :: "route_config list \<Rightarrow> (unit, membership_error) result" where
  "validate_route_grants [] = Ok ()"
| "validate_route_grants (route # routes) =
     and_then (map_err MembershipRoutePrefix (route_config_prefix route)) (\<lambda>_. validate_route_grants routes)"

definition validate_authority :: "membership_payload \<Rightarrow> (unit, membership_error) result" where
  "validate_authority p =
     (if mp_revoked p
      then (if mp_hostname p \<noteq> None \<or> mp_roles p \<noteq> [] \<or> mp_route_grants p \<noteq> []
            then Err RevocationCarriesAuthority
            else if mp_expires_at p \<noteq> None then Err RevocationExpires else Ok ())
      else if mp_roles p = [] then Err MissingRoles else Ok ())"

definition validate_hostname :: "bytes option \<Rightarrow> (unit, membership_error) result" where
  "validate_hostname hostname =
     (case hostname of
        None \<Rightarrow> Ok ()
      | Some name \<Rightarrow> and_then (map_err MembershipInvalidHostname (canonical_dns_label name)) (\<lambda>_. Ok ()))"

definition validate_expiry :: "membership_payload \<Rightarrow> (unit, membership_error) result" where
  "validate_expiry p =
     (case mp_expires_at p of
        None \<Rightarrow> Ok ()
      | Some expires_at \<Rightarrow>
          and_then (validate_portable_integer ''expires_at_unix_seconds'' expires_at) (\<lambda>_.
            if expires_at \<le> mp_issued_at p then Err ExpiredBeforeIssued else Ok ()))"

definition validate_payload :: "membership_payload \<Rightarrow> (unit, membership_error) result" where
  "validate_payload p =
     (if mp_version p \<noteq> MEMBERSHIP_RECORD_VERSION then Err (MembershipUnsupportedVersion (mp_version p))
      else if mp_network_name p = [] then Err EmptyNetworkName
      else if mp_membership_epoch p = 0 then Err InvalidMembershipEpoch
      else
        and_then (validate_portable_integer ''membership_epoch'' (mp_membership_epoch p)) (\<lambda>_.
        and_then (validate_portable_integer ''sequence'' (mp_sequence p)) (\<lambda>_.
        and_then (validate_portable_integer ''issued_at_unix_seconds'' (mp_issued_at p)) (\<lambda>_.
        and_then (validate_authority p) (\<lambda>_.
        and_then (validate_hostname (mp_hostname p)) (\<lambda>_.
        and_then (validate_expiry p) (\<lambda>_.
          validate_route_grants (mp_route_grants p))))))))"

definition validate_payload_issue_time :: "membership_payload \<Rightarrow> u64 \<Rightarrow> (unit, membership_error) result" where
  "validate_payload_issue_time p now =
     (if mp_issued_at p > saturating_add_word now MAX_MEMBERSHIP_CLOCK_SKEW_SECONDS
      then Err (IssuedInFuture (mp_issued_at p) now) else Ok ())"

definition validate_payload_time :: "membership_payload \<Rightarrow> u64 \<Rightarrow> (unit, membership_error) result" where
  "validate_payload_time p now =
     and_then (validate_payload_issue_time p now) (\<lambda>_.
       case mp_expires_at p of
         Some expires_at \<Rightarrow> if now \<ge> expires_at then Err (RecordExpired expires_at now) else Ok ()
       | None \<Rightarrow> Ok ())"

definition validate_encoded_record_len ::
    "('kp, 'key, 'l) membership_library \<Rightarrow> signed_record \<Rightarrow> (unit, membership_error) result" where
  "validate_encoded_record_len lib r =
     and_then (ok_or (record_to_json lib r) MembershipJson) (\<lambda>json.
       if length json \<le> MAX_MEMBERSHIP_RECORD_ENCODED_LEN then Ok ()
       else Err (EncodedRecordTooLarge (length json) MAX_MEMBERSHIP_RECORD_ENCODED_LEN))"

subsection \<open>Signatures\<close>

definition membership_signing_message ::
    "('kp, 'key, 'l) membership_library \<Rightarrow> membership_payload \<Rightarrow> (bytes, membership_error) result" where
  "membership_signing_message lib p =
     and_then (ok_or (payload_to_json lib p) MembershipJson) (\<lambda>json.
       Ok (MEMBERSHIP_SIGNING_DOMAIN @ json))"

definition decode_public_key ::
    "('kp, 'key, 'l) membership_library \<Rightarrow> bytes \<Rightarrow> ('key, membership_error) result" where
  "decode_public_key lib encoded =
     and_then (ok_or (base64_decode (ml_identity lib) encoded) MembershipBase64) (\<lambda>bs.
       ok_or (key_try_decode_protobuf (ml_identity lib) bs) MembershipLibp2pIdentity)"

text \<open>The key of a record's issuer or member, which must belong to the peer the record names.\<close>

definition checked_public_key ::
    "('kp, 'key, 'l) membership_library \<Rightarrow> string \<Rightarrow> bytes \<Rightarrow> bytes \<Rightarrow> ('key, membership_error) result" where
  "checked_public_key lib field encoded peer =
     and_then (decode_public_key lib encoded) (\<lambda>key.
     and_then (ok_or (libp2p_from_str (ml_identity lib) peer) MembershipLibp2pPeerId) (\<lambda>libp2p_peer.
       if key_to_peer_id (ml_identity lib) key \<noteq> libp2p_peer
       then Err (PublicKeyPeerMismatch field peer
                   (libp2p_to_string (ml_identity lib) (key_to_peer_id (ml_identity lib) key)))
       else Ok key))"

definition verify_with_time ::
    "('kp, 'key, 'l) membership_library \<Rightarrow> signed_record \<Rightarrow> u64 option \<Rightarrow> (unit, membership_error) result" where
  "verify_with_time lib r now =
     (let p = sr_payload r in
      and_then (validate_encoded_record_len lib r) (\<lambda>_.
      and_then (validate_payload p) (\<lambda>_.
      and_then (case now of Some t \<Rightarrow> validate_payload_time p t | None \<Rightarrow> Ok ()) (\<lambda>_.
      and_then (checked_public_key lib ''issuer_public_key'' (mp_issuer_public_key p) (mp_issuer_peer p)) (\<lambda>key.
      and_then (checked_public_key lib ''member_public_key'' (mp_member_public_key p) (mp_member_peer p)) (\<lambda>_.
      and_then (ok_or (base64_decode (ml_identity lib) (sr_signature r)) MembershipBase64) (\<lambda>signature.
      and_then (membership_signing_message lib p) (\<lambda>message.
        if key_verify (ml_identity lib) key message signature then Ok ()
        else Err MembershipInvalidSignature))))))))"

definition record_verify ::
    "('kp, 'key, 'l) membership_library \<Rightarrow> signed_record \<Rightarrow> (unit, membership_error) result" where
  "record_verify lib r = verify_with_time lib r None"

definition record_verify_at ::
    "('kp, 'key, 'l) membership_library \<Rightarrow> signed_record \<Rightarrow> u64 \<Rightarrow> (unit, membership_error) result" where
  "record_verify_at lib r now = verify_with_time lib r (Some now)"

subsection \<open>Issuing\<close>

definition subject_from_identity ::
    "('kp, 'key, 'l) membership_library \<Rightarrow> node_identity \<Rightarrow> (record_subject, membership_error) result" where
  "subject_from_identity lib i =
     and_then (map_err MembershipIdentity (public_key_protobuf (ml_identity lib) i)) (\<lambda>key.
       Ok \<lparr>rs_peer_id = ni_peer_id i, rs_public_key = base64_encode (ml_identity lib) key\<rparr>)"

definition issue_named_record ::
    "('kp, 'key, 'l) membership_library \<Rightarrow> node_identity \<Rightarrow> issue_options \<Rightarrow> bytes option \<Rightarrow> u64 \<Rightarrow>
     (signed_record, membership_error) result" where
  "issue_named_record lib issuer options hostname issued_at =
     and_then (case hostname of
                 None \<Rightarrow> Ok None
               | Some name \<Rightarrow> and_then (map_err MembershipInvalidHostname (canonical_dns_label name))
                                (\<lambda>name. Ok (Some name))) (\<lambda>hostname.
     if is_some_and (\<lambda>expires_at. expires_at \<le> issued_at) (io_expires_at options)
     then Err ExpiredBeforeIssued
     else
       and_then (map_err MembershipIdentity (public_key_protobuf (ml_identity lib) issuer)) (\<lambda>key.
       let p = \<lparr>mp_version = MEMBERSHIP_RECORD_VERSION, mp_network_name = io_network_name options,
                mp_member_peer = rs_peer_id (io_member options),
                mp_member_public_key = rs_public_key (io_member options),
                mp_issuer_peer = ni_peer_id issuer,
                mp_issuer_public_key = base64_encode (ml_identity lib) key,
                mp_membership_epoch = max (io_membership_epoch options) 1,
                mp_sequence = io_sequence options, mp_revoked = io_revoked options,
                mp_hostname = hostname, mp_roles = io_roles options,
                mp_route_grants = io_route_grants options, mp_issued_at = issued_at,
                mp_expires_at = io_expires_at options\<rparr>
       in and_then (validate_payload p) (\<lambda>_.
          and_then (validate_payload_time p issued_at) (\<lambda>_.
          and_then (membership_signing_message lib p) (\<lambda>message.
          and_then (map_err MembershipIdentity (identity_sign (ml_identity lib) issuer message)) (\<lambda>signature.
          let r = \<lparr>sr_payload = p, sr_signature = base64_encode (ml_identity lib) signature\<rparr>
          in and_then (record_verify_at lib r issued_at) (\<lambda>_. Ok r)))))))"

definition issue_record_for_subject ::
    "('kp, 'key, 'l) membership_library \<Rightarrow> node_identity \<Rightarrow> issue_options \<Rightarrow> u64 \<Rightarrow>
     (signed_record, membership_error) result" where
  "issue_record_for_subject lib issuer options issued_at = issue_named_record lib issuer options None issued_at"

record member_options =
  mo_network_name :: bytes
  mo_member :: node_identity
  mo_membership_epoch :: u64
  mo_sequence :: u64
  mo_roles :: "membership_role list"
  mo_route_grants :: "route_config list"
  mo_expires_at :: "u64 option"

definition issue_record ::
    "('kp, 'key, 'l) membership_library \<Rightarrow> node_identity \<Rightarrow> member_options \<Rightarrow> u64 \<Rightarrow>
     (signed_record, membership_error) result" where
  "issue_record lib issuer options issued_at =
     and_then (subject_from_identity lib (mo_member options)) (\<lambda>member.
       issue_record_for_subject lib issuer
         \<lparr>io_network_name = mo_network_name options, io_member = member,
          io_membership_epoch = mo_membership_epoch options, io_sequence = mo_sequence options,
          io_revoked = False, io_roles = mo_roles options, io_route_grants = mo_route_grants options,
          io_expires_at = mo_expires_at options\<rparr> issued_at)"

subsection \<open>What verification establishes\<close>

lemma validate_portable_integer_Ok_iff [simp]:
  "validate_portable_integer field v = Ok u \<longleftrightarrow> v \<le> MAX_MEMBERSHIP_RECORD_INTEGER"
  by (auto simp: validate_portable_integer_def)

lemma validate_payload_Ok_iff:
  "validate_payload p = Ok u \<longleftrightarrow>
     mp_version p = MEMBERSHIP_RECORD_VERSION \<and> mp_network_name p \<noteq> [] \<and> mp_membership_epoch p \<noteq> 0 \<and>
     mp_membership_epoch p \<le> MAX_MEMBERSHIP_RECORD_INTEGER \<and> mp_sequence p \<le> MAX_MEMBERSHIP_RECORD_INTEGER \<and>
     mp_issued_at p \<le> MAX_MEMBERSHIP_RECORD_INTEGER \<and> validate_authority p = Ok () \<and>
     validate_hostname (mp_hostname p) = Ok () \<and> validate_expiry p = Ok () \<and>
     validate_route_grants (mp_route_grants p) = Ok ()"
  by (auto simp: validate_payload_def and_then_Inr_iff)

lemma validate_expiry_Ok_iff:
  "validate_expiry p = Ok u \<longleftrightarrow>
     (\<forall>e. mp_expires_at p = Some e \<longrightarrow> e \<le> MAX_MEMBERSHIP_RECORD_INTEGER \<and> mp_issued_at p < e)"
  by (auto simp: validate_expiry_def and_then_Inr_iff not_le split: option.split)

lemma checked_public_key_Ok_iff:
  "checked_public_key lib field encoded peer = Ok key \<longleftrightarrow>
     decode_public_key lib encoded = Ok key \<and>
     libp2p_from_str (ml_identity lib) peer = Some (key_to_peer_id (ml_identity lib) key)"
  by (auto simp: checked_public_key_def and_then_Inr_iff)

lemma record_verify_Ok_iff:
  "record_verify lib r = Ok u \<longleftrightarrow>
     validate_encoded_record_len lib r = Ok () \<and> validate_payload (sr_payload r) = Ok () \<and>
     (\<exists>key member_key message signature.
        checked_public_key lib ''issuer_public_key'' (mp_issuer_public_key (sr_payload r))
          (mp_issuer_peer (sr_payload r)) = Ok key \<and>
        checked_public_key lib ''member_public_key'' (mp_member_public_key (sr_payload r))
          (mp_member_peer (sr_payload r)) = Ok member_key \<and>
        base64_decode (ml_identity lib) (sr_signature r) = Some signature \<and>
        membership_signing_message lib (sr_payload r) = Ok message \<and>
        key_verify (ml_identity lib) key message signature)"
  by (auto simp: record_verify_def verify_with_time_def and_then_Inr_iff Let_def)

lemma verified_record_not_expired_when_issued:
  assumes "record_verify lib r = Ok ()"
  shows "\<not> record_is_expired_at r (mp_issued_at (sr_payload r))"
  using assms
  by (cases "mp_expires_at (sr_payload r)")
    (auto simp: record_verify_Ok_iff validate_payload_Ok_iff validate_expiry_Ok_iff record_is_expired_at_def)

lemma verified_revocation_grants_nothing:
  assumes "record_verify lib r = Ok ()" and "mp_revoked (sr_payload r)"
  shows "mp_roles (sr_payload r) = []" and "mp_route_grants (sr_payload r) = []"
  using assms
  by (auto simp: record_verify_Ok_iff validate_payload_Ok_iff validate_authority_def split: if_splits)

end
