(* ===== verification/Ledger.thy ===== *)
theory Ledger
  imports Membership_Record
begin

text \<open>
  The membership ledger (\<open>src/src/membership.rs\<close>): which records of a history are accepted, and who is
  a member at a given time. Records are referred to by their index, as in the source. The unstable
  sort of the events is the stable one here; records it may exchange agree in issuer, member, version
  and signature.
\<close>

abbreviation payload_of :: "signed_record list \<Rightarrow> usize \<Rightarrow> membership_payload" where
  "payload_of records i \<equiv> sr_payload (records ! i)"

definition record_version :: "membership_payload \<Rightarrow> u64 \<times> u64" where
  "record_version p = (mp_membership_epoch p, mp_sequence p)"

definition conflicting_record_version :: "signed_record \<Rightarrow> membership_error" where
  "conflicting_record_version r =
     (let p = sr_payload r in
      ConflictingRecordVersion (mp_issuer_peer p) (mp_member_peer p) (mp_membership_epoch p) (mp_sequence p))"

definition ensure_record_network :: "signed_record \<Rightarrow> bytes \<Rightarrow> (unit, membership_error) result" where
  "ensure_record_network r network_name =
     (if mp_network_name (sr_payload r) = network_name then Ok ()
      else Err (MembershipNetworkMismatch network_name (mp_network_name (sr_payload r))))"

subsection \<open>Versions\<close>

fun latest_indices_loop ::
    "signed_record list \<Rightarrow> (bytes \<times> bytes, usize) hash_map \<Rightarrow> usize list \<Rightarrow>
     ((bytes \<times> bytes, usize) hash_map, membership_error) result" where
  "latest_indices_loop records latest [] = Ok latest"
| "latest_indices_loop records latest (i # rest) =
     (let r = records ! i;
          key = (mp_issuer_peer (sr_payload r), mp_member_peer (sr_payload r))
      in case hm_get latest key of
           None \<Rightarrow> latest_indices_loop records (hm_insert latest key i) rest
         | Some j \<Rightarrow>
             (let existing = records ! j;
                  version = record_version (sr_payload r);
                  existing_version = record_version (sr_payload existing)
              in if version > existing_version
                 then latest_indices_loop records (hm_insert latest key i) rest
                 else if version = existing_version \<and> r \<noteq> existing
                 then Err (conflicting_record_version r)
                 else latest_indices_loop records latest rest))"

definition latest_record_indices :: "signed_record list \<Rightarrow> (usize list, membership_error) result" where
  "latest_record_indices records =
     and_then (latest_indices_loop records [] [0..<length records]) (\<lambda>latest.
       Ok (sort (map snd latest)))"

definition canonical_records :: "signed_record list \<Rightarrow> (signed_record list, membership_error) result" where
  "canonical_records records =
     and_then (latest_record_indices records) (\<lambda>indices. Ok (map (\<lambda>i. records ! i) indices))"

definition validate_record_versions :: "signed_record list \<Rightarrow> (unit, membership_error) result" where
  "validate_record_versions records = and_then (latest_record_indices records) (\<lambda>_. Ok ())"

subsection \<open>Evaluation\<close>

record member_state =
  ms_record_index :: usize
  ms_active :: bool

record ledger_evaluation =
  le_accepted :: "usize set"
  le_states :: "(bytes, member_state) hash_map"
  le_event_authorizers :: "(usize, usize option) hash_map"
  le_first_admissions :: "(bytes, usize) hash_map"
  le_current_admissions :: "(bytes, usize) hash_map"

definition evaluation_default :: ledger_evaluation where
  "evaluation_default =
     \<lparr>le_accepted = {}, le_states = [], le_event_authorizers = [], le_first_admissions = [],
      le_current_admissions = []\<rparr>"

text \<open>The lexicographic comparison of \<open>membership_event_order\<close>, as a key.\<close>

definition event_order_key ::
    "signed_record \<Rightarrow> u64 \<times> bool \<times> bool \<times> (u64 \<times> u64) \<times> bytes \<times> bytes \<times> bytes" where
  "event_order_key r =
     (let p = sr_payload r in
      (mp_issued_at p, mp_revoked p, mp_issuer_peer p \<noteq> mp_member_peer p, record_version p,
       mp_issuer_peer p, mp_member_peer p, sr_signature r))"

definition expire_members_at ::
    "signed_record list \<Rightarrow> u64 \<Rightarrow> (bytes, member_state) hash_map \<Rightarrow> (bytes, member_state) hash_map" where
  "expire_members_at records now states =
     map (\<lambda>(peer, state).
       (peer, if ms_active state \<and> record_is_expired_at (records ! ms_record_index state) now
              then state\<lparr>ms_active := False\<rparr> else state)) states"

definition issuer_is_active ::
    "membership_payload \<Rightarrow> (bytes, member_state) hash_map \<Rightarrow> bytes set \<Rightarrow> bool" where
  "issuer_is_active p states trusted_roots =
     (case hm_get states (mp_issuer_peer p) of
        None \<Rightarrow> mp_issuer_peer p \<in> trusted_roots
      | Some state \<Rightarrow> ms_active state)"

definition issuer_is_active_or_genesis ::
    "membership_payload \<Rightarrow> (bytes, member_state) hash_map \<Rightarrow> bytes set \<Rightarrow> bool" where
  "issuer_is_active_or_genesis p states trusted_roots =
     (if mp_issuer_peer p = mp_member_peer p
      then mp_issuer_peer p \<in> trusted_roots \<and> is_none_or ms_active (hm_get states (mp_issuer_peer p))
      else issuer_is_active p states trusted_roots)"

definition membership_event_wins :: "signed_record \<Rightarrow> signed_record \<Rightarrow> bool \<Rightarrow> bool" where
  "membership_event_wins candidate current current_active =
     (let c = sr_payload candidate; d = sr_payload current in
      if \<not> current_active \<and> \<not> mp_revoked c then mp_membership_epoch c > mp_membership_epoch d
      else
        record_version c > record_version d \<or>
        (record_version c = record_version d \<and> mp_revoked c \<and> \<not> mp_revoked d) \<or>
        (record_version c = record_version d \<and> mp_revoked c = mp_revoked d \<and>
         (mp_issuer_peer c, sr_signature candidate) > (mp_issuer_peer d, sr_signature current)))"

definition apply_membership_event ::
    "signed_record list \<Rightarrow> (bytes, member_state) hash_map \<Rightarrow> usize \<Rightarrow>
     bool \<times> (bytes, member_state) hash_map" where
  "apply_membership_event records states i =
     (let candidate = records ! i; p = sr_payload candidate;
          replace = is_none_or (\<lambda>current.
            membership_event_wins candidate (records ! ms_record_index current) (ms_active current))
            (hm_get states (mp_member_peer p))
      in (replace,
          if replace
          then hm_insert states (mp_member_peer p)
                 \<lparr>ms_record_index = i, ms_active = (\<not> mp_revoked p \<and> OverlayMember \<in> set (mp_roles p))\<rparr>
          else states))"

text \<open>The record that stands for an issuer when one of its events is accepted.\<close>

definition accept_event :: "signed_record list \<Rightarrow> ledger_evaluation \<Rightarrow> usize \<Rightarrow> ledger_evaluation" where
  "accept_event records ev i =
     ev\<lparr>le_accepted := insert i (le_accepted ev),
        le_event_authorizers := hm_insert (le_event_authorizers ev) i
          (map_option ms_record_index (hm_get (le_states ev) (mp_issuer_peer (payload_of records i))))\<rparr>"

definition admit_event :: "signed_record list \<Rightarrow> ledger_evaluation \<Rightarrow> usize \<Rightarrow> ledger_evaluation" where
  "admit_event records ev i =
     (let p = payload_of records i; member = mp_member_peer p;
          ev = accept_event records ev i;
          was_active = is_some_and ms_active (hm_get (le_states ev) member);
          (applied, states) = apply_membership_event records (le_states ev) i;
          ev = ev\<lparr>le_states := states\<rparr>
      in if applied \<and> OverlayMember \<in> set (mp_roles p)
         then
           let ev = (if hm_contains (le_first_admissions ev) member then ev
                     else ev\<lparr>le_first_admissions := hm_insert (le_first_admissions ev) member i\<rparr>)
           in if \<not> was_active
              then ev\<lparr>le_current_admissions := hm_insert (le_current_admissions ev) member i\<rparr>
              else ev
         else ev)"

text \<open>One pass of \<open>pending.retain\<close>: the evaluation and the events that stay pending.\<close>

fun admit_pass ::
    "signed_record list \<Rightarrow> bytes set \<Rightarrow> ledger_evaluation \<Rightarrow> usize list \<Rightarrow> ledger_evaluation \<times> usize list" where
  "admit_pass records roots ev [] = (ev, [])"
| "admit_pass records roots ev (i # rest) =
     (if \<not> issuer_is_active_or_genesis (payload_of records i) (le_states ev) roots
      then (let (ev, kept) = admit_pass records roots ev rest in (ev, i # kept))
      else admit_pass records roots (admit_event records ev i) rest)"

lemma length_admit_pass: "length (snd (admit_pass records roots ev pending)) \<le> length pending"
  by (induction records roots ev pending rule: admit_pass.induct) (auto simp: case_prod_unfold Let_def)

text \<open>The loop ends because a pass that makes progress leaves fewer pending events.\<close>

function admit_rounds ::
    "signed_record list \<Rightarrow> bytes set \<Rightarrow> ledger_evaluation \<Rightarrow> usize list \<Rightarrow> ledger_evaluation" where
  "admit_rounds records roots ev pending =
     (if pending = [] then ev
      else
        let (ev, kept) = admit_pass records roots ev pending
        in if length kept < length pending then admit_rounds records roots ev kept else ev)"
  by pat_completeness auto
termination
  by (relation "measure (\<lambda>(_, _, _, pending). length pending)") (auto split: prod.splits)

declare admit_rounds.simps [simp del]

definition revoke_event :: "signed_record list \<Rightarrow> ledger_evaluation \<Rightarrow> usize \<Rightarrow> ledger_evaluation" where
  "revoke_event records ev i =
     (let ev = accept_event records ev i
      in ev\<lparr>le_states := snd (apply_membership_event records (le_states ev) i)\<rparr>)"

text \<open>The events issued at one time: grants to exhaustion, then the revocations authorised after them.\<close>

definition evaluate_group ::
    "signed_record list \<Rightarrow> bytes set \<Rightarrow> ledger_evaluation \<Rightarrow> usize list \<Rightarrow> ledger_evaluation" where
  "evaluate_group records roots ev events =
     (let ev = admit_rounds records roots ev (filter (\<lambda>i. \<not> mp_revoked (payload_of records i)) events);
          revocations = filter (\<lambda>i. issuer_is_active (payload_of records i) (le_states ev) roots)
            (filter (\<lambda>i. mp_revoked (payload_of records i)) events)
      in foldl (revoke_event records) ev revocations)"

function evaluate_events ::
    "signed_record list \<Rightarrow> bytes set \<Rightarrow> ledger_evaluation \<Rightarrow> usize list \<Rightarrow> ledger_evaluation" where
  "evaluate_events records roots ev [] = ev"
| "evaluate_events records roots ev (i # rest) =
     (let issued_at = mp_issued_at (payload_of records i);
          same = (\<lambda>j. mp_issued_at (payload_of records j) = issued_at);
          ev = ev\<lparr>le_states := expire_members_at records issued_at (le_states ev)\<rparr>
      in evaluate_events records roots
           (evaluate_group records roots ev (i # takeWhile same rest)) (dropWhile same rest))"
  by pat_completeness auto
termination
  by (relation "measure (\<lambda>(_, _, _, events). length events)") (auto simp: length_dropWhile_le less_Suc_eq_le)

definition ordered_events :: "signed_record list \<Rightarrow> u64 \<Rightarrow> usize list" where
  "ordered_events records now =
     sort_key (\<lambda>i. event_order_key (records ! i))
       (filter (\<lambda>i. mp_issued_at (payload_of records i) \<le> now) [0..<length records])"

definition evaluate_ledger_at ::
    "signed_record list \<Rightarrow> bytes set \<Rightarrow> u64 \<Rightarrow> (ledger_evaluation, membership_error) result" where
  "evaluate_ledger_at records trusted_roots now =
     and_then (validate_record_versions records) (\<lambda>_.
       let ev = evaluate_events records trusted_roots evaluation_default (ordered_events records now)
       in Ok (ev\<lparr>le_states := expire_members_at records now (le_states ev)\<rparr>))"

end
