(* ===== verification/Membership.thy ===== *)
theory Membership
  imports Ledger
begin

text \<open>
  The membership of a network derived from a history of signed records (\<open>src/src/membership.rs\<close>):
  validation of the history, trust anchors, merging of received records, the effective membership with
  its audit view, the proofs handed to other members, and the authorisation of peers.
\<close>

subsection \<open>Histories\<close>

fun validate_each ::
    "(signed_record \<Rightarrow> (unit, membership_error) result) \<Rightarrow> signed_record list \<Rightarrow> (unit, membership_error) result" where
  "validate_each check [] = Ok ()"
| "validate_each check (r # rest) = and_then (check r) (\<lambda>_. validate_each check rest)"

text \<open>The check made of every record before anything else.\<close>

definition check_record ::
    "('kp, 'key, 'l) membership_library \<Rightarrow> bytes \<Rightarrow> signed_record \<Rightarrow> (unit, membership_error) result" where
  "check_record lib network_name r =
     and_then (ensure_record_network r network_name) (\<lambda>_. record_verify lib r)"

definition validate_record_history ::
    "('kp, 'key, 'l) membership_library \<Rightarrow> signed_record list \<Rightarrow> bytes \<Rightarrow> (unit, membership_error) result" where
  "validate_record_history lib records network_name =
     (if length records > MAX_MEMBERSHIP_RECORDS
      then Err (TooManyRecords MAX_MEMBERSHIP_RECORDS (length records))
      else
        and_then (validate_each (check_record lib network_name) records) (\<lambda>_.
        and_then (latest_record_indices records) (\<lambda>_. Ok ())))"

definition validate_records_at ::
    "('kp, 'key, 'l) membership_library \<Rightarrow> signed_record list \<Rightarrow> bytes \<Rightarrow> u64 \<Rightarrow>
     (unit, membership_error) result" where
  "validate_records_at lib records network_name now =
     and_then (validate_record_history lib records network_name) (\<lambda>_.
       validate_each (\<lambda>r. validate_payload_time (sr_payload r) now) records)"

definition is_root_record :: "signed_record \<Rightarrow> bool" where
  "is_root_record r \<longleftrightarrow> mp_issuer_peer (sr_payload r) = mp_member_peer (sr_payload r)"

definition membership_trust_anchors ::
    "('kp, 'key, 'l) membership_library \<Rightarrow> signed_record list \<Rightarrow> bytes \<Rightarrow> (bytes set, membership_error) result" where
  "membership_trust_anchors lib records network_name =
     and_then (validate_record_history lib records network_name) (\<lambda>_.
     and_then (canonical_records records) (\<lambda>latest.
       Ok (if list_ex is_root_record latest
           then set (map (\<lambda>r. mp_issuer_peer (sr_payload r)) (filter is_root_record latest))
           else set (map (\<lambda>r. mp_issuer_peer (sr_payload r)) latest))))"

definition trusted_issuers_at ::
    "('kp, 'key, 'l) membership_library \<Rightarrow> signed_record list \<Rightarrow> bytes \<Rightarrow> u64 \<Rightarrow>
     (bytes set, membership_error) result" where
  "trusted_issuers_at lib records network_name now =
     and_then (membership_trust_anchors lib records network_name) (\<lambda>anchors.
     and_then (evaluate_ledger_at records anchors now) (\<lambda>ev.
       Ok {peer \<in> anchors. is_none_or ms_active (hm_get (le_states ev) peer)}))"

subsection \<open>Merging received records\<close>

record merge_stats =
  st_accepted :: usize
  st_ignored_stale_or_equal :: usize
  st_removed_expired :: usize
  st_removed_untrusted :: usize

definition merge_stats_default :: merge_stats where
  "merge_stats_default =
     \<lparr>st_accepted = 0, st_ignored_stale_or_equal = 0, st_removed_expired = 0, st_removed_untrusted = 0\<rparr>"

definition same_version :: "signed_record \<Rightarrow> signed_record \<Rightarrow> bool" where
  "same_version r s \<longleftrightarrow>
     mp_issuer_peer (sr_payload r) = mp_issuer_peer (sr_payload s) \<and>
     mp_member_peer (sr_payload r) = mp_member_peer (sr_payload s) \<and>
     mp_membership_epoch (sr_payload r) = mp_membership_epoch (sr_payload s) \<and>
     mp_sequence (sr_payload r) = mp_sequence (sr_payload s)"

text \<open>The loop over the received records: the merged records, the indices added and the counts.\<close>

fun merge_loop ::
    "u64 \<Rightarrow> usize \<Rightarrow> signed_record list \<Rightarrow> usize list \<Rightarrow> merge_stats \<Rightarrow> signed_record list \<Rightarrow>
     (signed_record list \<times> usize list \<times> merge_stats, membership_error) result" where
  "merge_loop now max_records merged added stats [] = Ok (merged, added, stats)"
| "merge_loop now max_records merged added stats (r # rest) =
     (let ignored = stats\<lparr>st_ignored_stale_or_equal := st_ignored_stale_or_equal stats + 1\<rparr> in
      if r \<in> set merged then merge_loop now max_records merged added ignored rest
      else
        (case List.find (\<lambda>s. same_version s r) merged of
           Some existing \<Rightarrow>
             if existing \<noteq> r then Err (conflicting_record_version r)
             else merge_loop now max_records merged added ignored rest
         | None \<Rightarrow>
             and_then (validate_payload_issue_time (sr_payload r) now) (\<lambda>_.
               if length merged \<ge> max_records then Err (TooManyRecords max_records (length merged + 1))
               else merge_loop now max_records (merged @ [r]) (added @ [length merged])
                      (stats\<lparr>st_accepted := st_accepted stats + 1\<rparr>) rest)))"

fun check_added ::
    "signed_record list \<Rightarrow> ledger_evaluation \<Rightarrow> usize list \<Rightarrow> (unit, membership_error) result" where
  "check_added merged ev [] = Ok ()"
| "check_added merged ev (i # rest) =
     (if i \<notin> le_accepted ev then Err (UntrustedIssuer (mp_issuer_peer (payload_of merged i)))
      else check_added merged ev rest)"

text \<open>The records are replaced only on success; the result carries the new ones.\<close>

definition merge_records_at ::
    "('kp, 'key, 'l) membership_library \<Rightarrow> signed_record list \<Rightarrow> signed_record list \<Rightarrow> bytes \<Rightarrow> u64 \<Rightarrow>
     bytes set \<Rightarrow> usize \<Rightarrow> (signed_record list \<times> merge_stats, membership_error) result" where
  "merge_records_at lib records incoming network_name now trusted_issuers max_records =
     and_then (validate_each (check_record lib network_name) records) (\<lambda>_.
     and_then (validate_record_versions records) (\<lambda>_.
     and_then (validate_each (check_record lib network_name) incoming) (\<lambda>_.
     and_then (merge_loop now max_records records [] merge_stats_default incoming) (\<lambda>(merged, added, stats).
       if length merged > max_records then Err (TooManyRecords max_records (length merged))
       else
         let horizon = saturating_add_word now MAX_MEMBERSHIP_CLOCK_SKEW_SECONDS in
         and_then (evaluate_ledger_at merged trusted_issuers horizon) (\<lambda>ev.
         and_then (check_added merged ev added) (\<lambda>_. Ok (merged, stats)))))))"

subsection \<open>Effective members\<close>

record 'l effective_member =
  em_peer :: peer_id
  em_transport_peer :: 'l
  em_membership_epoch :: u64
  em_sequence :: u64
  em_effective_inviter_peer :: "'l option"
  em_original_inviter_peer :: "'l option"
  em_admitted_at :: u64
  em_original_admitted_at :: u64
  em_hostnames :: "bytes list"
  em_roles :: "membership_role list"
  em_route_grants :: "route_config list"

record 'l effective_membership =
  eff_members :: "(peer_id, 'l effective_member) hash_map"
  eff_governed_peers :: "peer_id set"
  eff_checkpoint_authoritative :: bool

definition has_role :: "'l effective_member \<Rightarrow> membership_role \<Rightarrow> bool" where
  "has_role member role \<longleftrightarrow> role \<in> set (em_roles member)"

definition parse_peer ::
    "('kp, 'key, 'l) membership_library \<Rightarrow> bytes \<Rightarrow> ('l, membership_error) result" where
  "parse_peer lib text = ok_or (libp2p_from_str (ml_identity lib) text) MembershipLibp2pPeerId"

definition overlay_peer :: "('kp, 'key, 'l) membership_library \<Rightarrow> 'l \<Rightarrow> peer_id" where
  "overlay_peer lib = from_libp2p (digest_sha256 (ml_identity lib)) (libp2p_to_bytes (ml_identity lib))"

definition inviter_peer ::
    "('kp, 'key, 'l) membership_library \<Rightarrow> membership_payload \<Rightarrow> ('l option, membership_error) result" where
  "inviter_peer lib p =
     (if mp_issuer_peer p = mp_member_peer p then Ok None
      else and_then (parse_peer lib (mp_issuer_peer p)) (\<lambda>peer. Ok (Some peer)))"

definition canonical_hostname :: "bytes option \<Rightarrow> (bytes option, membership_error) result" where
  "canonical_hostname hostname =
     (case hostname of
        None \<Rightarrow> Ok None
      | Some name \<Rightarrow> and_then (map_err MembershipInvalidHostname (canonical_dns_label name))
                       (\<lambda>name. Ok (Some name)))"

definition effective_member_from_payload ::
    "('kp, 'key, 'l) membership_library \<Rightarrow> membership_payload \<Rightarrow> membership_payload \<Rightarrow>
     membership_payload option \<Rightarrow> ('l effective_member, membership_error) result" where
  "effective_member_from_payload lib p current_admission original_admission =
     and_then (parse_peer lib (mp_member_peer p)) (\<lambda>transport_peer.
     let original = (case original_admission of Some q \<Rightarrow> q | None \<Rightarrow> p) in
     and_then (inviter_peer lib current_admission) (\<lambda>effective_inviter.
     and_then (inviter_peer lib original) (\<lambda>original_inviter.
     and_then (canonical_hostname (mp_hostname p)) (\<lambda>hostname.
       Ok \<lparr>em_peer = overlay_peer lib transport_peer, em_transport_peer = transport_peer,
           em_membership_epoch = mp_membership_epoch p, em_sequence = mp_sequence p,
           em_effective_inviter_peer = effective_inviter, em_original_inviter_peer = original_inviter,
           em_admitted_at = mp_issued_at current_admission,
           em_original_admitted_at = mp_issued_at original,
           em_hostnames = (case hostname of Some name \<Rightarrow> [name] | None \<Rightarrow> []),
           em_roles = mp_roles p, em_route_grants = mp_route_grants p\<rparr>))))"

text \<open>The loop over the states of an evaluation.\<close>

fun effective_loop ::
    "('kp, 'key, 'l) membership_library \<Rightarrow> signed_record list \<Rightarrow> ledger_evaluation \<Rightarrow>
     'l effective_membership \<Rightarrow> (bytes \<times> member_state) list \<Rightarrow>
     ('l effective_membership, membership_error) result" where
  "effective_loop lib records ev m [] = Ok m"
| "effective_loop lib records ev m ((_, state) # rest) =
     (let p = payload_of records (ms_record_index state) in
      and_then (parse_peer lib (mp_member_peer p)) (\<lambda>transport_peer.
      let m = m\<lparr>eff_governed_peers := insert (overlay_peer lib transport_peer) (eff_governed_peers m)\<rparr> in
      if \<not> ms_active state then effective_loop lib records ev m rest
      else
        let original = map_option (payload_of records) (hm_get (le_first_admissions ev) (mp_member_peer p));
            current = (case hm_get (le_current_admissions ev) (mp_member_peer p) of
                         None \<Rightarrow> p | Some i \<Rightarrow> payload_of records i)
        in and_then (effective_member_from_payload lib p current original) (\<lambda>candidate.
             effective_loop lib records ev
               (m\<lparr>eff_members := hm_insert (eff_members m) (em_peer candidate) candidate\<rparr>) rest)))"

definition effective_from_evaluation ::
    "('kp, 'key, 'l) membership_library \<Rightarrow> signed_record list \<Rightarrow> ledger_evaluation \<Rightarrow>
     ('l effective_membership, membership_error) result" where
  "effective_from_evaluation lib records ev =
     effective_loop lib records ev
       \<lparr>eff_members = [], eff_governed_peers = {}, eff_checkpoint_authoritative = False\<rparr> (le_states ev)"

definition effective_membership_at ::
    "('kp, 'key, 'l) membership_library \<Rightarrow> signed_record list \<Rightarrow> bytes \<Rightarrow> u64 \<Rightarrow>
     ('l effective_membership, membership_error) result" where
  "effective_membership_at lib records network_name now =
     and_then (validate_record_history lib records network_name) (\<lambda>_.
     and_then (membership_trust_anchors lib records network_name) (\<lambda>anchors.
     and_then (evaluate_ledger_at records anchors now) (\<lambda>ev.
       effective_from_evaluation lib records ev)))"

subsection \<open>The audit view\<close>

datatype membership_standing = ActiveMember | RevokedMember | ExpiredMember | InactiveMember

record 'l audit_member =
  am_peer :: peer_id
  am_transport_peer :: 'l
  am_state :: membership_standing
  am_effective_inviter_peer :: "'l option"
  am_original_inviter_peer :: "'l option"
  am_admitted_at :: "u64 option"
  am_original_admitted_at :: "u64 option"
  am_state_changed_at :: u64
  am_hostname :: "bytes option"

definition standing_of :: "membership_payload \<Rightarrow> bool \<Rightarrow> u64 \<Rightarrow> membership_standing \<times> u64" where
  "standing_of p active now =
     (if active then (ActiveMember, mp_issued_at p)
      else if mp_revoked p then (RevokedMember, mp_issued_at p)
      else (case mp_expires_at p of
              Some expires_at \<Rightarrow>
                if now \<ge> expires_at then (ExpiredMember, expires_at) else (InactiveMember, mp_issued_at p)
            | None \<Rightarrow> (InactiveMember, mp_issued_at p)))"

definition optional_inviter ::
    "('kp, 'key, 'l) membership_library \<Rightarrow> membership_payload option \<Rightarrow> ('l option, membership_error) result" where
  "optional_inviter lib admission = (case admission of None \<Rightarrow> Ok None | Some p \<Rightarrow> inviter_peer lib p)"

definition audit_member_from_payloads ::
    "('kp, 'key, 'l) membership_library \<Rightarrow> membership_payload \<Rightarrow> membership_payload option \<Rightarrow>
     membership_payload option \<Rightarrow> bool \<Rightarrow> u64 \<Rightarrow> ('l audit_member, membership_error) result" where
  "audit_member_from_payloads lib p current_admission original_admission active now =
     and_then (parse_peer lib (mp_member_peer p)) (\<lambda>transport_peer.
     let (state, changed_at) = standing_of p active now in
     and_then (optional_inviter lib current_admission) (\<lambda>effective_inviter.
     and_then (optional_inviter lib original_admission) (\<lambda>original_inviter.
     and_then (canonical_hostname (case current_admission of None \<Rightarrow> None | Some q \<Rightarrow> mp_hostname q)) (\<lambda>hostname.
       Ok \<lparr>am_peer = overlay_peer lib transport_peer, am_transport_peer = transport_peer,
           am_state = state, am_effective_inviter_peer = effective_inviter,
           am_original_inviter_peer = original_inviter,
           am_admitted_at = map_option mp_issued_at current_admission,
           am_original_admitted_at = map_option mp_issued_at original_admission,
           am_state_changed_at = changed_at, am_hostname = hostname\<rparr>))))"

fun audit_loop ::
    "('kp, 'key, 'l) membership_library \<Rightarrow> signed_record list \<Rightarrow> ledger_evaluation \<Rightarrow> u64 \<Rightarrow>
     (bytes \<times> member_state) list \<Rightarrow> ('l audit_member list, membership_error) result" where
  "audit_loop lib records ev now [] = Ok []"
| "audit_loop lib records ev now ((peer, state) # rest) =
     and_then (audit_member_from_payloads lib (payload_of records (ms_record_index state))
        (map_option (payload_of records) (hm_get (le_current_admissions ev) peer))
        (map_option (payload_of records) (hm_get (le_first_admissions ev) peer))
        (ms_active state) now) (\<lambda>member.
     and_then (audit_loop lib records ev now rest) (\<lambda>members. Ok (member # members)))"

text \<open>Members are listed in the order of their libp2p identities, which is that of their bytes.\<close>

definition audit_from_evaluation ::
    "('kp, 'key, 'l) membership_library \<Rightarrow> signed_record list \<Rightarrow> ledger_evaluation \<Rightarrow> u64 \<Rightarrow>
     ('l audit_member list, membership_error) result" where
  "audit_from_evaluation lib records ev now =
     and_then (audit_loop lib records ev now (le_states ev)) (\<lambda>members.
       Ok (sort_key (\<lambda>m. libp2p_to_bytes (ml_identity lib) (am_transport_peer m)) members))"

definition membership_audit_at ::
    "('kp, 'key, 'l) membership_library \<Rightarrow> signed_record list \<Rightarrow> bytes \<Rightarrow> u64 \<Rightarrow>
     ('l audit_member list, membership_error) result" where
  "membership_audit_at lib records network_name now =
     and_then (validate_record_history lib records network_name) (\<lambda>_.
     and_then (membership_trust_anchors lib records network_name) (\<lambda>anchors.
     and_then (evaluate_ledger_at records anchors now) (\<lambda>ev.
       audit_from_evaluation lib records ev now)))"

definition membership_views_at ::
    "('kp, 'key, 'l) membership_library \<Rightarrow> signed_record list \<Rightarrow> bytes \<Rightarrow> u64 \<Rightarrow>
     ('l effective_membership \<times> 'l audit_member list, membership_error) result" where
  "membership_views_at lib records network_name now =
     and_then (validate_record_history lib records network_name) (\<lambda>_.
     and_then (membership_trust_anchors lib records network_name) (\<lambda>anchors.
     and_then (evaluate_ledger_at records anchors now) (\<lambda>ev.
     and_then (audit_from_evaluation lib records ev now) (\<lambda>audit.
     and_then (effective_from_evaluation lib records ev) (\<lambda>effective.
       Ok (effective, audit))))))"

subsection \<open>Authorisation\<close>

definition overlay_members :: "'l effective_membership \<Rightarrow> 'l effective_member list" where
  "overlay_members m = filter (\<lambda>member. has_role member OverlayMember) (map snd (eff_members m))"

definition retain_members :: "('l effective_member \<Rightarrow> bool) \<Rightarrow> 'l effective_membership \<Rightarrow> 'l effective_membership" where
  "retain_members keep m = m\<lparr>eff_members := hm_retain (\<lambda>_ member. keep member) (eff_members m)\<rparr>"

definition is_overlay_member :: "'l effective_membership \<Rightarrow> peer_id \<Rightarrow> bool" where
  "is_overlay_member m peer = is_some_and (\<lambda>member. has_role member OverlayMember) (hm_get (eff_members m) peer)"

definition membership_authorizes_peer :: "'l effective_membership \<Rightarrow> peer_id \<Rightarrow> bool" where
  "membership_authorizes_peer m peer \<longleftrightarrow>
     (\<not> eff_checkpoint_authoritative m \<and> peer \<notin> eff_governed_peers m) \<or> is_overlay_member m peer"

record 'l effective_authorization =
  ea_membership :: "'l effective_membership"
  ea_local_is_active :: bool

definition authorization_for :: "'l effective_membership \<Rightarrow> peer_id \<Rightarrow> 'l effective_authorization" where
  "authorization_for m local_peer =
     \<lparr>ea_membership = m, ea_local_is_active = membership_authorizes_peer m local_peer\<rparr>"

definition allows_peer :: "'l effective_authorization \<Rightarrow> peer_id \<Rightarrow> bool \<Rightarrow> bool" where
  "allows_peer a peer configured \<longleftrightarrow>
     ea_local_is_active a \<and>
     (configured \<and> membership_authorizes_peer (ea_membership a) peer \<or>
      is_overlay_member (ea_membership a) peer)"

definition authorizes_configured_peer :: "'l effective_authorization \<Rightarrow> peer_id \<Rightarrow> bool" where
  "authorizes_configured_peer a peer = allows_peer a peer True"

definition authorized_overlay_members :: "'l effective_authorization \<Rightarrow> 'l effective_member list" where
  "authorized_overlay_members a = filter (\<lambda>_. ea_local_is_active a) (overlay_members (ea_membership a))"

end
