(* ===== verification/Ledger_Invariant.thy ===== *)
theory Ledger_Invariant
  imports Membership
begin

text \<open>
  Invariants of the evaluation of a ledger. The locale walks through the evaluation once: what holds
  initially and is kept by an authorised grant, by a revocation and by the passing of time holds of
  the result. Two invariants are proved with it: every active member descends from a trust anchor by
  a chain of grants, and a revocation outranks every earlier version.
\<close>

subsection \<open>The walk through an evaluation\<close>

lemma hm_get_expire_members:
  "hm_get (expire_members_at records now states) peer =
     map_option (\<lambda>state. if ms_active state \<and> record_is_expired_at (records ! ms_record_index state) now
       then state\<lparr>ms_active := False\<rparr> else state) (hm_get states peer)"
  unfolding expire_members_at_def
  using hm_map_values(1) [of "\<lambda>state. if ms_active state \<and> record_is_expired_at (records ! ms_record_index state) now
       then state\<lparr>ms_active := False\<rparr> else state" states peer] by (simp add: case_prod_unfold)

lemma le_states_update [simp]: "le_states (ev\<lparr>le_states := s\<rparr>) = s" by simp

locale ledger_invariant =
  fixes records :: "signed_record list" and roots :: "bytes set"
    and I :: "u64 \<Rightarrow> ledger_evaluation \<Rightarrow> bool"
  assumes start: "I 0 evaluation_default"
    and admit: "I t ev \<Longrightarrow> i < length records \<Longrightarrow> mp_issued_at (payload_of records i) = t \<Longrightarrow>
      \<not> mp_revoked (payload_of records i) \<Longrightarrow>
      issuer_is_active_or_genesis (payload_of records i) (le_states ev) roots \<Longrightarrow>
      I t (admit_event records ev i)"
    and revoke: "I t ev \<Longrightarrow> i < length records \<Longrightarrow> mp_issued_at (payload_of records i) = t \<Longrightarrow>
      mp_revoked (payload_of records i) \<Longrightarrow> I t (revoke_event records ev i)"
    and expire: "I t ev \<Longrightarrow> t \<le> t' \<Longrightarrow>
      I t' (ev\<lparr>le_states := expire_members_at records t' (le_states ev)\<rparr>)"
begin

definition issued_together :: "u64 \<Rightarrow> usize list \<Rightarrow> bool" where
  "issued_together t events \<longleftrightarrow>
     (\<forall>i \<in> set events. i < length records \<and> mp_issued_at (payload_of records i) = t)"

lemma admit_pass_keeps:
  assumes "I t ev" and "issued_together t events"
    and "\<forall>i \<in> set events. \<not> mp_revoked (payload_of records i)"
  shows "I t (fst (admit_pass records roots ev events)) \<and>
    set (snd (admit_pass records roots ev events)) \<subseteq> set events"
  using assms
proof (induction events arbitrary: ev)
  case (Cons i rest)
  then have i: "i < length records" "mp_issued_at (payload_of records i) = t"
      "\<not> mp_revoked (payload_of records i)" and rest: "issued_together t rest"
      "\<forall>i \<in> set rest. \<not> mp_revoked (payload_of records i)"
    by (auto simp: issued_together_def)
  show ?case
  proof (cases "issuer_is_active_or_genesis (payload_of records i) (le_states ev) roots")
    case True
    from admit [OF Cons.prems(1) i True] have "I t (admit_event records ev i)" .
    from Cons.IH [OF this rest] True show ?thesis by auto
  next
    case False
    with Cons.IH [OF Cons.prems(1) rest] show ?thesis by (auto simp: case_prod_unfold Let_def)
  qed
qed simp

lemma admit_rounds_keeps:
  assumes "I t ev" and "issued_together t events"
    and "\<forall>i \<in> set events. \<not> mp_revoked (payload_of records i)"
  shows "I t (admit_rounds records roots ev events)"
  using assms
proof (induction "length events" arbitrary: ev events rule: less_induct)
  case less
  let ?out = "admit_pass records roots ev events"
  have out: "I t (fst ?out)" "set (snd ?out) \<subseteq> set events"
    using admit_pass_keeps [OF less.prems] by auto
  then have sub: "issued_together t (snd ?out)" "\<forall>i \<in> set (snd ?out). \<not> mp_revoked (payload_of records i)"
    using less.prems(2,3) by (auto simp: issued_together_def)
  show ?case
    using less.prems(1) out(1) less.hyps [OF _ out(1) sub]
    by (subst admit_rounds.simps) (auto simp: case_prod_unfold Let_def)
qed

lemma evaluate_group_keeps:
  assumes "I t ev" and "issued_together t events"
  shows "I t (evaluate_group records roots ev events)"
proof -
  have fold: "I t (foldl (revoke_event records) ev events)"
    if "I t ev" and "issued_together t events" and "\<forall>i \<in> set events. mp_revoked (payload_of records i)"
    for ev events
    using that
  proof (induction events arbitrary: ev)
    case (Cons i rest)
    then have "I t (revoke_event records ev i)"
      by (intro revoke) (auto simp: issued_together_def)
    with Cons.IH [of "revoke_event records ev i"] Cons.prems show ?case
      by (auto simp: issued_together_def)
  qed simp
  show ?thesis
    unfolding evaluate_group_def Let_def
    by (rule fold, rule admit_rounds_keeps) (use assms in \<open>auto simp: issued_together_def\<close>)
qed

lemma evaluate_events_keeps:
  assumes "I t ev" and "\<forall>i \<in> set events. i < length records \<and> t \<le> mp_issued_at (payload_of records i)"
    and "sorted (map (\<lambda>i. mp_issued_at (payload_of records i)) events)"
  shows "\<exists>t'. I t' (evaluate_events records roots ev events) \<and>
    (t' = t \<or> t' \<in> (\<lambda>i. mp_issued_at (payload_of records i)) ` set events)"
  using assms
proof (induction "length events" arbitrary: t ev events rule: less_induct)
  case less
  show ?case
  proof (cases events)
    case Nil
    with less.prems(1) show ?thesis by auto
  next
    case (Cons i rest)
    let ?t = "mp_issued_at (payload_of records i)"
    let ?same = "\<lambda>j. mp_issued_at (payload_of records j) = ?t"
    let ?ev = "ev\<lparr>le_states := expire_members_at records ?t (le_states ev)\<rparr>"
    let ?next = "evaluate_group records roots ?ev (i # takeWhile ?same rest)"
    let ?later = "dropWhile ?same rest"
    have "issued_together ?t (i # takeWhile ?same rest)"
      using less.prems(2) Cons by (auto simp: issued_together_def dest: set_takeWhileD)
    with less.prems Cons have inv: "I ?t ?next"
      by (intro evaluate_group_keeps expire [of t]) auto
    have later: "set ?later \<subseteq> set rest" by (auto dest: set_dropWhileD)
    have bound: "\<forall>j \<in> set ?later. j < length records \<and> ?t \<le> mp_issued_at (payload_of records j)"
      using later less.prems(2,3) Cons by auto
    have srt: "sorted (map (\<lambda>i. mp_issued_at (payload_of records i)) ?later)"
      using less.prems(3) Cons sorted_wrt_dropWhile [of "\<lambda>i j. mp_issued_at (payload_of records i) \<le> mp_issued_at (payload_of records j)" rest ?same]
      by (simp add: sorted_wrt_map)
    have "length ?later < length events" using Cons by (simp add: length_dropWhile_le less_Suc_eq_le)
    from less.hyps [OF this inv bound srt] obtain t' where
      "I t' (evaluate_events records roots ?next ?later)"
      "t' = ?t \<or> t' \<in> (\<lambda>i. mp_issued_at (payload_of records i)) ` set ?later" by blast
    with later Cons show ?thesis by (auto simp: Let_def)
  qed
qed

lemma ordered_events_keep:
  "\<exists>t \<le> now. I t (evaluate_events records roots evaluation_default (ordered_events records now))"
proof -
  let ?events = "ordered_events records now"
  have "sorted (map (\<lambda>i. event_order_key (records ! i)) ?events)" by (simp add: ordered_events_def)
  then have "sorted (map fst (map (\<lambda>i. event_order_key (records ! i)) ?events))"
    by (simp add: sorted_wrt_map) (erule sorted_wrt_mono_rel [rotated], auto simp: less_eq_prod_def)
  then have "sorted (map (\<lambda>i. mp_issued_at (payload_of records i)) ?events)"
    by (simp add: event_order_key_def Let_def comp_def)
  moreover have "set ?events \<subseteq> {i. i < length records \<and> mp_issued_at (payload_of records i) \<le> now}"
    by (auto simp: ordered_events_def)
  ultimately obtain t where "I t (evaluate_events records roots evaluation_default ?events)" "t \<le> now"
    using evaluate_events_keeps [OF start, of ?events] by force
  then show ?thesis by blast
qed

lemma evaluation_keeps:
  assumes "evaluate_ledger_at records roots now = Ok ev"
  shows "I now ev"
proof -
  from ordered_events_keep obtain t where
    "I t (evaluate_events records roots evaluation_default (ordered_events records now))" "t \<le> now" by blast
  from expire [OF this] assms show ?thesis
    by (auto simp: evaluate_ledger_at_def and_then_Inr_iff Let_def)
qed

end

subsection \<open>Where the states point\<close>

definition grants_membership :: "signed_record \<Rightarrow> bool" where
  "grants_membership r \<longleftrightarrow> \<not> mp_revoked (sr_payload r) \<and> OverlayMember \<in> set (mp_roles (sr_payload r))"

lemma le_states_accept_event [simp]: "le_states (accept_event records ev i) = le_states ev"
  by (simp add: accept_event_def)

lemma le_states_admit_event:
  "le_states (admit_event records ev i) = snd (apply_membership_event records (le_states ev) i)"
  by (simp add: admit_event_def Let_def case_prod_unfold)

lemma le_states_revoke_event:
  "le_states (revoke_event records ev i) = snd (apply_membership_event records (le_states ev) i)"
  by (simp add: revoke_event_def)

lemma hm_get_apply_event:
  "hm_get (snd (apply_membership_event records states i)) peer =
     (if peer = mp_member_peer (payload_of records i) \<and> fst (apply_membership_event records states i)
      then Some \<lparr>ms_record_index = i, ms_active = grants_membership (records ! i)\<rparr>
      else hm_get states peer)"
  by (auto simp: apply_membership_event_def Let_def grants_membership_def)

lemma hm_wf_apply_event [simp]:
  "hm_wf states \<Longrightarrow> hm_wf (snd (apply_membership_event records states i))"
  by (simp add: apply_membership_event_def Let_def)

lemma hm_wf_expire_members [simp]: "hm_wf (expire_members_at records now states) \<longleftrightarrow> hm_wf states"
  unfolding expire_members_at_def by (rule hm_map_values)

definition index_inv :: "signed_record list \<Rightarrow> ledger_evaluation \<Rightarrow> bool" where
  "index_inv records ev \<longleftrightarrow> hm_wf (le_states ev) \<and>
     (\<forall>peer state. hm_get (le_states ev) peer = Some state \<longrightarrow>
        ms_record_index state < length records \<and>
        mp_member_peer (payload_of records (ms_record_index state)) = peer)"

interpretation indices: ledger_invariant records roots "\<lambda>_. index_inv records" for records roots
proof
  show "index_inv records evaluation_default" by (simp add: index_inv_def evaluation_default_def)
qed (auto simp: index_inv_def le_states_admit_event le_states_revoke_event hm_get_apply_event
    hm_get_expire_members split: if_splits)

subsection \<open>Members descend from trust anchors\<close>

text \<open>
  A record admits its member when it grants membership and its issuer is a trust anchor, or was itself
  admitted by a record issued no later that had not expired when this one was issued.
\<close>

inductive admitted :: "signed_record list \<Rightarrow> bytes set \<Rightarrow> signed_record \<Rightarrow> bool" for records roots where
  admitted_by_root: "r \<in> set records \<Longrightarrow> grants_membership r \<Longrightarrow>
    mp_issuer_peer (sr_payload r) \<in> roots \<Longrightarrow> admitted records roots r"
| admitted_by_member: "admitted records roots s \<Longrightarrow> r \<in> set records \<Longrightarrow> grants_membership r \<Longrightarrow>
    mp_issuer_peer (sr_payload r) = mp_member_peer (sr_payload s) \<Longrightarrow>
    mp_issuer_peer (sr_payload r) \<noteq> mp_member_peer (sr_payload r) \<Longrightarrow>
    mp_issued_at (sr_payload s) \<le> mp_issued_at (sr_payload r) \<Longrightarrow>
    \<not> record_is_expired_at s (mp_issued_at (sr_payload r)) \<Longrightarrow> admitted records roots r"

definition issued_before_expiry :: "signed_record \<Rightarrow> bool" where
  "issued_before_expiry r \<longleftrightarrow> \<not> record_is_expired_at r (mp_issued_at (sr_payload r))"

definition state_trusted :: "signed_record list \<Rightarrow> bytes set \<Rightarrow> u64 \<Rightarrow> bytes \<Rightarrow> member_state \<Rightarrow> bool" where
  "state_trusted records roots t peer state \<longleftrightarrow>
     ms_record_index state < length records \<and>
     mp_member_peer (payload_of records (ms_record_index state)) = peer \<and>
     mp_issued_at (payload_of records (ms_record_index state)) \<le> t \<and>
     (ms_active state \<longrightarrow> admitted records roots (records ! ms_record_index state) \<and>
        \<not> record_is_expired_at (records ! ms_record_index state) t)"

definition trust_inv :: "signed_record list \<Rightarrow> bytes set \<Rightarrow> u64 \<Rightarrow> ledger_evaluation \<Rightarrow> bool" where
  "trust_inv records roots t ev \<longleftrightarrow>
     (list_all issued_before_expiry records \<longrightarrow>
        (\<forall>peer state. hm_get (le_states ev) peer = Some state \<longrightarrow> state_trusted records roots t peer state))"

lemma active_issuer_admits:
  assumes inv: "\<forall>peer state. hm_get states peer = Some state \<longrightarrow> state_trusted records roots t peer state"
    and i: "i < length records" "mp_issued_at (payload_of records i) = t" "grants_membership (records ! i)"
    and issuer: "issuer_is_active_or_genesis (payload_of records i) states roots"
  shows "admitted records roots (records ! i)"
proof (cases "mp_issuer_peer (payload_of records i) \<in> roots")
  case True
  with i show ?thesis by (intro admitted_by_root) auto
next
  case False
  with issuer have ne: "mp_issuer_peer (payload_of records i) \<noteq> mp_member_peer (payload_of records i)"
    by (auto simp: issuer_is_active_or_genesis_def)
  with issuer have "issuer_is_active (payload_of records i) states roots"
    by (simp add: issuer_is_active_or_genesis_def)
  with False obtain state where state: "hm_get states (mp_issuer_peer (payload_of records i)) = Some state"
      "ms_active state"
    by (cases "hm_get states (mp_issuer_peer (payload_of records i))") (auto simp: issuer_is_active_def)
  have "state_trusted records roots t (mp_issuer_peer (payload_of records i)) state"
    by (rule inv [rule_format, OF state(1)])
  with state(2) ne i show ?thesis
    by - (rule admitted_by_member [of records roots "records ! ms_record_index state"],
        simp_all add: state_trusted_def)
qed

lemma expiry_keeps_trust:
  assumes "state_trusted records roots t peer state" and "t \<le> t'"
  shows "state_trusted records roots t' peer
    (if ms_active state \<and> record_is_expired_at (records ! ms_record_index state) t'
     then state\<lparr>ms_active := False\<rparr> else state)"
  using assms order_trans [OF _ assms(2)] by (simp add: state_trusted_def)

interpretation trust: ledger_invariant records roots "trust_inv records roots" for records roots
proof
  show "trust_inv records roots 0 evaluation_default"
    by (simp add: trust_inv_def evaluation_default_def)
next
  fix t ev i
  assume inv: "trust_inv records roots t ev" and i: "i < length records"
    "mp_issued_at (payload_of records i) = t"
    "issuer_is_active_or_genesis (payload_of records i) (le_states ev) roots"
  show "trust_inv records roots t (admit_event records ev i)"
    unfolding trust_inv_def le_states_admit_event hm_get_apply_event
  proof (intro impI allI)
    fix peer state
    assume all: "list_all issued_before_expiry records"
      and get: "(if peer = mp_member_peer (payload_of records i) \<and>
           fst (apply_membership_event records (le_states ev) i)
         then Some \<lparr>ms_record_index = i, ms_active = grants_membership (records ! i)\<rparr>
         else hm_get (le_states ev) peer) = Some state"
    from inv all have old: "\<forall>peer state. hm_get (le_states ev) peer = Some state \<longrightarrow>
        state_trusted records roots t peer state" by (simp add: trust_inv_def)
    have "\<not> record_is_expired_at (records ! i) t"
      using all i by (auto simp: list_all_length issued_before_expiry_def)
    with get old i active_issuer_admits [OF old i(1,2) _ i(3)] show "state_trusted records roots t peer state"
      by (auto simp: state_trusted_def split: if_splits)
  qed
next
  fix t ev i
  assume inv: "trust_inv records roots t ev" and i: "i < length records"
    "mp_issued_at (payload_of records i) = t" "mp_revoked (payload_of records i)"
  then show "trust_inv records roots t (revoke_event records ev i)"
    by (auto simp: trust_inv_def le_states_revoke_event hm_get_apply_event state_trusted_def
        grants_membership_def)
next
  fix t ev t'
  assume "trust_inv records roots t ev" and "t \<le> t'"
  then show "trust_inv records roots t' (ev\<lparr>le_states := expire_members_at records t' (le_states ev)\<rparr>)"
    unfolding trust_inv_def le_states_update hm_get_expire_members
    by (auto simp only: map_option_eq_Some intro: expiry_keeps_trust)
qed

subsection \<open>Revocations\<close>

text \<open>What an accepted revocation means for the state of its member.\<close>

definition outranked :: "signed_record list \<Rightarrow> membership_payload \<Rightarrow> member_state \<Rightarrow> bool" where
  "outranked records p state \<longleftrightarrow>
     (let q = payload_of records (ms_record_index state) in
      if ms_active state then record_version p < record_version q \<and> \<not> mp_revoked q
      else record_version p \<le> record_version q)"

definition revocation_inv :: "signed_record list \<Rightarrow> ledger_evaluation \<Rightarrow> bool" where
  "revocation_inv records ev \<longleftrightarrow>
     (\<forall>peer state. hm_get (le_states ev) peer = Some state \<and> ms_active state \<longrightarrow>
        \<not> mp_revoked (payload_of records (ms_record_index state))) \<and>
     (\<forall>i \<in> le_accepted ev. mp_revoked (payload_of records i) \<longrightarrow>
        is_some_and (outranked records (payload_of records i))
          (hm_get (le_states ev) (mp_member_peer (payload_of records i))))"

lemma le_accepted_admit_event [simp]: "le_accepted (admit_event records ev i) = insert i (le_accepted ev)"
  by (simp add: admit_event_def accept_event_def Let_def case_prod_unfold)

lemma le_accepted_revoke_event [simp]: "le_accepted (revoke_event records ev i) = insert i (le_accepted ev)"
  by (simp add: revoke_event_def accept_event_def)

text \<open>A winning event has a version at least that of the state it replaces, and a greater one if it revives.\<close>

lemma winning_version:
  assumes "membership_event_wins r s active"
  shows "record_version (sr_payload s) \<le> record_version (sr_payload r)"
    and "\<not> active \<Longrightarrow> \<not> mp_revoked (sr_payload r) \<Longrightarrow> record_version (sr_payload s) < record_version (sr_payload r)"
  using assms by (auto simp: membership_event_wins_def record_version_def Let_def less_prod_def split: if_splits)

lemma losing_revocation_version:
  assumes "\<not> membership_event_wins r s active" and "mp_revoked (sr_payload r)"
    and "active \<Longrightarrow> \<not> mp_revoked (sr_payload s)"
  shows "record_version (sr_payload r) \<le> record_version (sr_payload s)"
    and "active \<Longrightarrow> record_version (sr_payload r) < record_version (sr_payload s)"
  using assms by (auto simp: membership_event_wins_def Let_def not_less split: if_splits)

lemma apply_event_keeps_outranked:
  assumes "is_some_and (outranked records p) (hm_get states peer)"
  shows "is_some_and (outranked records p) (hm_get (snd (apply_membership_event records states i)) peer)"
proof -
  from assms obtain state where state: "hm_get states peer = Some state" "outranked records p state"
    by (auto simp: is_some_and_def split: option.splits)
  show ?thesis
  proof (cases "peer = mp_member_peer (payload_of records i) \<and> fst (apply_membership_event records states i)")
    case True
    with state have "membership_event_wins (records ! i) (records ! ms_record_index state) (ms_active state)"
      by (auto simp: apply_membership_event_def is_none_or_def Let_def)
    from winning_version [OF this] state(2) True show ?thesis
      by (auto simp: hm_get_apply_event outranked_def grants_membership_def is_some_and_def Let_def
          split: if_splits)
  next
    case False
    with state show ?thesis by (auto simp: hm_get_apply_event is_some_and_def)
  qed
qed

lemma revoked_is_outranked:
  assumes "mp_revoked (payload_of records i)"
    and "\<forall>peer state. hm_get states peer = Some state \<and> ms_active state \<longrightarrow>
      \<not> mp_revoked (payload_of records (ms_record_index state))"
  shows "is_some_and (outranked records (payload_of records i))
    (hm_get (snd (apply_membership_event records states i)) (mp_member_peer (payload_of records i)))"
proof (cases "fst (apply_membership_event records states i)")
  case True
  with assms(1) show ?thesis
    by (simp add: hm_get_apply_event outranked_def grants_membership_def is_some_and_def)
next
  case False
  then obtain state where state: "hm_get states (mp_member_peer (payload_of records i)) = Some state"
      "\<not> membership_event_wins (records ! i) (records ! ms_record_index state) (ms_active state)"
    by (auto simp: apply_membership_event_def is_none_or_def Let_def split: option.splits)
  with losing_revocation_version [OF state(2) assms(1)] assms(2) False show ?thesis
    by (auto simp: hm_get_apply_event outranked_def is_some_and_def)
qed

interpretation revocations: ledger_invariant records roots "\<lambda>_. revocation_inv records" for records roots
proof
  show "revocation_inv records evaluation_default"
    by (simp add: revocation_inv_def evaluation_default_def)
next
  fix t ev i
  assume "revocation_inv records ev" and "\<not> mp_revoked (payload_of records i)"
  then show "revocation_inv records (admit_event records ev i)"
    by (auto simp: revocation_inv_def le_states_admit_event apply_event_keeps_outranked)
      (auto simp: hm_get_apply_event grants_membership_def split: if_splits)
next
  fix t ev i
  assume inv: "revocation_inv records ev" and "mp_revoked (payload_of records i)"
  then show "revocation_inv records (revoke_event records ev i)"
    by (auto simp: revocation_inv_def le_states_revoke_event apply_event_keeps_outranked revoked_is_outranked)
      (auto simp: hm_get_apply_event grants_membership_def split: if_splits)
next
  fix t t' :: u64 and ev
  assume inv: "revocation_inv records ev"
  have "is_some_and (outranked records p) (hm_get (expire_members_at records t' (le_states ev)) peer)"
    if "is_some_and (outranked records p) (hm_get (le_states ev) peer)" for p peer
    using that
    by (auto simp: hm_get_expire_members is_some_and_def outranked_def Let_def split: option.splits if_splits)
  with inv show "revocation_inv records (ev\<lparr>le_states := expire_members_at records t' (le_states ev)\<rparr>)"
    by (auto simp: revocation_inv_def hm_get_expire_members split: if_splits)
qed

end
