(* ===== verification/Membership_Safety.thy ===== *)
theory Membership_Safety
  imports Ledger_Invariant
begin

text \<open>
  What the membership derived from a ledger guarantees: members trace back to trust anchors through
  verified records, revocations are not undone by older grants, merging only ever adds records that
  are verified and authorised, and the view does not change between the times named in the records.
\<close>

subsection \<open>Checked histories\<close>

lemma validate_each_Ok_iff: "validate_each check records = Ok u \<longleftrightarrow> (\<forall>r \<in> set records. check r = Ok ())"
  by (induction records) (auto simp: and_then_Inr_iff)

lemma check_record_Ok_iff:
  "check_record lib network r = Ok u \<longleftrightarrow>
     mp_network_name (sr_payload r) = network \<and> record_verify lib r = Ok ()"
  by (auto simp: check_record_def ensure_record_network_def and_then_Inr_iff)

definition checked_history ::
    "('kp, 'key, 'l) membership_library \<Rightarrow> bytes \<Rightarrow> signed_record list \<Rightarrow> bool" where
  "checked_history lib network records \<longleftrightarrow>
     (\<forall>r \<in> set records. mp_network_name (sr_payload r) = network \<and> record_verify lib r = Ok ())"

lemma validate_record_history_checked:
  "validate_record_history lib records network = Ok u \<Longrightarrow> checked_history lib network records"
  by (auto simp: validate_record_history_def and_then_Inr_iff validate_each_Ok_iff check_record_Ok_iff
      checked_history_def split: if_splits)

lemma checked_history_before_expiry:
  "checked_history lib network records \<Longrightarrow> list_all issued_before_expiry records"
  by (auto simp: checked_history_def list_all_iff issued_before_expiry_def
      dest: verified_record_not_expired_when_issued)

text \<open>
  For the witnesses: a library whose encodings are the identity and whose signature is the key followed
  by the message, and a network where peer 1 is the root, admits peer 2, and later revokes it.
\<close>

definition sample_membership_library :: "(bytes, bytes, bytes) membership_library" where
  "sample_membership_library =
     \<lparr>ml_identity =
        \<lparr>base64_encode = id, base64_decode = Some, keypair_to_protobuf = Some, keypair_from_protobuf = Some,
         keypair_sign = (\<lambda>kp m. Some (kp @ m)), keypair_public = id, key_encode_protobuf = id,
         key_try_decode_protobuf = Some, key_verify = (\<lambda>key m s. s = key @ m), key_to_peer_id = id,
         libp2p_to_string = id, libp2p_from_str = Some, libp2p_to_bytes = id, digest_sha256 = id\<rparr>,
      payload_to_json = (\<lambda>p. Some (mp_member_peer p)), record_to_json = (\<lambda>r. Some [])\<rparr>"

definition sample_record :: "bytes \<Rightarrow> bytes \<Rightarrow> u64 \<Rightarrow> u64 \<Rightarrow> bool \<Rightarrow> u64 \<Rightarrow> signed_record" where
  "sample_record issuer member epoch number revoked issued_at =
     \<lparr>sr_payload =
        \<lparr>mp_version = 1, mp_network_name = [7], mp_member_peer = member, mp_member_public_key = member,
         mp_issuer_peer = issuer, mp_issuer_public_key = issuer, mp_membership_epoch = epoch,
         mp_sequence = number, mp_revoked = revoked, mp_hostname = None,
         mp_roles = (if revoked then [] else [OverlayMember]), mp_route_grants = [],
         mp_issued_at = issued_at, mp_expires_at = None\<rparr>,
      sr_signature = issuer @ MEMBERSHIP_SIGNING_DOMAIN @ member\<rparr>"

definition sample_root :: signed_record where "sample_root = sample_record [1] [1] 1 0 False 1"
definition sample_grant :: signed_record where "sample_grant = sample_record [1] [2] 1 1 False 2"
definition sample_revocation :: signed_record where "sample_revocation = sample_record [1] [2] 1 2 True 3"
definition sample_regrant :: signed_record where "sample_regrant = sample_record [1] [2] 2 0 False 4"

subsection \<open>Members descend from trust anchors\<close>

text \<open>What is known of a member listed by \<open>effective_loop\<close>.\<close>

definition member_from_state ::
    "('kp, 'key, 'l) membership_library \<Rightarrow> signed_record list \<Rightarrow> (bytes \<times> member_state) list \<Rightarrow> peer_id \<Rightarrow>
     'l effective_member \<Rightarrow> bool" where
  "member_from_state lib records states peer member \<longleftrightarrow>
     (\<exists>name state. (name, state) \<in> set states \<and> ms_active state \<and>
        (let p = payload_of records (ms_record_index state) in
         libp2p_from_str (ml_identity lib) (mp_member_peer p) = Some (em_transport_peer member) \<and>
         em_peer member = peer \<and> peer = overlay_peer lib (em_transport_peer member) \<and>
         em_roles member = mp_roles p \<and> em_route_grants member = mp_route_grants p \<and>
         em_membership_epoch member = mp_membership_epoch p \<and> em_sequence member = mp_sequence p))"

lemma effective_member_fields:
  assumes "effective_member_from_payload lib p current original = Ok member"
  shows "libp2p_from_str (ml_identity lib) (mp_member_peer p) = Some (em_transport_peer member)"
    and "em_peer member = overlay_peer lib (em_transport_peer member)"
    and "em_roles member = mp_roles p" and "em_route_grants member = mp_route_grants p"
    and "em_membership_epoch member = mp_membership_epoch p" and "em_sequence member = mp_sequence p"
  using assms by (auto simp: effective_member_from_payload_def parse_peer_def and_then_Inr_iff Let_def)

lemma effective_loop_members:
  assumes "effective_loop lib records ev m states = Ok m'" and "hm_get (eff_members m') peer = Some member"
  shows "hm_get (eff_members m) peer = Some member \<or> member_from_state lib records states peer member"
  using assms
proof (induction states arbitrary: m)
  case (Cons entry rest)
  obtain name state where entry: "entry = (name, state)" by force
  let ?p = "payload_of records (ms_record_index state)"
  have weaken: "member_from_state lib records rest peer member \<Longrightarrow>
      member_from_state lib records (entry # rest) peer member"
    by (auto simp: member_from_state_def)
  show ?case
  proof (cases "ms_active state")
    case False
    with Cons entry weaken show ?thesis by (fastforce simp: and_then_Inr_iff Let_def)
  next
    case True
    with Cons.prems(1) entry obtain transport candidate current original where
      candidate: "effective_member_from_payload lib ?p current original = Ok candidate"
      and rest: "effective_loop lib records ev
        (m\<lparr>eff_governed_peers := insert (overlay_peer lib transport) (eff_governed_peers m),
           eff_members := hm_insert (eff_members m) (em_peer candidate) candidate\<rparr>) rest = Ok m'"
      by (auto simp: and_then_Inr_iff Let_def)
    have "member_from_state lib records (entry # rest) (em_peer candidate) candidate"
      using True entry effective_member_fields [OF candidate]
      by (auto simp: member_from_state_def Let_def)
    with Cons.IH [OF rest Cons.prems(2)] weaken show ?thesis by (auto split: if_splits)
  qed
qed simp

lemma effective_member_admitted:
  fixes lib :: "('kp, 'key, 'l) membership_library"
  assumes "effective_membership_at lib records network now = Ok m"
    and "hm_get (eff_members m) peer = Some member"
  shows "\<exists>anchors r. membership_trust_anchors lib records network = Ok anchors \<and>
    admitted records anchors r \<and> peer = overlay_peer lib (em_transport_peer member) \<and>
    libp2p_from_str (ml_identity lib) (mp_member_peer (sr_payload r)) = Some (em_transport_peer member) \<and>
    em_roles member = mp_roles (sr_payload r) \<and> em_route_grants member = mp_route_grants (sr_payload r) \<and>
    mp_issued_at (sr_payload r) \<le> now \<and> \<not> record_is_expired_at r now \<and>
    (\<forall>s \<in> set records. mp_network_name (sr_payload s) = network \<and> record_verify lib s = Ok ())"
proof -
  from assms(1) obtain anchors ev where
    history: "validate_record_history lib records network = Ok ()"
    and anchors: "membership_trust_anchors lib records network = Ok anchors"
    and ev: "evaluate_ledger_at records anchors now = Ok ev"
    and m: "effective_from_evaluation lib records ev = Ok m"
    by (auto simp: effective_membership_at_def and_then_Inr_iff)
  have checked: "checked_history lib network records" by (rule validate_record_history_checked [OF history])
  from effective_loop_members [OF m [unfolded effective_from_evaluation_def] assms(2)]
  have "member_from_state lib records (le_states ev) peer member" by simp
  then obtain name state where entry: "(name, state) \<in> set (le_states ev)" "ms_active state"
    and member: "libp2p_from_str (ml_identity lib) (mp_member_peer (payload_of records (ms_record_index state))) =
        Some (em_transport_peer member)"
      "peer = overlay_peer lib (em_transport_peer member)"
      "em_roles member = mp_roles (payload_of records (ms_record_index state))"
      "em_route_grants member = mp_route_grants (payload_of records (ms_record_index state))"
    by (auto simp: member_from_state_def Let_def)
  have "hm_get (le_states ev) name = Some state"
    using indices.evaluation_keeps [OF ev] entry(1) by (simp add: index_inv_def hm_get_Some_iff)
  with trust.evaluation_keeps [OF ev] checked_history_before_expiry [OF checked]
  have "state_trusted records anchors now name state" by (simp add: trust_inv_def)
  with entry(2) anchors member checked show ?thesis
    by (auto simp: state_trusted_def checked_history_def)
qed



subsection \<open>Revocations\<close>

text \<open>
  C31: a revocation is not undone by an older grant. If an accepted record of the ledger revokes a peer
  that is nevertheless active, the record that makes it active has a greater epoch, or the same epoch
  and a greater sequence number.
\<close>

theorem revocation_outranks_older_grants:
  assumes "evaluate_ledger_at records anchors now = Ok ev"
    and "i \<in> le_accepted ev" and "mp_revoked (payload_of records i)"
    and "hm_get (le_states ev) (mp_member_peer (payload_of records i)) = Some state" and "ms_active state"
  shows "record_version (payload_of records i) < record_version (payload_of records (ms_record_index state))"
  using revocations.evaluation_keeps [OF assms(1)] assms(2-)
  by (auto simp: revocation_inv_def outranked_def is_some_and_def Let_def)

theorem revocation_outranks_older_grants_witness:
  "\<exists>ev state. evaluate_ledger_at [sample_root, sample_grant, sample_revocation, sample_regrant] {[1]} 10 = Ok ev \<and>
     hm_get (le_states ev) [2] = Some state \<and> ms_active state \<and>
     record_version (sr_payload sample_revocation) < record_version (sr_payload sample_regrant)"
proof -
  let ?records = "[sample_root, sample_grant, sample_revocation, sample_regrant]"
  have "case evaluate_ledger_at ?records {[1]} 10 of
      Inr ev \<Rightarrow> 2 \<in> le_accepted ev \<and>
        is_some_and (\<lambda>s. ms_active s \<and> ms_record_index s = 3) (hm_get (le_states ev) [2])
    | Inl _ \<Rightarrow> False"
    by code_simp
  then obtain ev s where ev: "evaluate_ledger_at ?records {[1]} 10 = Ok ev" "2 \<in> le_accepted ev"
    "hm_get (le_states ev) [2] = Some s" "ms_active s" "ms_record_index s = 3"
    by (auto simp: is_some_and_def split: sum.splits option.splits)
  moreover from revocation_outranks_older_grants [OF ev(1,2), of s] ev(3-)
  have "record_version (sr_payload sample_revocation) < record_version (sr_payload sample_regrant)"
    by (simp add: sample_revocation_def sample_record_def)
  ultimately show ?thesis by blast
qed

subsection \<open>Merging\<close>

text \<open>The records that \<open>merge_loop\<close> appends.\<close>

definition appended :: "u64 \<Rightarrow> signed_record list \<Rightarrow> signed_record list \<Rightarrow> signed_record list \<Rightarrow> bool" where
  "appended now merged incoming new \<longleftrightarrow>
     distinct new \<and> set new \<inter> set merged = {} \<and> set new \<subseteq> set incoming \<and>
     set incoming \<subseteq> set (merged @ new) \<and>
     (\<forall>r \<in> set new. mp_issued_at (sr_payload r) \<le> saturating_add_word now MAX_MEMBERSHIP_CLOCK_SKEW_SECONDS \<and>
        (\<forall>s \<in> set (merged @ new). same_version s r \<longrightarrow> s = r))"

lemma merge_loop_appends:
  assumes "merge_loop now n merged added stats incoming = Ok (merged', added', stats')"
  shows "\<exists>new. merged' = merged @ new \<and> appended now merged incoming new \<and>
    added' = added @ [length merged..<length merged'] \<and>
    stats' = stats\<lparr>st_accepted := st_accepted stats + length new,
                   st_ignored_stale_or_equal :=
                     st_ignored_stale_or_equal stats + (length incoming - length new)\<rparr> \<and>
    length new \<le> length incoming"
  using assms
proof (induction incoming arbitrary: merged added stats)
  case Nil
  then show ?case by (auto simp: appended_def)
next
  case (Cons r rest)
  let ?ignored = "stats\<lparr>st_ignored_stale_or_equal := st_ignored_stale_or_equal stats + 1\<rparr>"
  show ?case
  proof (cases "r \<in> set merged")
    case True
    with Cons.prems have "merge_loop now n merged added ?ignored rest = Ok (merged', added', stats')"
      by (simp add: Let_def)
    from Cons.IH [OF this] True show ?thesis by (fastforce simp: appended_def Suc_diff_le)
  next
    case False
    then have fresh: "List.find (\<lambda>s. same_version s r) merged = None"
      using Cons.prems by (auto simp: Let_def find_Some_iff in_set_conv_nth split: option.splits if_splits)
    with False Cons.prems have issue: "validate_payload_issue_time (sr_payload r) now = Ok ()"
      and rest: "merge_loop now n (merged @ [r]) (added @ [length merged])
        (stats\<lparr>st_accepted := st_accepted stats + 1\<rparr>) rest = Ok (merged', added', stats')"
      by (auto simp: Let_def and_then_Inr_iff split: if_splits)
    from Cons.IH [OF rest] obtain new where new: "merged' = merged @ r # new"
        "appended now (merged @ [r]) rest new"
        "added' = added @ [length merged] @ [Suc (length merged)..<length merged']"
        "stats' = stats\<lparr>st_accepted := st_accepted stats + length (r # new),
           st_ignored_stale_or_equal := st_ignored_stale_or_equal stats + (length rest - length new)\<rparr>"
        "length new \<le> length rest"
      by auto
    have "appended now merged (r # rest) (r # new)"
      using new(2) False fresh issue
      by (auto simp: appended_def find_None_iff validate_payload_issue_time_def same_version_def split: if_splits)
    moreover have "added' = added @ [length merged..<length merged']"
      unfolding new(3) by (subst upt_conv_Cons [of "length merged"]) (simp_all add: new(1) del: upt_Suc)
    ultimately show ?thesis
      using new by (intro exI [of _ "r # new"]) (simp del: upt_Suc)
  qed
qed

lemma merge_loop_known:
  assumes "set incoming \<subseteq> set merged"
  shows "merge_loop now n merged added stats incoming =
    Ok (merged, added,
        stats\<lparr>st_ignored_stale_or_equal := st_ignored_stale_or_equal stats + length incoming\<rparr>)"
  using assms by (induction incoming arbitrary: stats) (auto simp: Let_def)

lemma check_added_Ok_iff: "check_added merged ev added = Ok u \<longleftrightarrow> set added \<subseteq> le_accepted ev"
  by (induction added) auto

lemma merge_records_Ok_iff:
  "merge_records_at lib records incoming network now roots n = Ok (merged, stats) \<longleftrightarrow>
     checked_history lib network records \<and> validate_record_versions records = Ok () \<and>
     checked_history lib network incoming \<and>
     (\<exists>added ev. merge_loop now n records [] merge_stats_default incoming = Ok (merged, added, stats) \<and>
        length merged \<le> n \<and>
        evaluate_ledger_at merged roots (saturating_add_word now MAX_MEMBERSHIP_CLOCK_SKEW_SECONDS) = Ok ev \<and>
        set added \<subseteq> le_accepted ev)"
  by (auto simp: merge_records_at_def and_then_Inr_iff validate_each_Ok_iff check_record_Ok_iff
      checked_history_def check_added_Ok_iff Let_def not_less split: if_splits)

text \<open>
  C32: merging only adds. The old records stay, in place; those appended are received ones that were
  missing, were checked like the old ones, are not from further than the clock skew in the future,
  agree with every record of the same version, and are accepted by the ledger they now belong to.
  Afterwards all received records are present, the limit holds, the counts are exact, and merging the
  same records again changes nothing.
\<close>

theorem merge_only_adds_authorised_records:
  fixes lib :: "('kp, 'key, 'l) membership_library"
  assumes "merge_records_at lib records incoming network now roots n = Ok (merged, stats)"
  shows "\<exists>new ev. merged = records @ new \<and> appended now records incoming new \<and>
    checked_history lib network merged \<and> length merged \<le> n \<and>
    evaluate_ledger_at merged roots (saturating_add_word now MAX_MEMBERSHIP_CLOCK_SKEW_SECONDS) = Ok ev \<and>
    (\<forall>i. length records \<le> i \<and> i < length merged \<longrightarrow> i \<in> le_accepted ev) \<and>
    st_accepted stats = length new \<and>
    st_ignored_stale_or_equal stats = length incoming - length new \<and>
    merge_records_at lib merged incoming network now roots n =
      Ok (merged, merge_stats_default\<lparr>st_ignored_stale_or_equal := length incoming\<rparr>)"
proof -
  from assms obtain added ev where checked: "checked_history lib network records"
      "checked_history lib network incoming"
    and loop: "merge_loop now n records [] merge_stats_default incoming = Ok (merged, added, stats)"
    and bound: "length merged \<le> n"
    and ev: "evaluate_ledger_at merged roots (saturating_add_word now MAX_MEMBERSHIP_CLOCK_SKEW_SECONDS) = Ok ev"
      "set added \<subseteq> le_accepted ev"
    unfolding merge_records_Ok_iff by blast
  from merge_loop_appends [OF loop] obtain new where merged: "merged = records @ new"
    and new: "appended now records incoming new" and added: "added = [length records..<length merged]"
    and stats: "st_accepted stats = length new" "st_ignored_stale_or_equal stats = length incoming - length new"
    by (auto simp: merge_stats_default_def)
  have all: "checked_history lib network merged" using checked new merged
    by (auto simp: checked_history_def appended_def)
  have "set incoming \<subseteq> set merged" using new merged by (simp add: appended_def)
  from merge_loop_known [OF this, of now n "[]" merge_stats_default] ev(1) all checked(2) bound
  have "merge_records_at lib merged incoming network now roots n =
      Ok (merged, merge_stats_default\<lparr>st_ignored_stale_or_equal := length incoming\<rparr>)"
    unfolding merge_records_Ok_iff
    by (auto simp: evaluate_ledger_at_def and_then_Inr_iff merge_stats_default_def)
  with merged new all bound ev added stats show ?thesis by fastforce
qed

theorem merge_only_adds_authorised_records_witness:
  "\<exists>merged stats. merge_records_at sample_membership_library [sample_root] [sample_grant, sample_root] [7] 10 {[1]} 5 =
       Ok (merged, stats) \<and> st_accepted stats = 1 \<and> length merged \<le> 5"
proof -
  let ?merge = "merge_records_at sample_membership_library [sample_root] [sample_grant, sample_root] [7] 10 {[1]} 5"
  have "case ?merge of Inr (merged, stats) \<Rightarrow> st_accepted stats = 1 | Inl _ \<Rightarrow> False" by code_simp
  then obtain merged stats where "?merge = Ok (merged, stats)" "st_accepted stats = 1"
    by (auto split: sum.splits)
  with merge_only_adds_authorised_records [OF this(1)] show ?thesis by blast
qed

subsection \<open>Time\<close>

text \<open>Between two times with no issue or expiry in between, the evaluation is the same.\<close>

definition transition_times :: "signed_record \<Rightarrow> u64 set" where
  "transition_times r = insert (mp_issued_at (sr_payload r)) (set_option (mp_expires_at (sr_payload r)))"

lemma evaluation_between_transitions:
  assumes "t \<le> t'" and quiet: "\<And>r x. r \<in> set records \<Longrightarrow> x \<in> transition_times r \<Longrightarrow> x \<le> t' \<Longrightarrow> x \<le> t"
  shows "evaluate_ledger_at records roots t' = evaluate_ledger_at records roots t"
proof -
  have issued: "mp_issued_at (payload_of records i) \<le> t' \<longleftrightarrow> mp_issued_at (payload_of records i) \<le> t"
    if "i < length records" for i
    using assms(1) quiet [of "records ! i"] that by (auto simp: transition_times_def)
  then have events: "ordered_events records t' = ordered_events records t"
    unfolding ordered_events_def by (metis (no_types, lifting) atLeastLessThan_iff filter_cong set_upt)
  have expired: "record_is_expired_at (records ! i) t' = record_is_expired_at (records ! i) t"
    if "i < length records" for i
    using assms(1) quiet [of "records ! i"] that
    by (auto simp: transition_times_def record_is_expired_at_def is_some_and_def split: option.split)
  let ?ev = "evaluate_events records roots evaluation_default (ordered_events records t)"
  have "index_inv records ?ev" using indices.ordered_events_keep by blast
  then have "expire_members_at records t' (le_states ?ev) = expire_members_at records t (le_states ?ev)"
    by (auto simp: expire_members_at_def index_inv_def expired hm_get_Some_iff)
  then show ?thesis by (simp add: evaluate_ledger_at_def events Let_def)
qed

end
