(* ===== verification/Ledger_Order.thy ===== *)
theory Ledger_Order
  imports Membership_Safety
begin

text \<open>
  Nodes hold the same records in different orders. Evaluations of two lists with the same records
  proceed in step: the sorted events are the same records, and every operation maps states that point
  to the same records to such states.
\<close>

subsection \<open>Latest versions\<close>

definition record_key :: "signed_record \<Rightarrow> bytes \<times> bytes" where
  "record_key r = (mp_issuer_peer (sr_payload r), mp_member_peer (sr_payload r))"

text \<open>No two records of an issuer about a member have the same version.\<close>

definition versions_unique :: "signed_record set \<Rightarrow> bool" where
  "versions_unique R \<longleftrightarrow> (\<forall>r \<in> R. \<forall>s \<in> R. same_version r s \<longrightarrow> r = s)"

lemma same_version_iff:
  "same_version r s \<longleftrightarrow> record_key r = record_key s \<and> record_version (sr_payload r) = record_version (sr_payload s)"
  by (auto simp: same_version_def record_key_def record_version_def)

definition newest_at :: "signed_record list \<Rightarrow> signed_record set \<Rightarrow> bytes \<times> bytes \<Rightarrow> usize \<Rightarrow> bool" where
  "newest_at records seen key j \<longleftrightarrow>
     j < length records \<and> records ! j \<in> seen \<and> record_key (records ! j) = key \<and>
     (\<forall>r \<in> seen. record_key r = key \<longrightarrow>
        record_version (sr_payload r) \<le> record_version (sr_payload (records ! j)))"

definition latest_inv ::
    "signed_record list \<Rightarrow> signed_record set \<Rightarrow> (bytes \<times> bytes, usize) hash_map \<Rightarrow> bool" where
  "latest_inv records seen latest \<longleftrightarrow>
     hm_wf latest \<and> (\<forall>(key, j) \<in> set latest. newest_at records seen key j) \<and>
     (\<forall>r \<in> seen. hm_contains latest (record_key r))"

lemma latest_invD:
  assumes "latest_inv records seen latest" and "hm_get latest key = Some j"
  shows "newest_at records seen key j"
  using assms hm_get_SomeD by (fastforce simp: latest_inv_def)

lemma set_hm_insert:
  assumes "hm_wf m" and "(j, w) \<in> set (hm_insert m k v)"
  shows "(j, w) = (k, v) \<or> (j, w) \<in> set m \<and> j \<noteq> k"
proof -
  have "hm_get (hm_insert m k v) j = Some w" using assms by (subst hm_get_Some_iff) simp_all
  then show ?thesis using hm_get_SomeD [of m j w] by (auto split: if_splits)
qed

lemma latest_inv_insert:
  assumes inv: "latest_inv records seen latest" and i: "i < length records"
    and newest: "\<And>j. hm_get latest (record_key (records ! i)) = Some j \<Longrightarrow>
      record_version (sr_payload (records ! j)) \<le> record_version (sr_payload (records ! i))"
  shows "latest_inv records (insert (records ! i) seen) (hm_insert latest (record_key (records ! i)) i)"
proof -
  have "record_version (sr_payload r) \<le> record_version (sr_payload (records ! i))"
    if "r \<in> seen" and "record_key r = record_key (records ! i)" for r
  proof -
    from inv that obtain j where j: "hm_get latest (record_key (records ! i)) = Some j"
      by (force simp: latest_inv_def hm_contains_def)
    with latest_invD [OF inv j] that newest [OF j] show ?thesis
      by (auto simp: newest_at_def intro: order_trans)
  qed
  with i have "newest_at records (insert (records ! i) seen) (record_key (records ! i)) i"
    by (auto simp: newest_at_def)
  moreover have "newest_at records (insert (records ! i) seen) key j"
    if "(key, j) \<in> set latest" "key \<noteq> record_key (records ! i)" for key j
    using inv that by (auto simp: latest_inv_def newest_at_def)
  ultimately show ?thesis
    using inv by (auto simp: latest_inv_def hm_contains_insert dest!: set_hm_insert)
qed

lemma latest_inv_skip:
  assumes inv: "latest_inv records seen latest"
    and j: "hm_get latest (record_key (records ! i)) = Some j"
      "record_version (sr_payload (records ! i)) \<le> record_version (sr_payload (records ! j))"
  shows "latest_inv records (insert (records ! i) seen) latest"
proof -
  have "newest_at records (insert (records ! i) seen) key k" if k: "(key, k) \<in> set latest" for key k
  proof -
    have get: "hm_get latest key = Some k" using inv k by (simp add: latest_inv_def hm_get_Some_iff)
    with latest_invD [OF inv get] j show ?thesis by (auto simp: newest_at_def)
  qed
  with inv j(1) show ?thesis by (auto simp: latest_inv_def hm_contains_def)
qed

lemma latest_indices_loop_inv:
  assumes "versions_unique (set records)" and "latest_inv records seen latest"
    and "seen \<subseteq> set records" and "set events \<subseteq> {..<length records}"
  shows "\<exists>latest'. latest_indices_loop records latest events = Ok latest' \<and>
    latest_inv records (seen \<union> (\<lambda>i. records ! i) ` set events) latest'"
  using assms(2-)
proof (induction events arbitrary: seen latest)
  case (Cons i rest)
  let ?r = "records ! i" let ?key = "record_key ?r"
  have i: "i < length records" and rest: "set rest \<subseteq> {..<length records}"
    and seen: "insert ?r seen \<subseteq> set records" using Cons.prems by auto
  have key: "(mp_issuer_peer (sr_payload ?r), mp_member_peer (sr_payload ?r)) = ?key" by (simp add: record_key_def)
  have set: "seen \<union> (\<lambda>i. records ! i) ` set (i # rest) = insert ?r seen \<union> (\<lambda>i. records ! i) ` set rest" by auto
  show ?case
  proof (cases "hm_get latest ?key")
    case None
    with Cons.IH [OF latest_inv_insert [OF Cons.prems(1) i] seen rest] show ?thesis
      unfolding set by (simp add: key Let_def)
  next
    case (Some j)
    let ?s = "records ! j"
    note j = latest_invD [OF Cons.prems(1) Some, unfolded newest_at_def]
    show ?thesis
    proof (cases "record_version (sr_payload ?s) < record_version (sr_payload ?r)")
      case True
      with Cons.IH [OF latest_inv_insert [OF Cons.prems(1) i] seen rest] Some show ?thesis
        unfolding set by (simp add: key Let_def)
    next
      case False
      then have "record_version (sr_payload ?r) \<le> record_version (sr_payload ?s)" by simp
      note later = Cons.IH [OF latest_inv_skip [OF Cons.prems(1) Some this] seen rest]
      have "?r = ?s" if "record_version (sr_payload ?r) = record_version (sr_payload ?s)"
        using assms(1) i j that by (auto simp: versions_unique_def same_version_iff)
      with False Some later show ?thesis unfolding set by (auto simp: key Let_def)
    qed
  qed
qed auto

text \<open>The records that are not superseded; the canonical ones of a history without conflicts.\<close>

definition newest_records :: "signed_record set \<Rightarrow> signed_record set" where
  "newest_records R =
     {r \<in> R. \<forall>s \<in> R. record_key s = record_key r \<longrightarrow> record_version (sr_payload s) \<le> record_version (sr_payload r)}"

lemma canonical_records_newest:
  assumes "versions_unique (set records)"
  shows "\<exists>latest. canonical_records records = Ok latest \<and> set latest = newest_records (set records)"
proof -
  have "latest_inv records {} []" by (simp add: latest_inv_def)
  moreover have "(\<lambda>i. records ! i) ` set [0..<length records] = set records"
    by (simp only: map_nth flip: set_map)
  ultimately obtain latest where
    loop: "latest_indices_loop records [] [0..<length records] = Ok latest"
    and inv: "latest_inv records (set records) latest"
    using latest_indices_loop_inv [OF assms, of "{}" "[]" "[0..<length records]"] by (auto simp: atLeast0LessThan)
  have wf: "hm_wf latest" using inv by (simp add: latest_inv_def)
  have "r \<in> newest_records (set records) \<longleftrightarrow> (\<exists>e \<in> set latest. r = records ! snd e)" for r
  proof
    assume r: "r \<in> newest_records (set records)"
    then obtain j where j: "hm_get latest (record_key r) = Some j"
      using inv by (auto simp: latest_inv_def newest_records_def hm_contains_def)
    note J = latest_invD [OF inv j, unfolded newest_at_def]
    have "record_version (sr_payload r) = record_version (sr_payload (records ! j))"
      using r J by (auto simp: newest_records_def intro: antisym)
    with r J assms have "r = records ! j"
      by (auto simp: versions_unique_def same_version_iff newest_records_def)
    with hm_get_SomeD [OF j] show "\<exists>e \<in> set latest. r = records ! snd e" by (intro bexI [of _ "(record_key r, j)"]) simp_all
  next
    assume "\<exists>e \<in> set latest. r = records ! snd e"
    then obtain key j where j: "(key, j) \<in> set latest" "r = records ! j" by force
    with inv have "newest_at records (set records) key j" by (auto simp: latest_inv_def)
    with j show "r \<in> newest_records (set records)" by (auto simp: newest_records_def newest_at_def)
  qed
  then have "(\<lambda>i. records ! i) ` snd ` set latest = newest_records (set records)" by force
  with loop show ?thesis by (auto simp: canonical_records_def latest_record_indices_def)
qed

lemma validate_record_versions_unique: "versions_unique (set records) \<Longrightarrow> validate_record_versions records = Ok ()"
  using canonical_records_newest [of records]
  by (auto simp: canonical_records_def validate_record_versions_def and_then_Inr_iff)

subsection \<open>Evaluations in step\<close>

text \<open>Indices into two histories that name the same record, and states that point to the same records.\<close>

definition same_record :: "signed_record list \<Rightarrow> signed_record list \<Rightarrow> usize \<Rightarrow> usize \<Rightarrow> bool" where
  "same_record xs ys i j \<longleftrightarrow> xs ! i = ys ! j"

definition same_state :: "signed_record list \<Rightarrow> signed_record list \<Rightarrow> member_state \<Rightarrow> member_state \<Rightarrow> bool" where
  "same_state xs ys s s' \<longleftrightarrow>
     same_record xs ys (ms_record_index s) (ms_record_index s') \<and> ms_active s = ms_active s'"

definition same_states ::
    "signed_record list \<Rightarrow> signed_record list \<Rightarrow> (bytes, member_state) hash_map \<Rightarrow>
     (bytes, member_state) hash_map \<Rightarrow> bool" where
  "same_states xs ys m m' \<longleftrightarrow> (\<forall>peer. rel_option (same_state xs ys) (hm_get m peer) (hm_get m' peer))"

definition same_indices ::
    "signed_record list \<Rightarrow> signed_record list \<Rightarrow> (bytes, usize) hash_map \<Rightarrow> (bytes, usize) hash_map \<Rightarrow> bool" where
  "same_indices xs ys m m' \<longleftrightarrow> (\<forall>peer. rel_option (same_record xs ys) (hm_get m peer) (hm_get m' peer))"

definition same_evaluation ::
    "signed_record list \<Rightarrow> signed_record list \<Rightarrow> ledger_evaluation \<Rightarrow> ledger_evaluation \<Rightarrow> bool" where
  "same_evaluation xs ys ev ev' \<longleftrightarrow>
     same_states xs ys (le_states ev) (le_states ev') \<and>
     same_indices xs ys (le_first_admissions ev) (le_first_admissions ev') \<and>
     same_indices xs ys (le_current_admissions ev) (le_current_admissions ev') \<and>
     (\<lambda>i. xs ! i) ` le_accepted ev = (\<lambda>j. ys ! j) ` le_accepted ev'"

lemma same_states_cases:
  assumes "same_states xs ys m m'"
  obtains "hm_get m peer = None" "hm_get m' peer = None"
  | s s' where "hm_get m peer = Some s" "hm_get m' peer = Some s'" "same_state xs ys s s'"
  using assms by (auto simp: same_states_def option_rel_Some1 dest!: spec [of _ peer] elim: option.rel_cases)

lemma same_indices_contains:
  "same_indices xs ys m m' \<Longrightarrow> hm_contains m peer \<longleftrightarrow> hm_contains m' peer"
  by (auto simp: same_indices_def hm_contains_def dest!: spec [of _ peer] elim: option.rel_cases)

lemma same_active:
  assumes "same_states xs ys m m'"
  shows "is_some_and ms_active (hm_get m peer) = is_some_and ms_active (hm_get m' peer)"
    and "issuer_is_active p m roots = issuer_is_active p m' roots"
    and "issuer_is_active_or_genesis p m roots = issuer_is_active_or_genesis p m' roots"
proof -
  have get: "is_some_and ms_active (hm_get m peer) = is_some_and ms_active (hm_get m' peer) \<and>
      is_none_or ms_active (hm_get m peer) = is_none_or ms_active (hm_get m' peer) \<and>
      (case hm_get m peer of None \<Rightarrow> b | Some s \<Rightarrow> ms_active s) =
      (case hm_get m' peer of None \<Rightarrow> b | Some s \<Rightarrow> ms_active s)" for peer b
    by (rule same_states_cases [OF assms, of peer]) (auto simp: is_some_and_def is_none_or_def same_state_def)
  show "is_some_and ms_active (hm_get m peer) = is_some_and ms_active (hm_get m' peer)" using get by blast
  show act: "issuer_is_active p m roots = issuer_is_active p m' roots"
    using get by (simp add: issuer_is_active_def)
  show "issuer_is_active_or_genesis p m roots = issuer_is_active_or_genesis p m' roots"
    using get by (simp add: issuer_is_active_or_genesis_def act)
qed

lemma same_apply_event:
  assumes m: "same_states xs ys m m'" and i: "same_record xs ys i j"
  shows "fst (apply_membership_event xs m i) = fst (apply_membership_event ys m' j)"
    and "same_states xs ys (snd (apply_membership_event xs m i)) (snd (apply_membership_event ys m' j))"
proof -
  have r: "xs ! i = ys ! j" using i by (simp add: same_record_def)
  show won: "fst (apply_membership_event xs m i) = fst (apply_membership_event ys m' j)"
    by (rule same_states_cases [OF m, of "mp_member_peer (payload_of xs i)"])
      (auto simp: apply_membership_event_def r is_none_or_def same_state_def same_record_def Let_def)
  show "same_states xs ys (snd (apply_membership_event xs m i)) (snd (apply_membership_event ys m' j))"
    using m i by (simp add: same_states_def hm_get_apply_event r won same_state_def)
qed

lemma same_admit_event:
  assumes ev: "same_evaluation xs ys ev ev'" and i: "same_record xs ys i j"
  shows "same_evaluation xs ys (admit_event xs ev i) (admit_event ys ev' j)"
proof -
  have r: "xs ! i = ys ! j" using i by (simp add: same_record_def)
  have states: "same_states xs ys (le_states ev) (le_states ev')"
    and first: "same_indices xs ys (le_first_admissions ev) (le_first_admissions ev')"
    using ev by (simp_all add: same_evaluation_def)
  show ?thesis
    using ev i same_apply_event [OF states i] same_active(1) [OF states]
      same_indices_contains [OF first, of "mp_member_peer (sr_payload (ys ! j))"]
    by (auto simp: same_evaluation_def admit_event_def accept_event_def r same_indices_def
        case_prod_unfold Let_def)
qed

lemma same_revoke_event:
  assumes ev: "same_evaluation xs ys ev ev'" and i: "same_record xs ys i j"
  shows "same_evaluation xs ys (revoke_event xs ev i) (revoke_event ys ev' j)"
  using ev i same_apply_event [OF _ i, of "le_states ev" "le_states ev'"]
  by (auto simp: same_evaluation_def revoke_event_def accept_event_def same_record_def)

lemma same_admit_pass:
  assumes "same_evaluation xs ys ev ev'" and "list_all2 (same_record xs ys) is js"
  shows "same_evaluation xs ys (fst (admit_pass xs roots ev is)) (fst (admit_pass ys roots ev' js)) \<and>
    list_all2 (same_record xs ys) (snd (admit_pass xs roots ev is)) (snd (admit_pass ys roots ev' js))"
  using assms(2,1)
proof (induction arbitrary: ev ev' rule: list_all2_induct)
  case (Cons i is' j js')
  have "issuer_is_active_or_genesis (payload_of xs i) (le_states ev) roots =
      issuer_is_active_or_genesis (payload_of ys j) (le_states ev') roots"
    using Cons.prems Cons.hyps(1) same_active(3) by (auto simp: same_evaluation_def same_record_def)
  with Cons.IH [OF Cons.prems] Cons.IH [OF same_admit_event [OF Cons.prems Cons.hyps(1)]] Cons.hyps(1)
  show ?case by (auto simp: case_prod_unfold Let_def)
qed simp

lemma same_admit_rounds:
  assumes "same_evaluation xs ys ev ev'" and "list_all2 (same_record xs ys) is js"
  shows "same_evaluation xs ys (admit_rounds xs roots ev is) (admit_rounds ys roots ev' js)"
  using assms
proof (induction "length is" arbitrary: ev ev' "is" js rule: less_induct)
  case less
  let ?a = "admit_pass xs roots ev is" and ?b = "admit_pass ys roots ev' js"
  have out: "same_evaluation xs ys (fst ?a) (fst ?b)" "list_all2 (same_record xs ys) (snd ?a) (snd ?b)"
    using same_admit_pass [OF less.prems] by auto
  have len: "length is = length js" "length (snd ?a) = length (snd ?b)"
    using less.prems(2) out(2) by (auto dest: list_all2_lengthD)
  have "same_evaluation xs ys (admit_rounds xs roots (fst ?a) (snd ?a)) (admit_rounds ys roots (fst ?b) (snd ?b))"
    if "length (snd ?a) < length is"
    by (rule less.hyps [OF that out])
  with less.prems out(1) len show ?case
    by (subst (1 2) admit_rounds.simps) (auto simp: case_prod_unfold Let_def)
qed

lemma same_filter:
  assumes "list_all2 (same_record xs ys) is js"
  shows "list_all2 (same_record xs ys) (filter (\<lambda>i. P (xs ! i)) is) (filter (\<lambda>j. P (ys ! j)) js)"
  using assms by (induction rule: list_all2_induct) (auto simp: same_record_def)

lemma same_takeWhile_dropWhile:
  assumes "list_all2 (same_record xs ys) is js"
  shows "list_all2 (same_record xs ys) (takeWhile (\<lambda>i. P (xs ! i)) is) (takeWhile (\<lambda>j. P (ys ! j)) js)"
    and "list_all2 (same_record xs ys) (dropWhile (\<lambda>i. P (xs ! i)) is) (dropWhile (\<lambda>j. P (ys ! j)) js)"
  using assms by (induction rule: list_all2_induct) (auto simp: same_record_def)

lemma same_evaluate_group:
  assumes "same_evaluation xs ys ev ev'" and "list_all2 (same_record xs ys) is js"
  shows "same_evaluation xs ys (evaluate_group xs roots ev is) (evaluate_group ys roots ev' js)"
proof -
  have fold: "same_evaluation xs ys (foldl (revoke_event xs) ev is) (foldl (revoke_event ys) ev' js)"
    if "list_all2 (same_record xs ys) is js" and "same_evaluation xs ys ev ev'" for ev ev' "is" js
    using that by (induction arbitrary: ev ev' rule: list_all2_induct) (auto simp: same_revoke_event)
  let ?a = "admit_rounds xs roots ev (filter (\<lambda>i. \<not> mp_revoked (payload_of xs i)) is)"
  let ?b = "admit_rounds ys roots ev' (filter (\<lambda>j. \<not> mp_revoked (payload_of ys j)) js)"
  have grants: "same_evaluation xs ys ?a ?b"
    by (rule same_admit_rounds [OF assms(1) same_filter [OF assms(2)]])
  then have "issuer_is_active p (le_states ?a) roots = issuer_is_active p (le_states ?b) roots" for p
    using same_active(2) by (auto simp: same_evaluation_def)
  moreover note revoked = same_filter [OF same_filter [OF assms(2), of "\<lambda>r. mp_revoked (sr_payload r)"],
      of "\<lambda>r. issuer_is_active (sr_payload r) (le_states ?a) roots"]
  ultimately show ?thesis
    unfolding evaluate_group_def Let_def using fold [OF revoked grants] by simp
qed

lemma same_expire:
  assumes "same_evaluation xs ys ev ev'"
  shows "same_evaluation xs ys (ev\<lparr>le_states := expire_members_at xs t (le_states ev)\<rparr>)
    (ev'\<lparr>le_states := expire_members_at ys t (le_states ev')\<rparr>)"
proof -
  have "same_states xs ys (le_states ev) (le_states ev')" using assms by (simp add: same_evaluation_def)
  then have "rel_option (same_state xs ys) (hm_get (expire_members_at xs t (le_states ev)) peer)
      (hm_get (expire_members_at ys t (le_states ev')) peer)" for peer
    by (rule same_states_cases [of xs ys "le_states ev" "le_states ev'" peer])
      (auto simp: hm_get_expire_members same_state_def same_record_def)
  with assms show ?thesis by (simp add: same_evaluation_def same_states_def)
qed

lemma same_evaluate_events:
  assumes "same_evaluation xs ys ev ev'" and "list_all2 (same_record xs ys) is js"
  shows "same_evaluation xs ys (evaluate_events xs roots ev is) (evaluate_events ys roots ev' js)"
  using assms
proof (induction "length is" arbitrary: ev ev' "is" js rule: less_induct)
  case less
  show ?case
  proof (cases "is")
    case Nil
    with less.prems show ?thesis by simp
  next
    case (Cons i is')
    with less.prems(2) obtain j js' where js: "js = j # js'" and r: "xs ! i = ys ! j"
      and rest: "list_all2 (same_record xs ys) is' js'"
      by (auto simp: list_all2_Cons1 same_record_def)
    let ?same = "\<lambda>r. mp_issued_at (sr_payload r) = mp_issued_at (payload_of ys j)"
    note split = same_takeWhile_dropWhile [OF rest, of ?same]
    have "list_all2 (same_record xs ys) (i # takeWhile (\<lambda>i. ?same (xs ! i)) is')
        (j # takeWhile (\<lambda>j. ?same (ys ! j)) js')"
      using split(1) r by (simp add: same_record_def)
    note now = same_evaluate_group [OF same_expire [OF less.prems(1)] this]
    have "length (dropWhile (\<lambda>i. ?same (xs ! i)) is') < length is"
      using Cons by (simp add: length_dropWhile_le less_Suc_eq_le)
    from less.hyps [OF this now split(2)] show ?thesis
      unfolding Cons js by (simp add: Let_def r)
  qed
qed

subsection \<open>The order of the records does not matter\<close>

lemma map_sort_key: "map f (sort_key (\<lambda>x. k (f x)) xs) = sort_key k (map f xs)"
proof (induction xs)
  case (Cons x xs)
  have "map f (insort_key (\<lambda>x. k (f x)) x ys) = insort_key k (f x) (map f ys)" for ys
    by (induction ys) auto
  with Cons show ?case by simp
qed simp

lemma ordered_event_records:
  "map (\<lambda>i. records ! i) (ordered_events records now) =
     sort_key event_order_key (filter (\<lambda>r. mp_issued_at (sr_payload r) \<le> now) records)"
proof -
  have "map (\<lambda>i. records ! i) (filter (\<lambda>i. mp_issued_at (payload_of records i) \<le> now) [0..<length records]) =
      filter (\<lambda>r. mp_issued_at (sr_payload r) \<le> now) (map (\<lambda>i. records ! i) [0..<length records])"
    by (simp add: filter_map comp_def)
  then show ?thesis by (simp add: ordered_events_def map_sort_key map_nth)
qed

lemma event_order_key_inj:
  assumes "versions_unique R"
  shows "inj_on event_order_key R"
  using assms
  by (auto simp: inj_on_def versions_unique_def same_version_def event_order_key_def record_version_def Let_def)

lemma ordered_events_same:
  assumes "mset xs = mset ys" and "versions_unique (set xs)"
  shows "list_all2 (same_record xs ys) (ordered_events xs now) (ordered_events ys now)"
proof -
  let ?old = "\<lambda>r. mp_issued_at (sr_payload r) \<le> now"
  have "sort_key event_order_key (filter ?old xs) = sort_key event_order_key (filter ?old ys)"
  proof (rule sort_key_inj_key_eq)
    show "mset (filter ?old xs) = mset (sort_key event_order_key (filter ?old ys))"
      using assms(1) by simp
    show "inj_on event_order_key (set (filter ?old xs))"
      using event_order_key_inj [OF assms(2)] by (rule inj_on_subset) auto
  qed simp
  then have "map (\<lambda>i. xs ! i) (ordered_events xs now) = map (\<lambda>j. ys ! j) (ordered_events ys now)"
    by (simp add: ordered_event_records)
  then show ?thesis
    by (auto simp: list_all2_conv_all_nth same_record_def dest: map_eq_imp_length_eq)
      (metis nth_map map_eq_imp_length_eq)
qed



text \<open>
  Without that condition the order decides: a conflict is noticed only against the newest version of
  its issuer and member, so two different records of an older version pass if a newer one stands
  between them and are refused if it comes last.
\<close>

lemma old_conflicts_depend_on_order:
  "\<exists>r s t. same_version r s \<and> r \<noteq> s \<and> validate_record_versions [r, t, s] = Ok () \<and>
     validate_record_versions [r, s, t] \<noteq> Ok ()"
proof -
  let ?s = "sample_grant\<lparr>sr_signature := []\<rparr>"
  let ?t = "sample_grant\<lparr>sr_payload := (sr_payload sample_grant)\<lparr>mp_sequence := 9\<rparr>\<rparr>"
  have "same_version sample_grant ?s \<and> sample_grant \<noteq> ?s \<and>
      validate_record_versions [sample_grant, ?t, ?s] = Ok () \<and>
      validate_record_versions [sample_grant, ?s, ?t] \<noteq> Ok ()"
    by code_simp
  then show ?thesis by blast
qed

end
