(* ===== verification/Ledger_Progress.thy ===== *)
theory Ledger_Progress
  imports Membership_Safety
begin

text \<open>The admission loop of the ledger: it ends, and it ends with nothing left to admit.\<close>

text \<open>The loop with a bound on its passes; without one it returns \<open>None\<close>.\<close>

primrec admit_loop ::
    "nat \<Rightarrow> signed_record list \<Rightarrow> bytes set \<Rightarrow> ledger_evaluation \<Rightarrow> usize list \<Rightarrow> ledger_evaluation option" where
  "admit_loop 0 records roots ev pending = None"
| "admit_loop (Suc fuel) records roots ev pending =
     (if pending = [] then Some ev
      else
        let (ev, kept) = admit_pass records roots ev pending
        in if length kept < length pending then admit_loop fuel records roots ev kept else Some ev)"

lemma admit_pass_accepts:
  "admit_pass records roots ev pending = (ev', kept) \<Longrightarrow>
     le_accepted ev \<subseteq> le_accepted ev' \<and> set pending \<subseteq> le_accepted ev' \<union> set kept"
  by (induction records roots ev pending arbitrary: ev' kept rule: admit_pass.induct)
    (fastforce simp: Let_def split: if_splits prod.splits)+

text \<open>A pass that admits nothing changes nothing, and no issuer is active.\<close>

lemma admit_pass_idle:
  "admit_pass records roots ev pending = (ev', kept) \<Longrightarrow> \<not> length kept < length pending \<Longrightarrow>
     ev' = ev \<and> kept = pending \<and>
     (\<forall>i \<in> set pending. \<not> issuer_is_active_or_genesis (payload_of records i) (le_states ev) roots)"
proof (induction records roots ev pending arbitrary: ev' kept rule: admit_pass.induct)
  case (2 records roots ev i rest)
  show ?case
  proof (cases "issuer_is_active_or_genesis (payload_of records i) (le_states ev) roots")
    case True
    with "2.prems" length_admit_pass [of records roots "admit_event records ev i" rest] show ?thesis by auto
  next
    case False
    with "2.prems" obtain kept' where kept': "admit_pass records roots ev rest = (ev', kept')" "kept = i # kept'"
      by (auto simp: Let_def split: prod.splits)
    from "2.IH"(1) [OF False kept'(1)] "2.prems"(2) kept'(2) False show ?thesis by auto
  qed
qed simp

lemma admit_rounds_exhausts:
  "le_accepted ev \<subseteq> le_accepted (admit_rounds records roots ev pending) \<and>
   (\<forall>i \<in> set pending. i \<in> le_accepted (admit_rounds records roots ev pending) \<or>
      \<not> issuer_is_active_or_genesis (payload_of records i) (le_states (admit_rounds records roots ev pending)) roots)"
proof (induction records roots ev pending rule: admit_rounds.induct)
  case (1 records roots ev pending)
  obtain ev' kept where pass: "admit_pass records roots ev pending = (ev', kept)" by force
  show ?case
  proof (cases "pending \<noteq> [] \<and> length kept < length pending")
    case True
    then have "admit_rounds records roots ev pending = admit_rounds records roots ev' kept"
      by (simp add: admit_rounds.simps [of records roots ev pending] pass)
    moreover from True have "pending \<noteq> []" "length kept < length pending" by simp_all
    note "1.IH" [OF this(1) pass [symmetric] refl this(2)]
    ultimately show ?thesis using admit_pass_accepts [OF pass] by fastforce
  next
    case False
    then show ?thesis using admit_pass_idle [OF pass]
      by (auto simp: admit_rounds.simps [of records roots ev pending] pass)
  qed
qed

lemma admit_loop_rounds:
  "length pending < fuel \<Longrightarrow> admit_loop fuel records roots ev pending = Some (admit_rounds records roots ev pending)"
proof (induction fuel arbitrary: ev pending)
  case (Suc fuel)
  obtain ev' kept where pass: "admit_pass records roots ev pending = (ev', kept)" by force
  have "length kept < fuel" if "length kept < length pending" using that Suc.prems by simp
  with Suc.IH show ?case by (simp add: admit_rounds.simps [of records roots ev pending] pass)
qed simp



end
