(* ===== verification/Checkpoint.thy ===== *)
theory Checkpoint
  imports Membership
begin

text \<open>
  Cooperative membership checkpoints (\<open>src/src/membership/checkpoint.rs\<close>): the network anchor and
  capability, the snapshot of the members with its rank, and the signed messages about it (mutations,
  hostname claims and offers), each with its validation.
  \<^item> Serialisation is an external crate. \<open>to_json\<close> of the library record gives the JSON bytes of every
    type the program serialises, gathered in the type \<open>json_value\<close>; \<open>None\<close> is a serialisation error.
  \<^item> HMAC-SHA-256 and HKDF are operations of external crates, as SHA-256 is.
  \<^item> Arrays of 32 bytes are byte lists, strings are their UTF-8 bytes.
  \<^item> The order of strings and of byte arrays is the lexicographic order of their bytes.
\<close>

subsection \<open>Binary search\<close>

text \<open>
  \<open>binary_search_by\<close> of the standard library: the index of an element with the key, or the place to
  insert one. On a list that is not sorted by the key the library promises nothing; the facts below are
  about sorted lists.
\<close>

function binary_search_between ::
    "('a \<Rightarrow> 'k::linorder) \<Rightarrow> 'k \<Rightarrow> 'a list \<Rightarrow> usize \<Rightarrow> usize \<Rightarrow> (usize, usize) result" where
  "binary_search_between key k xs low high =
     (if high \<le> low then Err low
      else let mid = (low + high) div 2 in
        if key (xs ! mid) = k then Ok mid
        else if key (xs ! mid) < k then binary_search_between key k xs (mid + 1) high
        else binary_search_between key k xs low mid)"
  by pat_completeness auto
termination
  by (relation "measure (\<lambda>(_, _, _, low, high). high - low)") auto

declare binary_search_between.simps [simp del]

definition binary_search :: "('a \<Rightarrow> 'k::linorder) \<Rightarrow> 'k \<Rightarrow> 'a list \<Rightarrow> (usize, usize) result" where
  "binary_search key k xs = binary_search_between key k xs 0 (length xs)"

subsection \<open>Text\<close>

text \<open>The bytes of an ASCII literal.\<close>

definition ascii :: "string \<Rightarrow> bytes" where
  "ascii = map (\<lambda>c. word_of_nat (of_char c))"

text \<open>A number in the given radix without leading zeros; one digit per round, at least one.\<close>

fun digits_text :: "nat \<Rightarrow> nat \<Rightarrow> nat \<Rightarrow> bytes" where
  "digits_text radix 0 n = []"
| "digits_text radix (Suc places) n =
     (if n < radix then [] else digits_text radix places (n div radix)) @
     [word_of_nat (n mod radix + (if n mod radix < 10 then 48 else 87))]"

fun join_text :: "u8 \<Rightarrow> bytes list \<Rightarrow> bytes" where
  "join_text sep [] = []"
| "join_text sep [t] = t"
| "join_text sep (t # ts) = t @ [sep] @ join_text sep ts"

definition ipv4_text :: "u32 \<Rightarrow> bytes" where
  "ipv4_text a = join_text 46 (map (\<lambda>b. digits_text 10 3 (unat b)) (to_be_bytes 4 a))"

text \<open>The first longest run of zero groups, as its start and length.\<close>

fun zero_span :: "nat \<Rightarrow> nat \<times> nat \<Rightarrow> nat \<times> nat \<Rightarrow> nat list \<Rightarrow> nat \<times> nat" where
  "zero_span i current longest [] = longest"
| "zero_span i current longest (g # gs) =
     (if g = 0
      then let current = (if snd current = 0 then (i, 1) else (fst current, snd current + 1)) in
        zero_span (Suc i) current (if snd current > snd longest then current else longest) gs
      else zero_span (Suc i) (0, 0) longest gs)"

definition ipv6_groups :: "u128 \<Rightarrow> nat list" where
  "ipv6_groups a = map (\<lambda>i. unat (drop_bit (16 * (7 - i)) a) mod 65536) [0..<8]"

definition ipv6_text :: "u128 \<Rightarrow> bytes" where
  "ipv6_text a =
     (let groups = ipv6_groups a; hex = join_text 58 \<circ> map (digits_text 16 4) in
      if take 6 groups = [0, 0, 0, 0, 0, 65535]
      then ascii ''::ffff:'' @ ipv4_text (ucast a)
      else let (start, len) = zero_span 0 (0, 0) (0, 0) groups in
        if len > 1 then hex (take start groups) @ ascii ''::'' @ hex (drop (start + len) groups)
        else hex groups)"

fun ip_text :: "ip_addr \<Rightarrow> bytes" where
  "ip_text (V4 a) = ipv4_text a"
| "ip_text (V6 a) = ipv6_text a"

subsection \<open>Limits and domains\<close>

definition COOPERATIVE_CHECKPOINT_VERSION :: u8 where "COOPERATIVE_CHECKPOINT_VERSION = 2"
definition MAX_CHECKPOINT_MEMBERS :: usize where "MAX_CHECKPOINT_MEMBERS = 256"
definition MAX_CHECKPOINT_ROUTES :: usize where "MAX_CHECKPOINT_ROUTES = 32"
definition MAX_CHECKPOINT_BYTES :: usize where "MAX_CHECKPOINT_BYTES = 2 * 1024 * 1024"
definition MAX_SNAPSHOT_OFFER_BYTES :: usize where "MAX_SNAPSHOT_OFFER_BYTES = 4 * 1024 * 1024"
definition MAX_CAPABILITY_BYTES :: usize where "MAX_CAPABILITY_BYTES = 4096"
definition MAX_RESYNC_WINDOW :: duration where "MAX_RESYNC_WINDOW = 60 * 10 ^ 9"
definition MAX_KEY_BYTES :: usize where "MAX_KEY_BYTES = 4096"
definition MAX_SIGNATURE_BYTES :: usize where "MAX_SIGNATURE_BYTES = 4096"
definition MAX_MUTATION_BYTES :: usize where "MAX_MUTATION_BYTES = 32 * 1024"

definition SNAPSHOT_DOMAIN :: bytes where
  "SNAPSHOT_DOMAIN = ascii ''p2p-vpn cooperative checkpoint v2'' @ [10]"
definition ANCHOR_DOMAIN :: bytes where
  "ANCHOR_DOMAIN = ascii ''p2p-vpn checkpoint anchor v1'' @ [10]"
definition CAPABILITY_DOMAIN :: bytes where
  "CAPABILITY_DOMAIN = ascii ''p2p-vpn checkpoint MAC key v1'' @ [10]"
definition MUTATION_DOMAIN :: bytes where
  "MUTATION_DOMAIN = ascii ''p2p-vpn checkpoint mutation v1'' @ [10]"
definition HOSTNAME_DOMAIN :: bytes where
  "HOSTNAME_DOMAIN = ascii ''p2p-vpn checkpoint hostname v1'' @ [10]"
definition OFFER_DOMAIN :: bytes where
  "OFFER_DOMAIN = ascii ''p2p-vpn checkpoint offer v1'' @ [10]"
definition ADMISSION_DOMAIN :: bytes where
  "ADMISSION_DOMAIN = ascii ''p2p-vpn checkpoint admission incarnation v1'' @ [10]"
definition LEGACY_DOMAIN :: bytes where
  "LEGACY_DOMAIN = ascii ''p2p-vpn legacy incarnation v1'' @ [10]"

abbreviation zero_array :: bytes where
  "zero_array \<equiv> replicate 32 0"

subsection \<open>Data\<close>

record network_anchor =
  na_version :: u8
  na_network_id :: bytes
  na_policy_version :: u8
  na_rank_version :: u8

record network_capability =
  nc_anchor :: network_anchor
  nc_mac_key :: bytes

record snapshot_policy =
  sp_max_active_members :: u16
  sp_route_grants_enabled :: bool

record snapshot_publisher =
  pub_peer_id :: bytes
  pub_public_key :: bytes

record checkpoint_member =
  cm_subject :: snapshot_publisher
  cm_incarnation :: bytes
  cm_roles :: "membership_role list"
  cm_route_grants :: "route_config list"
  cm_expires_at :: "u64 option"

record checkpoint_snapshot =
  cs_version :: u8
  cs_anchor :: network_anchor
  cs_authority_revision :: u64
  cs_parent_digest :: "bytes option"
  cs_policy :: snapshot_policy
  cs_members :: "checkpoint_member list"

record checkpoint_boundary =
  cb_authority_revision :: u64
  cb_digest :: bytes

record authenticated_snapshot =
  as_payload :: checkpoint_snapshot
  as_mac :: bytes

datatype membership_change =
    UpsertMember checkpoint_member
  | RemoveMember bytes
  | SetPolicy snapshot_policy
  | PruneExpired

record mutation_payload =
  mut_version :: u8
  mut_anchor :: network_anchor
  mut_base :: checkpoint_boundary
  mut_issuer :: snapshot_publisher
  mut_change :: membership_change

record signed_mutation =
  sm_payload :: mutation_payload
  sm_signature :: bytes

record hostname_claim_payload =
  hc_version :: u8
  hc_anchor :: network_anchor
  hc_subject :: snapshot_publisher
  hc_incarnation :: bytes
  hc_sequence :: u64
  hc_hostname :: bytes

record signed_hostname_claim =
  sh_payload :: hostname_claim_payload
  sh_signature :: bytes

record snapshot_challenge =
  ch_anchor :: network_anchor
  ch_nonce :: bytes

record snapshot_offer_payload =
  op_version :: u8
  op_challenge :: snapshot_challenge
  op_snapshot :: authenticated_snapshot
  op_publisher :: snapshot_publisher
  op_hostname_claims :: "signed_hostname_claim list"

record signed_snapshot_offer =
  so_payload :: snapshot_offer_payload
  so_signature :: bytes

text \<open>The rank of a snapshot, ordered by its fields from left to right.\<close>

datatype snapshot_rank =
  SnapshotRank (rank_authority_revision: u64) (rank_active_member_count: usize) (rank_digest: bytes)

definition rank_key :: "snapshot_rank \<Rightarrow> u64 \<times> usize \<times> bytes" where
  "rank_key r = (rank_authority_revision r, rank_active_member_count r, rank_digest r)"

lemma rank_key_inject: "rank_key r = rank_key s \<longleftrightarrow> r = s"
  by (cases r; cases s) (simp add: rank_key_def)

instantiation snapshot_rank :: linorder
begin

definition less_eq_snapshot_rank :: "snapshot_rank \<Rightarrow> snapshot_rank \<Rightarrow> bool" where
  "r \<le> s \<longleftrightarrow> rank_key r \<le> rank_key s"

definition less_snapshot_rank :: "snapshot_rank \<Rightarrow> snapshot_rank \<Rightarrow> bool" where
  "r < s \<longleftrightarrow> rank_key r < rank_key s"

instance
  by standard (auto simp: less_eq_snapshot_rank_def less_snapshot_rank_def simp flip: rank_key_inject)

end

text \<open>The values the program serialises, by type.\<close>

datatype json_value =
    JsonAnchor network_anchor
  | JsonSnapshot checkpoint_snapshot
  | JsonMutationPayload mutation_payload
  | JsonMutation signed_mutation
  | JsonHostnamePayload hostname_claim_payload
  | JsonOfferPayload snapshot_offer_payload
  | JsonOffer signed_snapshot_offer
  | JsonAdmission network_anchor checkpoint_boundary snapshot_publisher
  | JsonLegacy network_anchor signed_record

record ('kp, 'key, 'l) checkpoint_library =
  cl_membership :: "('kp, 'key, 'l) membership_library"
  to_json :: "json_value \<Rightarrow> bytes option"
  snapshot_from_json :: "bytes \<Rightarrow> authenticated_snapshot option"
  offer_from_json :: "bytes \<Rightarrow> signed_snapshot_offer option"
  retained_from_json :: "bytes \<Rightarrow> (authenticated_snapshot \<times> signed_hostname_claim list) option"
  hmac_sha256 :: "bytes \<Rightarrow> bytes \<Rightarrow> bytes"
  hkdf_sha256_expand :: "bytes \<Rightarrow> bytes \<Rightarrow> bytes \<Rightarrow> bytes option"

abbreviation cl_identity :: "('kp, 'key, 'l) checkpoint_library \<Rightarrow> ('kp, 'key, 'l) identity_library" where
  "cl_identity lib \<equiv> ml_identity (cl_membership lib)"

datatype checkpoint_error =
    CheckpointRecord membership_error
  | CheckpointJson
  | CheckpointInvalid string
  | MissingCapability
  | WrongAnchor
  | InvalidMac
  | CheckpointInvalidSignature
  | NoAuthorityChange
  | RevisionExhausted
  | StaleMutation
  | StaleSnapshot
  | NoParticipation
  | NoSyncRound
  | WrongChallenge
  | WrongPublisher
  | SyncWindowClosed
  | SyncWindowNotElapsed

text \<open>An early return with \<open>Invalid\<close>.\<close>

definition ensure :: "bool \<Rightarrow> string \<Rightarrow> (unit, checkpoint_error) result" where
  "ensure ok reason = (if ok then Ok () else Err (CheckpointInvalid reason))"

subsection \<open>Bounds, messages and signatures\<close>

definition bytes_bound :: "bytes \<Rightarrow> usize \<Rightarrow> (unit, checkpoint_error) result" where
  "bytes_bound bs limit = ensure (\<not> length bs > limit) ''encoding exceeds size limit''"

definition field_bound :: "bytes \<Rightarrow> usize \<Rightarrow> (unit, checkpoint_error) result" where
  "field_bound = bytes_bound"

definition portable :: "u64 \<Rightarrow> (unit, checkpoint_error) result" where
  "portable v = ensure (\<not> v > MAX_MEMBERSHIP_RECORD_INTEGER) ''integer exceeds portable range''"

definition encoded_bound ::
    "('kp, 'key, 'l) checkpoint_library \<Rightarrow> json_value \<Rightarrow> usize \<Rightarrow> (unit, checkpoint_error) result" where
  "encoded_bound lib v limit =
     and_then (ok_or (to_json lib v) CheckpointJson) (\<lambda>json. bytes_bound json limit)"

definition checkpoint_message ::
    "('kp, 'key, 'l) checkpoint_library \<Rightarrow> bytes \<Rightarrow> json_value \<Rightarrow> (bytes, checkpoint_error) result" where
  "checkpoint_message lib domain v =
     and_then (ok_or (to_json lib v) CheckpointJson) (\<lambda>json. Ok (domain @ json))"

definition checkpoint_digest ::
    "('kp, 'key, 'l) checkpoint_library \<Rightarrow> bytes \<Rightarrow> json_value \<Rightarrow> (bytes, checkpoint_error) result" where
  "checkpoint_digest lib domain v =
     and_then (checkpoint_message lib domain v) (\<lambda>message. Ok (digest_sha256 (cl_identity lib) message))"

definition checkpoint_sign ::
    "('kp, 'key, 'l) checkpoint_library \<Rightarrow> node_identity \<Rightarrow> bytes \<Rightarrow> json_value \<Rightarrow>
     (bytes, checkpoint_error) result" where
  "checkpoint_sign lib i domain v =
     and_then (checkpoint_message lib domain v) (\<lambda>message.
     and_then (map_err (CheckpointRecord \<circ> MembershipIdentity) (identity_sign (cl_identity lib) i message))
       (\<lambda>signature. Ok (base64_encode (cl_identity lib) signature)))"

definition publisher_from_identity ::
    "('kp, 'key, 'l) checkpoint_library \<Rightarrow> node_identity \<Rightarrow> (snapshot_publisher, checkpoint_error) result" where
  "publisher_from_identity lib i =
     and_then (map_err (CheckpointRecord \<circ> MembershipIdentity) (public_key_protobuf (cl_identity lib) i))
       (\<lambda>key. Ok \<lparr>pub_peer_id = ni_peer_id i, pub_public_key = base64_encode (cl_identity lib) key\<rparr>)"

definition publisher_validate ::
    "('kp, 'key, 'l) checkpoint_library \<Rightarrow> snapshot_publisher \<Rightarrow> ('key, checkpoint_error) result" where
  "publisher_validate lib p =
     (let ids = cl_identity lib in
      and_then (field_bound (pub_peer_id p) 128) (\<lambda>_.
      and_then (field_bound (pub_public_key p) MAX_KEY_BYTES) (\<lambda>_.
      and_then (ok_or (libp2p_from_str ids (pub_peer_id p)) (CheckpointRecord MembershipLibp2pPeerId)) (\<lambda>peer.
      and_then (map_err CheckpointRecord (decode_public_key (cl_membership lib) (pub_public_key p))) (\<lambda>key.
      and_then (ensure (\<not> (key_to_peer_id ids key \<noteq> peer \<or> libp2p_to_string ids peer \<noteq> pub_peer_id p \<or>
                  base64_encode ids (key_encode_protobuf ids key) \<noteq> pub_public_key p))
                ''noncanonical or mismatched member key'') (\<lambda>_. Ok key))))))"

definition verify_signature ::
    "('kp, 'key, 'l) checkpoint_library \<Rightarrow> snapshot_publisher \<Rightarrow> bytes \<Rightarrow> json_value \<Rightarrow> bytes \<Rightarrow>
     (unit, checkpoint_error) result" where
  "verify_signature lib subject domain v signature =
     and_then (field_bound signature MAX_SIGNATURE_BYTES) (\<lambda>_.
     and_then (publisher_validate lib subject) (\<lambda>key.
     and_then (ok_or (base64_decode (cl_identity lib) signature) (CheckpointRecord MembershipBase64)) (\<lambda>signature.
     and_then (checkpoint_message lib domain v) (\<lambda>message.
       if \<not> key_verify (cl_identity lib) key message signature then Err CheckpointInvalidSignature
       else Ok ()))))"

definition validate_local_peer ::
    "('kp, 'key, 'l) checkpoint_library \<Rightarrow> bytes \<Rightarrow> (unit, checkpoint_error) result" where
  "validate_local_peer lib peer =
     and_then (field_bound peer 128) (\<lambda>_.
     and_then (ok_or (libp2p_from_str (cl_identity lib) peer) (CheckpointRecord MembershipLibp2pPeerId)) (\<lambda>l.
       ensure (libp2p_to_string (cl_identity lib) l = peer) ''noncanonical peer identity''))"

definition canonical_route :: "route_config \<Rightarrow> (bytes, checkpoint_error) result" where
  "canonical_route r =
     and_then (map_err (\<lambda>_. CheckpointInvalid ''invalid route prefix'') (route_config_prefix r)) (\<lambda>prefix.
       let bits = cidr_prefix_len prefix;
           address = (case cidr_address prefix of
                        V4 a \<Rightarrow> V4 (a AND (if bits = 0 then 0 else push_bit (32 - unat bits) (- 1)))
                      | V6 a \<Rightarrow> V6 (a AND (if bits = 0 then 0 else push_bit (128 - unat bits) (- 1))))
       in Ok (ip_text address @ [47] @ digits_text 10 3 (unat bits)))"


subsection \<open>Anchors and capabilities\<close>

definition anchor_validate :: "network_anchor \<Rightarrow> (unit, checkpoint_error) result" where
  "anchor_validate a =
     and_then (ensure (\<not> (na_version a \<noteq> 1 \<or> na_policy_version a \<noteq> 1 \<or> na_rank_version a \<noteq> 1))
       ''unsupported anchor/policy/rank version'') (\<lambda>_.
       ensure (na_network_id a \<noteq> zero_array) ''empty network identity'')"

definition anchor_new :: "bytes \<Rightarrow> (network_anchor, checkpoint_error) result" where
  "anchor_new network_id =
     (let a = \<lparr>na_version = 1, na_network_id = network_id, na_policy_version = 1, na_rank_version = 1\<rparr> in
      and_then (anchor_validate a) (\<lambda>_. Ok a))"

definition capability_from_secret ::
    "('kp, 'key, 'l) checkpoint_library \<Rightarrow> network_anchor \<Rightarrow> bytes option \<Rightarrow>
     (network_capability, checkpoint_error) result" where
  "capability_from_secret lib anchor secret =
     and_then (anchor_validate anchor) (\<lambda>_.
     and_then (ok_or secret MissingCapability) (\<lambda>secret.
     and_then (ensure (32 \<le> length secret \<and> length secret \<le> MAX_CAPABILITY_BYTES)
                ''capability must contain 32..=4096 bytes'') (\<lambda>_.
     and_then (checkpoint_digest lib ANCHOR_DOMAIN (JsonAnchor anchor)) (\<lambda>salt.
     and_then (ok_or (hkdf_sha256_expand lib salt secret CAPABILITY_DOMAIN)
                (CheckpointInvalid ''capability derivation failed'')) (\<lambda>mac_key.
       Ok \<lparr>nc_anchor = anchor, nc_mac_key = mac_key\<rparr>)))))"

subsection \<open>Snapshots\<close>

definition policy_default :: snapshot_policy where
  "policy_default = \<lparr>sp_max_active_members = word_of_nat MAX_CHECKPOINT_MEMBERS, sp_route_grants_enabled = True\<rparr>"

definition policy_validate :: "snapshot_policy \<Rightarrow> usize \<Rightarrow> (unit, checkpoint_error) result" where
  "policy_validate p n =
     ensure (\<not> (sp_max_active_members p = 0 \<or> unat (sp_max_active_members p) > MAX_CHECKPOINT_MEMBERS \<or>
                n > unat (sp_max_active_members p))) ''invalid member limit''"

text \<open>The incarnation of a new member is random.\<close>

definition checkpoint_member_new ::
    "('kp, 'key, 'l) checkpoint_library \<Rightarrow> node_identity \<Rightarrow> bytes \<Rightarrow> (checkpoint_member, checkpoint_error) result" where
  "checkpoint_member_new lib i nonce =
     and_then (publisher_from_identity lib i) (\<lambda>subject.
       Ok \<lparr>cm_subject = subject, cm_incarnation = nonce, cm_roles = [OverlayMember],
           cm_route_grants = [], cm_expires_at = None\<rparr>)"

definition active_at :: "checkpoint_member \<Rightarrow> u64 \<Rightarrow> bool" where
  "active_at m now = is_none_or (\<lambda>expiry. now < expiry) (cm_expires_at m)"

fun validate_grants :: "(bytes \<times> u16) option \<Rightarrow> route_config list \<Rightarrow> (unit, checkpoint_error) result" where
  "validate_grants prev [] = Ok ()"
| "validate_grants prev (r # rs) =
     and_then (field_bound (rc_prefix r) 64) (\<lambda>_.
     and_then (canonical_route r) (\<lambda>prefix.
     and_then (ensure (\<not> (prefix \<noteq> rc_prefix r \<or> is_some_and (\<lambda>l. l \<ge> (rc_prefix r, rc_metric r)) prev))
                ''noncanonical route grants'') (\<lambda>_.
       validate_grants (Some (rc_prefix r, rc_metric r)) rs)))"

definition member_validate ::
    "('kp, 'key, 'l) checkpoint_library \<Rightarrow> checkpoint_member \<Rightarrow> (unit, checkpoint_error) result" where
  "member_validate lib m =
     and_then (publisher_validate lib (cm_subject m)) (\<lambda>_.
     and_then (ensure (cm_incarnation m \<noteq> zero_array) ''empty member incarnation'') (\<lambda>_.
     and_then (ensure (cm_roles m = [OverlayMember] \<or> cm_roles m = [OverlayMember, RouteAuthority])
                ''noncanonical membership roles'') (\<lambda>_.
     and_then (ensure (\<not> length (cm_route_grants m) > MAX_CHECKPOINT_ROUTES) ''too many route grants'') (\<lambda>_.
     and_then (ensure (\<not> (cm_route_grants m \<noteq> [] \<and> RouteAuthority \<notin> set (cm_roles m)))
                ''route grants without route authority'') (\<lambda>_.
     and_then (validate_grants None (cm_route_grants m)) (\<lambda>_.
       case cm_expires_at m of Some expiry \<Rightarrow> portable expiry | None \<Rightarrow> Ok ()))))))"

abbreviation member_peer :: "checkpoint_member \<Rightarrow> bytes" where
  "member_peer m \<equiv> pub_peer_id (cm_subject m)"

fun validate_members ::
    "('kp, 'key, 'l) checkpoint_library \<Rightarrow> bytes option \<Rightarrow> checkpoint_member list \<Rightarrow>
     (unit, checkpoint_error) result" where
  "validate_members lib prev [] = Ok ()"
| "validate_members lib prev (m # ms) =
     and_then (member_validate lib m) (\<lambda>_.
     and_then (ensure (\<not> is_some_and (\<lambda>l. l \<ge> member_peer m) prev) ''noncanonical member ordering'') (\<lambda>_.
       validate_members lib (Some (member_peer m)) ms))"

definition snapshot_validate ::
    "('kp, 'key, 'l) checkpoint_library \<Rightarrow> checkpoint_snapshot \<Rightarrow> (unit, checkpoint_error) result" where
  "snapshot_validate lib s =
     and_then (ensure (cs_version s = COOPERATIVE_CHECKPOINT_VERSION) ''unsupported checkpoint version'') (\<lambda>_.
     and_then (anchor_validate (cs_anchor s)) (\<lambda>_.
     and_then (portable (cs_authority_revision s)) (\<lambda>_.
     and_then (ensure (\<not> ((cs_authority_revision s = 0) \<noteq> (cs_parent_digest s = None) \<or>
                          cs_parent_digest s = Some zero_array)) ''invalid checkpoint boundary'') (\<lambda>_.
     and_then (ensure (\<not> length (cs_members s) > MAX_CHECKPOINT_MEMBERS) ''too many members'') (\<lambda>_.
     and_then (policy_validate (cs_policy s) (length (cs_members s))) (\<lambda>_.
     and_then (validate_members lib None (cs_members s)) (\<lambda>_.
       encoded_bound lib (JsonSnapshot s) MAX_CHECKPOINT_BYTES)))))))"

definition snapshot_boundary ::
    "('kp, 'key, 'l) checkpoint_library \<Rightarrow> checkpoint_snapshot \<Rightarrow> (checkpoint_boundary, checkpoint_error) result" where
  "snapshot_boundary lib s =
     and_then (snapshot_validate lib s) (\<lambda>_.
     and_then (checkpoint_digest lib SNAPSHOT_DOMAIN (JsonSnapshot s)) (\<lambda>d.
       Ok \<lparr>cb_authority_revision = cs_authority_revision s, cb_digest = d\<rparr>))"

definition snapshot_rank_of ::
    "('kp, 'key, 'l) checkpoint_library \<Rightarrow> checkpoint_snapshot \<Rightarrow> (snapshot_rank, checkpoint_error) result" where
  "snapshot_rank_of lib s =
     and_then (snapshot_boundary lib s) (\<lambda>b.
       Ok (SnapshotRank (cs_authority_revision s) (length (cs_members s)) (cb_digest b)))"

definition rank_validate :: "snapshot_rank \<Rightarrow> (unit, checkpoint_error) result" where
  "rank_validate r =
     and_then (portable (rank_authority_revision r)) (\<lambda>_.
       ensure (\<not> (rank_active_member_count r > MAX_CHECKPOINT_MEMBERS \<or> rank_digest r = zero_array))
         ''invalid checkpoint rank'')"

definition snapshot_member :: "checkpoint_snapshot \<Rightarrow> bytes \<Rightarrow> checkpoint_member option" where
  "snapshot_member s peer =
     (case binary_search member_peer peer (cs_members s) of
        Inr index \<Rightarrow> Some (cs_members s ! index)
      | Inl _ \<Rightarrow> None)"

subsection \<open>Authentication\<close>

definition validate_scope ::
    "('kp, 'key, 'l) checkpoint_library \<Rightarrow> network_capability \<Rightarrow> checkpoint_snapshot \<Rightarrow>
     (unit, checkpoint_error) result" where
  "validate_scope lib capability s =
     (if cs_anchor s \<noteq> nc_anchor capability then Err WrongAnchor else snapshot_validate lib s)"

definition authenticate ::
    "('kp, 'key, 'l) checkpoint_library \<Rightarrow> network_capability \<Rightarrow> checkpoint_snapshot \<Rightarrow>
     (authenticated_snapshot, checkpoint_error) result" where
  "authenticate lib capability s =
     and_then (validate_scope lib capability s) (\<lambda>_.
     and_then (checkpoint_message lib SNAPSHOT_DOMAIN (JsonSnapshot s)) (\<lambda>message.
       Ok \<lparr>as_payload = s, as_mac = hmac_sha256 lib (nc_mac_key capability) message\<rparr>))"

definition capability_verify ::
    "('kp, 'key, 'l) checkpoint_library \<Rightarrow> network_capability \<Rightarrow> authenticated_snapshot \<Rightarrow>
     (unit, checkpoint_error) result" where
  "capability_verify lib capability snapshot =
     and_then (validate_scope lib capability (as_payload snapshot)) (\<lambda>_.
     and_then (checkpoint_message lib SNAPSHOT_DOMAIN (JsonSnapshot (as_payload snapshot))) (\<lambda>message.
       if hmac_sha256 lib (nc_mac_key capability) message = as_mac snapshot then Ok () else Err InvalidMac))"

definition snapshot_decode ::
    "('kp, 'key, 'l) checkpoint_library \<Rightarrow> bytes \<Rightarrow> network_capability \<Rightarrow>
     (authenticated_snapshot, checkpoint_error) result" where
  "snapshot_decode lib bs capability =
     and_then (bytes_bound bs MAX_CHECKPOINT_BYTES) (\<lambda>_.
     and_then (ok_or (snapshot_from_json lib bs) CheckpointJson) (\<lambda>snapshot.
     and_then (capability_verify lib capability snapshot) (\<lambda>_. Ok snapshot)))"

subsection \<open>Mutations\<close>

definition authenticate_for ::
    "('kp, 'key, 'l) checkpoint_library \<Rightarrow> signed_mutation \<Rightarrow> network_anchor \<Rightarrow> 'l \<Rightarrow>
     (unit, checkpoint_error) result" where
  "authenticate_for lib mutation expected_anchor transport_sender =
     (let p = sm_payload mutation in
      and_then (ensure (mut_version p = 1) ''unsupported mutation version'') (\<lambda>_.
      and_then (anchor_validate (mut_anchor p)) (\<lambda>_.
      if mut_anchor p \<noteq> expected_anchor then Err WrongAnchor
      else
        and_then (portable (cb_authority_revision (mut_base p))) (\<lambda>_.
        and_then (ensure (cb_digest (mut_base p) \<noteq> zero_array) ''empty mutation base'') (\<lambda>_.
        and_then (publisher_validate lib (mut_issuer p)) (\<lambda>key.
        and_then (ensure (key_to_peer_id (cl_identity lib) key = transport_sender)
                   ''mutation transport issuer mismatch'') (\<lambda>_.
        and_then (case mut_change p of
                    UpsertMember m \<Rightarrow> member_validate lib m
                  | RemoveMember peer \<Rightarrow> validate_local_peer lib peer
                  | SetPolicy policy \<Rightarrow> policy_validate policy 0
                  | PruneExpired \<Rightarrow> Ok ()) (\<lambda>_.
        and_then (encoded_bound lib (JsonMutation mutation) MAX_MUTATION_BYTES) (\<lambda>_.
          verify_signature lib (mut_issuer p) MUTATION_DOMAIN (JsonMutationPayload p)
            (sm_signature mutation))))))))))"

definition admission_incarnation ::
    "('kp, 'key, 'l) checkpoint_library \<Rightarrow> network_anchor \<Rightarrow> checkpoint_boundary \<Rightarrow> snapshot_publisher \<Rightarrow>
     (bytes, checkpoint_error) result" where
  "admission_incarnation lib anchor base subject =
     checkpoint_digest lib ADMISSION_DOMAIN (JsonAdmission anchor base subject)"

subsection \<open>Hostname claims\<close>

definition validate_hostname_payload ::
    "('kp, 'key, 'l) checkpoint_library \<Rightarrow> hostname_claim_payload \<Rightarrow> (unit, checkpoint_error) result" where
  "validate_hostname_payload lib p =
     and_then (ensure (\<not> (hc_version p \<noteq> 1 \<or> hc_incarnation p = zero_array))
       ''invalid hostname version/incarnation'') (\<lambda>_.
     and_then (anchor_validate (hc_anchor p)) (\<lambda>_.
     and_then (publisher_validate lib (hc_subject p)) (\<lambda>_.
     and_then (portable (hc_sequence p)) (\<lambda>_.
     and_then (field_bound (hc_hostname p) 63) (\<lambda>_.
     and_then (map_err (CheckpointRecord \<circ> MembershipInvalidHostname) (canonical_dns_label (hc_hostname p)))
       (\<lambda>name. ensure (name = hc_hostname p) ''noncanonical hostname''))))))"

definition hostname_claim_issue ::
    "('kp, 'key, 'l) checkpoint_library \<Rightarrow> network_anchor \<Rightarrow> node_identity \<Rightarrow> bytes \<Rightarrow> u64 \<Rightarrow> bytes \<Rightarrow>
     (signed_hostname_claim, checkpoint_error) result" where
  "hostname_claim_issue lib anchor i incarnation sequence hostname =
     and_then (publisher_from_identity lib i) (\<lambda>subject.
     and_then (map_err (CheckpointRecord \<circ> MembershipInvalidHostname) (canonical_dns_label hostname)) (\<lambda>name.
     let p = \<lparr>hc_version = 1, hc_anchor = anchor, hc_subject = subject, hc_incarnation = incarnation,
              hc_sequence = sequence, hc_hostname = name\<rparr> in
     and_then (validate_hostname_payload lib p) (\<lambda>_.
     and_then (checkpoint_sign lib i HOSTNAME_DOMAIN (JsonHostnamePayload p)) (\<lambda>signature.
       Ok \<lparr>sh_payload = p, sh_signature = signature\<rparr>))))"

definition claim_matches :: "checkpoint_member \<Rightarrow> signed_hostname_claim \<Rightarrow> bool" where
  "claim_matches m claim \<longleftrightarrow>
     hc_subject (sh_payload claim) = cm_subject m \<and> hc_incarnation (sh_payload claim) = cm_incarnation m"

abbreviation claim_peer :: "signed_hostname_claim \<Rightarrow> bytes" where
  "claim_peer claim \<equiv> pub_peer_id (hc_subject (sh_payload claim))"

definition hostname_claim_verify ::
    "('kp, 'key, 'l) checkpoint_library \<Rightarrow> signed_hostname_claim \<Rightarrow> checkpoint_snapshot \<Rightarrow>
     (unit, checkpoint_error) result" where
  "hostname_claim_verify lib claim snapshot =
     (let p = sh_payload claim in
      and_then (validate_hostname_payload lib p) (\<lambda>_.
      if hc_anchor p \<noteq> cs_anchor snapshot then Err WrongAnchor
      else
        and_then (ok_or (snapshot_member snapshot (claim_peer claim))
                   (CheckpointInvalid ''unknown hostname subject'')) (\<lambda>m.
        and_then (ensure (claim_matches m claim) ''hostname subject/incarnation mismatch'') (\<lambda>_.
          verify_signature lib (hc_subject p) HOSTNAME_DOMAIN (JsonHostnamePayload p) (sh_signature claim)))))"

fun validate_claims ::
    "('kp, 'key, 'l) checkpoint_library \<Rightarrow> checkpoint_snapshot \<Rightarrow> bytes option \<Rightarrow>
     signed_hostname_claim list \<Rightarrow> (unit, checkpoint_error) result" where
  "validate_claims lib snapshot prev [] = Ok ()"
| "validate_claims lib snapshot prev (claim # claims) =
     and_then (ensure (\<not> is_some_and (\<lambda>l. l \<ge> claim_peer claim) prev) ''noncanonical hostname ordering'') (\<lambda>_.
     and_then (hostname_claim_verify lib claim snapshot) (\<lambda>_.
       validate_claims lib snapshot (Some (claim_peer claim)) claims))"

definition validate_names ::
    "('kp, 'key, 'l) checkpoint_library \<Rightarrow> checkpoint_snapshot \<Rightarrow> signed_hostname_claim list \<Rightarrow>
     (unit, checkpoint_error) result" where
  "validate_names lib snapshot names =
     and_then (ensure (\<not> (length names > MAX_CHECKPOINT_MEMBERS \<or> length names > length (cs_members snapshot)))
       ''too many hostname claims'') (\<lambda>_. validate_claims lib snapshot None names)"

definition compatible_names ::
    "checkpoint_snapshot \<Rightarrow> signed_hostname_claim list \<Rightarrow> signed_hostname_claim list" where
  "compatible_names snapshot names =
     filter (\<lambda>claim. is_some_and (\<lambda>m. claim_matches m claim) (snapshot_member snapshot (claim_peer claim))) names"

text \<open>\<open>Vec::insert\<close>.\<close>

definition insert_at :: "usize \<Rightarrow> 'a \<Rightarrow> 'a list \<Rightarrow> 'a list" where
  "insert_at i x xs = take i xs @ x # drop i xs"

definition merge_claim :: "signed_hostname_claim list \<Rightarrow> signed_hostname_claim \<Rightarrow> signed_hostname_claim list" where
  "merge_claim names claim =
     (case binary_search claim_peer (claim_peer claim) names of
        Inr index \<Rightarrow>
          (let old = sh_payload (names ! index); new = sh_payload claim in
           if hc_sequence old > hc_sequence new then names
           else if hc_sequence old = hc_sequence new
             then if hc_hostname new > hc_hostname old then names[index := claim] else names
           else names[index := claim])
      | Inl index \<Rightarrow> insert_at index claim names)"

definition merge_names ::
    "('kp, 'key, 'l) checkpoint_library \<Rightarrow> checkpoint_snapshot \<Rightarrow> signed_hostname_claim list \<Rightarrow>
     signed_hostname_claim list \<Rightarrow> (signed_hostname_claim list, checkpoint_error) result" where
  "merge_names lib snapshot current incoming =
     and_then (validate_names lib snapshot current) (\<lambda>_.
     and_then (validate_names lib snapshot incoming) (\<lambda>_.
       Ok (foldl merge_claim current incoming)))"

subsection \<open>Offers\<close>

definition offer_validate_shape ::
    "('kp, 'key, 'l) checkpoint_library \<Rightarrow> signed_snapshot_offer \<Rightarrow> (unit, checkpoint_error) result" where
  "offer_validate_shape lib offer =
     (let p = so_payload offer in
      and_then (ensure (\<not> (op_version p \<noteq> 1 \<or> ch_nonce (op_challenge p) = zero_array))
        ''invalid offer version/challenge'') (\<lambda>_.
      and_then (anchor_validate (ch_anchor (op_challenge p))) (\<lambda>_.
      and_then (snapshot_validate lib (as_payload (op_snapshot p))) (\<lambda>_.
      and_then (publisher_validate lib (op_publisher p)) (\<lambda>_.
      and_then (validate_names lib (as_payload (op_snapshot p)) (op_hostname_claims p)) (\<lambda>_.
      and_then (field_bound (so_signature offer) MAX_SIGNATURE_BYTES) (\<lambda>_.
        encoded_bound lib (JsonOffer offer) MAX_SNAPSHOT_OFFER_BYTES)))))))"

definition offer_decode ::
    "('kp, 'key, 'l) checkpoint_library \<Rightarrow> bytes \<Rightarrow> (signed_snapshot_offer, checkpoint_error) result" where
  "offer_decode lib bs =
     and_then (bytes_bound bs MAX_SNAPSHOT_OFFER_BYTES) (\<lambda>_.
     and_then (ok_or (offer_from_json lib bs) CheckpointJson) (\<lambda>offer.
     and_then (offer_validate_shape lib offer) (\<lambda>_. Ok offer)))"

end
