(* ===== verification/Checkpoint_State.thy ===== *)
theory Checkpoint_State
  imports Checkpoint
begin

text \<open>
  The cooperative membership state (\<open>CooperativeMembershipState\<close> in
  \<open>src/src/membership/checkpoint.rs\<close>): formation, migration and restoration, mutations of the snapshot,
  hostname claims, offers, the resynchronisation round, and the effective membership.
  \<^item> Every operation assigns to its state after the last point where it can fail, so an operation that
    changes the state returns the new state with its result, and an error leaves the state as it was.
  \<^item> The random nonce of a challenge is an argument; \<open>nonce()\<close> draws until it is not zero.
  \<^item> \<open>Instant::checked_add\<close> fails above the largest instant of a 64-bit Linux target.
\<close>

datatype membership_sync_state = ResyncRequired | Resyncing | Participating | Excluded

datatype offer_outcome = SelectedHigherRank | KeptCurrentRank

record branch_selection =
  bs_previous :: checkpoint_boundary
  bs_selected :: checkpoint_boundary
  bs_decisions_may_have_been_discarded :: bool
  bs_added_members :: usize
  bs_removed_members :: usize
  bs_observed_remote_offer :: bool
  bs_sync_state :: membership_sync_state

record retained_state =
  rt_snapshot :: authenticated_snapshot
  rt_hostname_claims :: "signed_hostname_claim list"

record resync_round =
  rr_challenge :: snapshot_challenge
  rr_deadline :: instant
  rr_best :: authenticated_snapshot
  rr_names :: "signed_hostname_claim list"
  rr_observed_offer :: bool

record cooperative_state =
  co_capability :: network_capability
  co_local_peer :: bytes
  co_current :: authenticated_snapshot
  co_names :: "signed_hostname_claim list"
  co_sync_state :: membership_sync_state
  co_round :: "resync_round option"

abbreviation co_snapshot :: "cooperative_state \<Rightarrow> checkpoint_snapshot" where
  "co_snapshot s \<equiv> as_payload (co_current s)"

definition instant_max :: instant where
  "instant_max = 2 ^ 63 * 10 ^ 9 - 1"

definition instant_checked_add :: "instant \<Rightarrow> duration \<Rightarrow> instant option" where
  "instant_checked_add now d = (if now + d \<le> instant_max then Some (now + d) else None)"

lemma instant_checked_add_code [code]:
  "instant_checked_add now d =
     (if int now + int d \<le> 9223372036854775807999999999 then Some (now + d) else None)"
proof -
  have "now + d \<le> instant_max \<longleftrightarrow> int (now + d) \<le> int instant_max" by (simp only: of_nat_le_iff)
  then show ?thesis by (simp add: instant_checked_add_def instant_max_def)
qed

definition checked_succ :: "u64 \<Rightarrow> u64 option" where
  "checked_succ n = (if n = - 1 then None else Some (n + 1))"

definition participation :: "checkpoint_snapshot \<Rightarrow> bytes \<Rightarrow> u64 \<Rightarrow> membership_sync_state" where
  "participation snapshot local_peer now =
     (if is_some_and (\<lambda>m. active_at m now) (snapshot_member snapshot local_peer)
      then Participating else Excluded)"

definition require_participation :: "cooperative_state \<Rightarrow> u64 \<Rightarrow> (unit, checkpoint_error) result" where
  "require_participation s now =
     (if co_sync_state s \<noteq> Participating \<or>
         participation (co_snapshot s) (co_local_peer s) now \<noteq> Participating
      then Err NoParticipation else Ok ())"

subsection \<open>Formation, migration and restoration\<close>

definition bootstrap_at ::
    "('kp, 'key, 'l) checkpoint_library \<Rightarrow> network_capability \<Rightarrow> bytes \<Rightarrow> checkpoint_member list \<Rightarrow>
     snapshot_policy \<Rightarrow> u64 \<Rightarrow> (cooperative_state, checkpoint_error) result" where
  "bootstrap_at lib capability local_peer members policy now =
     and_then (validate_local_peer lib local_peer) (\<lambda>_.
     and_then (authenticate lib capability
                 \<lparr>cs_version = COOPERATIVE_CHECKPOINT_VERSION, cs_anchor = nc_anchor capability,
                  cs_authority_revision = 0, cs_parent_digest = None, cs_policy = policy,
                  cs_members = sort_key member_peer members\<rparr>) (\<lambda>current.
       Ok \<lparr>co_capability = capability, co_local_peer = local_peer, co_current = current, co_names = [],
           co_sync_state = participation (as_payload current) local_peer now, co_round = None\<rparr>))"

fun canonical_grants :: "route_config list \<Rightarrow> (route_config list, checkpoint_error) result" where
  "canonical_grants [] = Ok []"
| "canonical_grants (r # rs) =
     and_then (canonical_route r) (\<lambda>prefix.
     and_then (canonical_grants rs) (\<lambda>rs. Ok (r\<lparr>rc_prefix := prefix\<rparr> # rs)))"

definition legacy_member ::
    "('kp, 'key, 'l) checkpoint_library \<Rightarrow> network_capability \<Rightarrow> signed_record \<Rightarrow>
     (checkpoint_member, checkpoint_error) result" where
  "legacy_member lib capability r =
     (let p = sr_payload r in
      and_then (canonical_grants (mp_route_grants p)) (\<lambda>routes.
      and_then (checkpoint_digest lib LEGACY_DOMAIN (JsonLegacy (nc_anchor capability) r)) (\<lambda>incarnation.
        Ok \<lparr>cm_subject = \<lparr>pub_peer_id = mp_member_peer p, pub_public_key = mp_member_public_key p\<rparr>,
            cm_incarnation = incarnation,
            cm_roles = [OverlayMember] @ (if RouteAuthority \<in> set (mp_roles p) then [RouteAuthority] else []),
            cm_route_grants = remdups_adj (sort_key (\<lambda>r. (rc_prefix r, rc_metric r)) routes),
            cm_expires_at = mp_expires_at p\<rparr>)))"

fun legacy_members ::
    "('kp, 'key, 'l) checkpoint_library \<Rightarrow> network_capability \<Rightarrow> signed_record list \<Rightarrow> member_state list \<Rightarrow>
     (checkpoint_member list, checkpoint_error) result" where
  "legacy_members lib capability records [] = Ok []"
| "legacy_members lib capability records (state # rest) =
     (let r = records ! ms_record_index state in
      if \<not> ms_active state \<or> OverlayMember \<notin> set (mp_roles (sr_payload r))
      then legacy_members lib capability records rest
      else and_then (legacy_member lib capability r) (\<lambda>m.
           and_then (legacy_members lib capability records rest) (\<lambda>ms. Ok (m # ms))))"

definition migrate_trusted_legacy_at ::
    "('kp, 'key, 'l) checkpoint_library \<Rightarrow> network_capability \<Rightarrow> bytes \<Rightarrow> signed_record list \<Rightarrow> bytes \<Rightarrow>
     u64 \<Rightarrow> (cooperative_state, checkpoint_error) result" where
  "migrate_trusted_legacy_at lib capability local_peer records network_name now =
     and_then (map_err CheckpointRecord (validate_record_history (cl_membership lib) records network_name)) (\<lambda>_.
     and_then (ensure (\<not> list_ex (\<lambda>r. mp_issued_at (sr_payload r) > now) records) ''future legacy history'') (\<lambda>_.
     and_then (map_err CheckpointRecord (membership_trust_anchors (cl_membership lib) records network_name)) (\<lambda>roots.
     and_then (map_err CheckpointRecord (evaluate_ledger_at records roots now)) (\<lambda>ev.
     and_then (ensure (card (le_accepted ev) = length records) ''unaccepted legacy history'') (\<lambda>_.
     and_then (legacy_members lib capability records (map snd (le_states ev))) (\<lambda>members.
       bootstrap_at lib capability local_peer members policy_default now))))))"

definition retained_decode ::
    "('kp, 'key, 'l) checkpoint_library \<Rightarrow> bytes \<Rightarrow> network_capability \<Rightarrow> (retained_state, checkpoint_error) result" where
  "retained_decode lib bs capability =
     and_then (bytes_bound bs MAX_SNAPSHOT_OFFER_BYTES) (\<lambda>_.
     and_then (ok_or (retained_from_json lib bs) CheckpointJson) (\<lambda>(snapshot, claims).
     and_then (capability_verify lib capability snapshot) (\<lambda>_.
     and_then (validate_names lib (as_payload snapshot) claims) (\<lambda>_.
       Ok \<lparr>rt_snapshot = snapshot, rt_hostname_claims = claims\<rparr>))))"

definition restore ::
    "('kp, 'key, 'l) checkpoint_library \<Rightarrow> network_capability \<Rightarrow> bytes \<Rightarrow> retained_state \<Rightarrow>
     (cooperative_state, checkpoint_error) result" where
  "restore lib capability local_peer state =
     and_then (validate_local_peer lib local_peer) (\<lambda>_.
     and_then (capability_verify lib capability (rt_snapshot state)) (\<lambda>_.
     and_then (validate_names lib (as_payload (rt_snapshot state)) (rt_hostname_claims state)) (\<lambda>_.
       Ok \<lparr>co_capability = capability, co_local_peer = local_peer, co_current = rt_snapshot state,
           co_names = rt_hostname_claims state, co_sync_state = ResyncRequired, co_round = None\<rparr>)))"

definition retained :: "cooperative_state \<Rightarrow> retained_state" where
  "retained s = \<lparr>rt_snapshot = co_current s, rt_hostname_claims = co_names s\<rparr>"

subsection \<open>Mutations\<close>

definition validate_mutation ::
    "('kp, 'key, 'l) checkpoint_library \<Rightarrow> cooperative_state \<Rightarrow> mutation_payload \<Rightarrow> u64 \<Rightarrow>
     (unit, checkpoint_error) result" where
  "validate_mutation lib s p now =
     and_then (ensure (mut_version p = 1) ''unsupported mutation version'') (\<lambda>_.
     if mut_anchor p \<noteq> nc_anchor (co_capability s) then Err WrongAnchor
     else
       and_then (snapshot_boundary lib (co_snapshot s)) (\<lambda>b.
       if mut_base p \<noteq> b then Err StaleMutation
       else
         and_then (publisher_validate lib (mut_issuer p)) (\<lambda>_.
         and_then (case snapshot_member (co_snapshot s) (pub_peer_id (mut_issuer p)) of
                     Some m \<Rightarrow> if active_at m now then Ok m
                               else Err (CheckpointInvalid ''inactive mutation issuer'')
                   | None \<Rightarrow> Err (CheckpointInvalid ''inactive mutation issuer'')) (\<lambda>issuer.
         and_then (ensure (cm_subject issuer = mut_issuer p) ''mutation issuer key mismatch'') (\<lambda>_.
         and_then (case mut_change p of
                     UpsertMember m \<Rightarrow>
                       and_then (member_validate lib m) (\<lambda>_.
                       and_then (ensure (active_at m now) ''expired admission'') (\<lambda>_.
                       and_then (case snapshot_member (co_snapshot s) (member_peer m) of
                                   Some current \<Rightarrow> Ok (cm_incarnation current)
                                 | None \<Rightarrow> admission_incarnation lib (nc_anchor (co_capability s))
                                             (mut_base p) (cm_subject m)) (\<lambda>expected.
                         ensure (cm_incarnation m = expected) ''admission incarnation is not checkpoint-bound'')))
                   | RemoveMember peer \<Rightarrow> validate_local_peer lib peer
                   | SetPolicy policy \<Rightarrow> policy_validate policy (length (cs_members (co_snapshot s)))
                   | PruneExpired \<Rightarrow> Ok ()) (\<lambda>_.
           encoded_bound lib (JsonMutationPayload p) MAX_MUTATION_BYTES))))))"

definition upsert_member :: "checkpoint_member list \<Rightarrow> checkpoint_member \<Rightarrow> checkpoint_member list" where
  "upsert_member members m =
     (case binary_search member_peer (member_peer m) members of
        Inr index \<Rightarrow> members[index := m]
      | Inl index \<Rightarrow> insert_at index m members)"

fun change_snapshot :: "checkpoint_snapshot \<Rightarrow> membership_change \<Rightarrow> u64 \<Rightarrow> checkpoint_snapshot" where
  "change_snapshot s (UpsertMember m) now = s\<lparr>cs_members := upsert_member (cs_members s) m\<rparr>"
| "change_snapshot s (RemoveMember peer) now = s\<lparr>cs_members := filter (\<lambda>m. member_peer m \<noteq> peer) (cs_members s)\<rparr>"
| "change_snapshot s (SetPolicy policy) now = s\<lparr>cs_policy := policy\<rparr>"
| "change_snapshot s PruneExpired now = s\<lparr>cs_members := filter (\<lambda>m. active_at m now) (cs_members s)\<rparr>"

definition changed_snapshot ::
    "('kp, 'key, 'l) checkpoint_library \<Rightarrow> cooperative_state \<Rightarrow> membership_change \<Rightarrow> u64 \<Rightarrow>
     (authenticated_snapshot, checkpoint_error) result" where
  "changed_snapshot lib s change now =
     (let current = co_snapshot s; nxt = change_snapshot current change now in
      if cs_members nxt = cs_members current \<and> cs_policy nxt = cs_policy current then Err NoAuthorityChange
      else
        and_then (case checked_succ (cs_authority_revision nxt) of
                    Some revision \<Rightarrow> if revision \<le> MAX_MEMBERSHIP_RECORD_INTEGER then Ok revision
                                     else Err RevisionExhausted
                  | None \<Rightarrow> Err RevisionExhausted) (\<lambda>revision.
        and_then (snapshot_boundary lib current) (\<lambda>b.
          authenticate lib (co_capability s)
            (nxt\<lparr>cs_authority_revision := revision, cs_parent_digest := Some (cb_digest b)\<rparr>))))"

definition sign_mutation_at ::
    "('kp, 'key, 'l) checkpoint_library \<Rightarrow> cooperative_state \<Rightarrow> node_identity \<Rightarrow> membership_change \<Rightarrow> u64 \<Rightarrow>
     (signed_mutation, checkpoint_error) result" where
  "sign_mutation_at lib s i change now =
     and_then (require_participation s now) (\<lambda>_.
     and_then (ensure (ni_peer_id i = co_local_peer s) ''not the local identity'') (\<lambda>_.
     and_then (snapshot_boundary lib (co_snapshot s)) (\<lambda>base.
     and_then (case change of
                 UpsertMember m \<Rightarrow>
                   and_then (member_validate lib m) (\<lambda>_.
                     if snapshot_member (co_snapshot s) (member_peer m) = None
                     then and_then (admission_incarnation lib (nc_anchor (co_capability s)) base (cm_subject m))
                            (\<lambda>incarnation. Ok (UpsertMember (m\<lparr>cm_incarnation := incarnation\<rparr>)))
                     else Ok change)
               | _ \<Rightarrow> Ok change) (\<lambda>change.
     and_then (publisher_from_identity lib i) (\<lambda>issuer.
     let p = \<lparr>mut_version = 1, mut_anchor = nc_anchor (co_capability s), mut_base = base,
              mut_issuer = issuer, mut_change = change\<rparr> in
     and_then (validate_mutation lib s p now) (\<lambda>_.
     and_then (changed_snapshot lib s change now) (\<lambda>_.
     and_then (checkpoint_sign lib i MUTATION_DOMAIN (JsonMutationPayload p)) (\<lambda>signature.
       Ok \<lparr>sm_payload = p, sm_signature = signature\<rparr>))))))))"

definition apply_mutation_at ::
    "('kp, 'key, 'l) checkpoint_library \<Rightarrow> cooperative_state \<Rightarrow> signed_mutation \<Rightarrow> u64 \<Rightarrow>
     (cooperative_state, checkpoint_error) result" where
  "apply_mutation_at lib s mutation now =
     (let p = sm_payload mutation in
      and_then (require_participation s now) (\<lambda>_.
      and_then (validate_mutation lib s p now) (\<lambda>_.
      and_then (field_bound (sm_signature mutation) MAX_SIGNATURE_BYTES) (\<lambda>_.
      and_then (encoded_bound lib (JsonMutation mutation) MAX_MUTATION_BYTES) (\<lambda>_.
      and_then (verify_signature lib (mut_issuer p) MUTATION_DOMAIN (JsonMutationPayload p)
                  (sm_signature mutation)) (\<lambda>_.
      and_then (changed_snapshot lib s (mut_change p) now) (\<lambda>nxt.
        Ok (s\<lparr>co_current := nxt, co_names := compatible_names (as_payload nxt) (co_names s),
              co_sync_state := participation (as_payload nxt) (co_local_peer s) now\<rparr>))))))))"

definition merge_hostname_claims ::
    "('kp, 'key, 'l) checkpoint_library \<Rightarrow> cooperative_state \<Rightarrow> signed_hostname_claim list \<Rightarrow>
     (cooperative_state, checkpoint_error) result" where
  "merge_hostname_claims lib s claims =
     and_then (validate_names lib (co_snapshot s) claims) (\<lambda>_.
     and_then (merge_names lib (co_snapshot s) (co_names s) claims) (\<lambda>names.
       Ok (s\<lparr>co_names := names\<rparr>)))"

subsection \<open>Offers and resynchronisation\<close>

definition make_offer_at ::
    "('kp, 'key, 'l) checkpoint_library \<Rightarrow> cooperative_state \<Rightarrow> snapshot_challenge \<Rightarrow> node_identity \<Rightarrow> u64 \<Rightarrow>
     (signed_snapshot_offer, checkpoint_error) result" where
  "make_offer_at lib s challenge i now =
     and_then (require_participation s now) (\<lambda>_.
     and_then (ensure (ni_peer_id i = co_local_peer s) ''not the local identity'') (\<lambda>_.
     if ch_anchor challenge \<noteq> nc_anchor (co_capability s) then Err WrongAnchor
     else
       and_then (ensure (ch_nonce challenge \<noteq> zero_array) ''empty challenge'') (\<lambda>_.
       and_then (publisher_from_identity lib i) (\<lambda>publisher.
       and_then (ensure (\<not> is_none_or (\<lambda>m. cm_subject m \<noteq> publisher)
                           (snapshot_member (co_snapshot s) (pub_peer_id publisher))) ''publisher key mismatch'') (\<lambda>_.
       let p = \<lparr>op_version = 1, op_challenge = challenge, op_snapshot = co_current s,
                op_publisher = publisher, op_hostname_claims = co_names s\<rparr> in
       and_then (checkpoint_sign lib i OFFER_DOMAIN (JsonOfferPayload p)) (\<lambda>signature.
       let offer = \<lparr>so_payload = p, so_signature = signature\<rparr> in
       and_then (offer_validate_shape lib offer) (\<lambda>_. Ok offer)))))))"

definition begin_resync ::
    "cooperative_state \<Rightarrow> instant \<Rightarrow> duration \<Rightarrow> bytes \<Rightarrow>
     (snapshot_challenge \<times> cooperative_state, checkpoint_error) result" where
  "begin_resync s now window nonce =
     and_then (ensure (\<not> (window = 0 \<or> window > MAX_RESYNC_WINDOW)) ''invalid resync window'') (\<lambda>_.
     and_then (ok_or (instant_checked_add now window) (CheckpointInvalid ''resync deadline overflow'')) (\<lambda>deadline.
     let challenge = \<lparr>ch_anchor = nc_anchor (co_capability s), ch_nonce = nonce\<rparr> in
       Ok (challenge,
           s\<lparr>co_round := Some \<lparr>rr_challenge = challenge, rr_deadline = deadline, rr_best = co_current s,
                               rr_names = co_names s, rr_observed_offer = False\<rparr>,
             co_sync_state := Resyncing\<rparr>)))"

definition collect_offer ::
    "('kp, 'key, 'l) checkpoint_library \<Rightarrow> cooperative_state \<Rightarrow> signed_snapshot_offer \<Rightarrow> 'l \<Rightarrow> instant \<Rightarrow>
     (offer_outcome \<times> cooperative_state, checkpoint_error) result" where
  "collect_offer lib s offer transport_peer now =
     (let p = so_payload offer; offered = as_payload (op_snapshot p) in
      and_then (ok_or (co_round s) NoSyncRound) (\<lambda>round.
      if now \<ge> rr_deadline round then Err SyncWindowClosed
      else if op_challenge p \<noteq> rr_challenge round then Err WrongChallenge
      else
        and_then (offer_validate_shape lib offer) (\<lambda>_.
        and_then (capability_verify lib (co_capability s) (op_snapshot p)) (\<lambda>_.
        if pub_peer_id (op_publisher p) \<noteq> libp2p_to_string (cl_identity lib) transport_peer
        then Err WrongPublisher
        else if is_none_or (\<lambda>m. cm_subject m \<noteq> op_publisher p)
                  (snapshot_member offered (pub_peer_id (op_publisher p)))
        then Err WrongPublisher
        else
          and_then (verify_signature lib (op_publisher p) OFFER_DOMAIN (JsonOfferPayload p) (so_signature offer)) (\<lambda>_.
          and_then (snapshot_rank_of lib offered) (\<lambda>rank.
          and_then (snapshot_rank_of lib (co_snapshot s)) (\<lambda>current_rank.
          if rank < current_rank then Err StaleSnapshot
          else
            and_then (snapshot_rank_of lib (as_payload (rr_best round))) (\<lambda>best_rank.
            let outcome = (if rank > best_rank then SelectedHigherRank else KeptCurrentRank);
                best = (if outcome = SelectedHigherRank then op_snapshot p else rr_best round) in
            and_then (merge_names lib (as_payload best) (compatible_names (as_payload best) (rr_names round))
                        (compatible_names (as_payload best) (op_hostname_claims p))) (\<lambda>names.
              Ok (outcome,
                  s\<lparr>co_round := Some (round\<lparr>rr_best := best, rr_names := names,
                                             rr_observed_offer := True\<rparr>)\<rparr>))))))))))"

definition rebase_live_resync_on_installed ::
    "('kp, 'key, 'l) checkpoint_library \<Rightarrow> cooperative_state \<Rightarrow> cooperative_state \<Rightarrow>
     (cooperative_state, checkpoint_error) result" where
  "rebase_live_resync_on_installed lib s installed =
     (if co_local_peer s \<noteq> co_local_peer installed \<or>
         nc_anchor (co_capability s) \<noteq> nc_anchor (co_capability installed) \<or>
         co_sync_state installed \<notin> {Participating, Excluded}
      then Err NoParticipation
      else
        and_then (capability_verify lib (co_capability s) (co_current installed)) (\<lambda>_.
        and_then (validate_names lib (co_snapshot installed) (co_names installed)) (\<lambda>_.
        and_then (snapshot_boundary lib (co_snapshot s)) (\<lambda>previous.
        if checked_succ (cb_authority_revision previous) \<noteq> Some (cs_authority_revision (co_snapshot installed)) \<or>
           cs_parent_digest (co_snapshot installed) \<noteq> Some (cb_digest previous)
        then Err StaleMutation
        else
          and_then (ok_or (co_round s) NoSyncRound) (\<lambda>round.
          and_then (snapshot_rank_of lib (co_snapshot installed)) (\<lambda>installed_rank.
          and_then (snapshot_rank_of lib (as_payload (rr_best round))) (\<lambda>best_rank.
          let best = (if installed_rank > best_rank then co_current installed else rr_best round) in
          and_then (merge_names lib (as_payload best) (compatible_names (as_payload best) (rr_names round))
                      (compatible_names (as_payload best) (co_names installed))) (\<lambda>names.
            Ok (s\<lparr>co_current := co_current installed, co_names := co_names installed,
                  co_round := Some (round\<lparr>rr_best := best, rr_names := names\<rparr>)\<rparr>)))))))))"

definition finish_resync ::
    "('kp, 'key, 'l) checkpoint_library \<Rightarrow> cooperative_state \<Rightarrow> instant \<Rightarrow> u64 \<Rightarrow>
     (branch_selection \<times> cooperative_state, checkpoint_error) result" where
  "finish_resync lib s now wall_now =
     and_then (ok_or (co_round s) NoSyncRound) (\<lambda>round.
     if now < rr_deadline round then Err SyncWindowNotElapsed
     else
       let best = as_payload (rr_best round) in
       and_then (capability_verify lib (co_capability s) (rr_best round)) (\<lambda>_.
       and_then (snapshot_boundary lib (co_snapshot s)) (\<lambda>previous.
       and_then (snapshot_boundary lib best) (\<lambda>selected.
       let added = length (filter (\<lambda>m. snapshot_member (co_snapshot s) (member_peer m) = None) (cs_members best));
           removed = length (filter (\<lambda>m. snapshot_member best (member_peer m) = None) (cs_members (co_snapshot s)));
           immediate_successor =
             (checked_succ (cb_authority_revision previous) = Some (cb_authority_revision selected) \<and>
              cs_parent_digest best = Some (cb_digest previous));
           sync_state = participation best (co_local_peer s) wall_now in
         Ok (\<lparr>bs_previous = previous, bs_selected = selected,
              bs_decisions_may_have_been_discarded = (previous \<noteq> selected \<and> \<not> immediate_successor),
              bs_added_members = added, bs_removed_members = removed,
              bs_observed_remote_offer = rr_observed_offer round, bs_sync_state = sync_state\<rparr>,
             s\<lparr>co_round := None, co_current := rr_best round, co_names := rr_names round,
               co_sync_state := sync_state\<rparr>)))))"

subsection \<open>The effective membership\<close>

definition checkpoint_effective_member ::
    "('kp, 'key, 'l) checkpoint_library \<Rightarrow> cooperative_state \<Rightarrow> checkpoint_member \<Rightarrow> 'l \<Rightarrow> 'l effective_member" where
  "checkpoint_effective_member lib s m transport_peer =
     (let grants_enabled = sp_route_grants_enabled (cs_policy (co_snapshot s)) in
      \<lparr>em_peer = overlay_peer (cl_membership lib) transport_peer, em_transport_peer = transport_peer,
       em_membership_epoch = max (cs_authority_revision (co_snapshot s)) 1, em_sequence = 0,
       em_effective_inviter_peer = None, em_original_inviter_peer = None,
       em_admitted_at = 0, em_original_admitted_at = 0,
       em_hostnames = map (\<lambda>claim. hc_hostname (sh_payload claim)) (filter (claim_matches m) (co_names s)),
       em_roles = (if grants_enabled then cm_roles m else filter (\<lambda>role. role \<noteq> RouteAuthority) (cm_roles m)),
       em_route_grants = (if grants_enabled then cm_route_grants m else [])\<rparr>)"

fun checkpoint_effective_loop ::
    "('kp, 'key, 'l) checkpoint_library \<Rightarrow> cooperative_state \<Rightarrow> u64 \<Rightarrow> (peer_id, 'l effective_member) hash_map \<Rightarrow>
     checkpoint_member list \<Rightarrow> ((peer_id, 'l effective_member) hash_map, checkpoint_error) result" where
  "checkpoint_effective_loop lib s now members [] = Ok members"
| "checkpoint_effective_loop lib s now members (m # ms) =
     (if \<not> active_at m now then checkpoint_effective_loop lib s now members ms
      else and_then (ok_or (libp2p_from_str (cl_identity lib) (member_peer m))
                       (CheckpointRecord MembershipLibp2pPeerId)) (\<lambda>transport_peer.
           let e = checkpoint_effective_member lib s m transport_peer in
             checkpoint_effective_loop lib s now (hm_insert members (em_peer e) e) ms))"

definition checkpoint_effective_membership_at ::
    "('kp, 'key, 'l) checkpoint_library \<Rightarrow> cooperative_state \<Rightarrow> u64 \<Rightarrow>
     ('l effective_membership, checkpoint_error) result" where
  "checkpoint_effective_membership_at lib s now =
     (let effective = \<lparr>eff_members = [], eff_governed_peers = {}, eff_checkpoint_authoritative = True\<rparr> in
      case require_participation s now of
        Inl _ \<Rightarrow> Ok effective
      | Inr _ \<Rightarrow> and_then (checkpoint_effective_loop lib s now [] (cs_members (co_snapshot s))) (\<lambda>members.
                   Ok (effective\<lparr>eff_members := members\<rparr>)))"

end
