(* ===== verification/Checkpoint_Facts.thy ===== *)
theory Checkpoint_Facts
  imports Checkpoint_State
begin

text \<open>
  Facts about checkpoints: the binary search finds what a linear search finds, what a validated snapshot
  guarantees, and that the operations on hostname claims keep the list of claims valid.
\<close>

subsection \<open>Binary search agrees with the list\<close>

lemma sorted_nth_less:
  assumes "sorted_wrt (<) (map key xs)" and "i < j" and "j < length xs"
  shows "key (xs ! i) < (key (xs ! j) :: 'k::linorder)"
  using assms by (auto simp: sorted_wrt_iff_nth_less)

lemma binary_search_between_result:
  fixes key :: "'a \<Rightarrow> 'k::linorder"
  assumes "sorted_wrt (<) (map key xs)" and "high \<le> length xs" and "low \<le> high"
    and "\<forall>i < low. key (xs ! i) < k" and "\<forall>i. high \<le> i \<and> i < length xs \<longrightarrow> k < key (xs ! i)"
  shows "case binary_search_between key k xs low high of
      Inr i \<Rightarrow> i < length xs \<and> key (xs ! i) = k
    | Inl i \<Rightarrow> i \<le> length xs \<and> (\<forall>j < i. key (xs ! j) < k) \<and> (\<forall>j. i \<le> j \<and> j < length xs \<longrightarrow> k < key (xs ! j))"
  using assms
proof (induction key k xs low high rule: binary_search_between.induct)
  case (1 key k xs low high)
  let ?mid = "(low + high) div 2"
  show ?case
  proof (cases "high \<le> low")
    case True
    then show ?thesis using 1(4-7) by (simp add: binary_search_between.simps)
  next
    case False
    then have mid: "low \<le> ?mid" "?mid < high" by auto
    have less: "key (xs ! i) < key (xs ! ?mid)" if "i < ?mid" for i
      using sorted_nth_less [OF 1(3) that] mid 1(4) by simp
    have greater: "key (xs ! ?mid) < key (xs ! i)" if "?mid < i" "i < length xs" for i
      using sorted_nth_less [OF 1(3) that] .
    consider "key (xs ! ?mid) = k" | "key (xs ! ?mid) < k" | "k < key (xs ! ?mid)" by fastforce
    then show ?thesis
    proof cases
      case 1
      then show ?thesis using False mid \<open>high \<le> length xs\<close>
        by (subst binary_search_between.simps) (simp add: Let_def)
    next
      case 2
      then have "\<forall>i < ?mid + 1. key (xs ! i) < k" using less by (metis less_SucE Suc_eq_plus1 less_trans)
      then show ?thesis using 2 False mid 1(1) [OF False refl] 1(3,4,7)
        by (subst binary_search_between.simps) (simp add: Let_def)
    next
      case 3
      then have "\<forall>i. ?mid \<le> i \<and> i < length xs \<longrightarrow> k < key (xs ! i)"
        using greater by (metis le_neq_implies_less less_trans)
      moreover have "\<not> key (xs ! ?mid) < k" "key (xs ! ?mid) \<noteq> k" using 3 by auto
      ultimately show ?thesis using False mid 1(2) [OF False refl] 1(3,4,6)
        by (subst binary_search_between.simps) (simp add: Let_def)
    qed
  qed
qed

lemma binary_search_result:
  assumes "sorted_wrt (<) (map key xs)"
  shows "case binary_search key k xs of
      Inr i \<Rightarrow> i < length xs \<and> key (xs ! i) = k
    | Inl i \<Rightarrow> i \<le> length xs \<and> (\<forall>j < i. key (xs ! j) < k) \<and> (\<forall>j. i \<le> j \<and> j < length xs \<longrightarrow> k < key (xs ! j))"
  unfolding binary_search_def by (rule binary_search_between_result) (use assms in auto)

lemma binary_search_OkD:
  assumes "sorted_wrt (<) (map key xs)" and "binary_search key k xs = Ok i"
  shows "i < length xs" and "key (xs ! i) = k"
  using binary_search_result [OF assms(1), of k] assms(2) by simp_all

lemma binary_search_ErrD:
  assumes "sorted_wrt (<) (map key xs)" and "binary_search key k xs = Err i"
  shows "\<forall>x \<in> set (take i xs). key x < k" and "\<forall>x \<in> set (drop i xs). k < key x"
  using binary_search_result [OF assms(1), of k] assms(2)
  by (auto simp: in_set_conv_nth)

lemma sorted_key_inj:
  assumes "sorted_wrt (<) (map key xs)" and "x \<in> set xs" and "y \<in> set xs" and "key x = (key y :: 'k::linorder)"
  shows "x = y"
  using assms strict_sorted_iff [of "map key xs"] by (metis distinct_map inj_on_def)

text \<open>Looking up with the binary search, and replacing or inserting at the place it returns.\<close>

lemma binary_search_lookup:
  assumes "sorted_wrt (<) (map key xs)"
  shows "(case binary_search key k xs of Inr i \<Rightarrow> Some (xs ! i) | Inl _ \<Rightarrow> None) = Some x \<longleftrightarrow>
    x \<in> set xs \<and> key x = k"
proof (cases "binary_search key k xs")
  case (Inl i)
  have "key x \<noteq> k" if "x \<in> set xs"
    using that binary_search_ErrD [OF assms Inl] append_take_drop_id [of i xs] by (metis Un_iff less_irrefl set_append)
  then show ?thesis using Inl by auto
next
  case (Inr i)
  then show ?thesis using binary_search_OkD [OF assms Inr] sorted_key_inj [OF assms] by auto
qed

lemma sorted_insert_at:
  assumes "sorted_wrt (<) (map key xs)" and "binary_search key (key x) xs = Err i"
  shows "sorted_wrt (<) (map key (insert_at i x xs))"
proof -
  have "sorted_wrt (<) (map key (take i xs @ drop i xs))" using assms(1) by simp
  then show ?thesis using binary_search_ErrD [OF assms]
    by (auto simp: insert_at_def sorted_wrt_append simp del: append_take_drop_id)
qed

lemma set_insert_at: "set (insert_at i x xs) = insert x (set xs)"
proof -
  have "set xs = set (take i xs) \<union> set (drop i xs)" by (metis append_take_drop_id set_append)
  then show ?thesis by (auto simp: insert_at_def)
qed

lemma sorted_replace:
  assumes "sorted_wrt (<) (map key xs)" and "binary_search key (key x) xs = Ok i"
  shows "map key (xs[i := x]) = map key xs"
    and "set (xs[i := x]) = insert x {y \<in> set xs. key y \<noteq> key x}"
proof -
  note found = binary_search_OkD [OF assms]
  show "map key (xs[i := x]) = map key xs" using found by (simp add: map_update list_update_same_conv)
  have "distinct xs" using assms(1) strict_sorted_iff distinct_map by blast
  then have "set (xs[i := x]) = insert x (set xs - {xs ! i})" using found by (simp add: set_update_distinct)
  then show "set (xs[i := x]) = insert x {y \<in> set xs. key y \<noteq> key x}"
    using found sorted_key_inj [OF assms(1), of _ "xs ! i"] by auto
qed

subsection \<open>What successful checks establish\<close>

lemma ensure_Ok_iff [simp]: "ensure ok reason = Ok u \<longleftrightarrow> ok"
  by (simp add: ensure_def)

lemma bound_Ok_iff [simp]:
  "bytes_bound bs limit = Ok u \<longleftrightarrow> length bs \<le> limit"
  "field_bound bs limit = Ok u \<longleftrightarrow> length bs \<le> limit"
  "portable v = Ok u \<longleftrightarrow> v \<le> MAX_MEMBERSHIP_RECORD_INTEGER"
  "encoded_bound lib j limit = Ok u \<longleftrightarrow> (\<exists>json. to_json lib j = Some json \<and> length json \<le> limit)"
  by (auto simp: bytes_bound_def field_bound_def portable_def encoded_bound_def and_then_Inr_iff)

definition above :: "'k::linorder option \<Rightarrow> 'k list \<Rightarrow> bool" where
  "above prev ks \<longleftrightarrow> sorted_wrt (<) ((case prev of Some l \<Rightarrow> [l] | None \<Rightarrow> []) @ ks)"

lemma above_simps [simp]:
  "above prev []"
  "above prev (k # ks) \<longleftrightarrow> \<not> is_some_and (\<lambda>l. l \<ge> k) prev \<and> above (Some k) ks"
  "above None ks \<longleftrightarrow> sorted_wrt (<) ks"
  by (auto simp: above_def split: option.splits intro: less_trans)

lemma validate_members_Ok_iff:
  "validate_members lib prev ms = Ok u \<longleftrightarrow>
     (\<forall>m \<in> set ms. member_validate lib m = Ok ()) \<and> above prev (map member_peer ms)"
  by (induction ms arbitrary: prev) (auto simp: and_then_Inr_iff)

lemma valid_snapshot_sorted:
  "snapshot_validate lib s = Ok () \<Longrightarrow> sorted_wrt (<) (map member_peer (cs_members s))"
  by (auto simp: snapshot_validate_def and_then_Inr_iff validate_members_Ok_iff)

lemma snapshot_member_iff:
  assumes "snapshot_validate lib s = Ok ()"
  shows "snapshot_member s peer = Some m \<longleftrightarrow> m \<in> set (cs_members s) \<and> member_peer m = peer"
  unfolding snapshot_member_def by (rule binary_search_lookup [OF valid_snapshot_sorted [OF assms]])

definition snapshot_digest :: "('kp, 'key, 'l) checkpoint_library \<Rightarrow> checkpoint_snapshot \<Rightarrow> bytes" where
  "snapshot_digest lib s =
     digest_sha256 (cl_identity lib) (SNAPSHOT_DOMAIN @ the (to_json lib (JsonSnapshot s)))"

definition rank_of :: "('kp, 'key, 'l) checkpoint_library \<Rightarrow> checkpoint_snapshot \<Rightarrow> snapshot_rank" where
  "rank_of lib s = SnapshotRank (cs_authority_revision s) (length (cs_members s)) (snapshot_digest lib s)"

lemma snapshot_json:
  "snapshot_validate lib s = Ok () \<Longrightarrow> \<exists>json. to_json lib (JsonSnapshot s) = Some json"
  by (auto simp: snapshot_validate_def and_then_Inr_iff)

lemma snapshot_boundary_Ok_iff:
  "snapshot_boundary lib s = Ok b \<longleftrightarrow> snapshot_validate lib s = Ok () \<and>
     b = \<lparr>cb_authority_revision = cs_authority_revision s, cb_digest = snapshot_digest lib s\<rparr>"
  using snapshot_json [of lib s]
  by (auto simp: snapshot_boundary_def checkpoint_digest_def checkpoint_message_def snapshot_digest_def
      and_then_Inr_iff)

lemma snapshot_rank_Ok_iff:
  "snapshot_rank_of lib s = Ok r \<longleftrightarrow> snapshot_validate lib s = Ok () \<and> r = rank_of lib s"
  by (auto simp: snapshot_rank_of_def and_then_Inr_iff snapshot_boundary_Ok_iff rank_of_def)

lemma capability_verify_Ok_iff:
  "capability_verify lib capability a = Ok u \<longleftrightarrow>
     cs_anchor (as_payload a) = nc_anchor capability \<and> snapshot_validate lib (as_payload a) = Ok () \<and>
     as_mac a = hmac_sha256 lib (nc_mac_key capability)
                  (SNAPSHOT_DOMAIN @ the (to_json lib (JsonSnapshot (as_payload a))))"
  using snapshot_json [of lib "as_payload a"]
  by (cases "to_json lib (JsonSnapshot (as_payload a))"; cases "snapshot_validate lib (as_payload a)")
    (auto simp: capability_verify_def validate_scope_def checkpoint_message_def)

lemma authenticate_Ok:
  assumes "authenticate lib capability s = Ok a"
  shows "as_payload a = s" and "capability_verify lib capability a = Ok ()"
  using assms unfolding capability_verify_Ok_iff
  by (auto simp: authenticate_def validate_scope_def checkpoint_message_def and_then_Inr_iff
      split: if_splits)

subsection \<open>Hostname claims\<close>

lemma validate_claims_Ok_iff:
  "validate_claims lib s prev names = Ok u \<longleftrightarrow>
     (\<forall>c \<in> set names. hostname_claim_verify lib c s = Ok ()) \<and> above prev (map claim_peer names)"
  by (induction names arbitrary: prev) (auto simp: and_then_Inr_iff)

lemma hostname_claim_verify_Ok_iff:
  "hostname_claim_verify lib c s = Ok u \<longleftrightarrow>
     validate_hostname_payload lib (sh_payload c) = Ok () \<and> hc_anchor (sh_payload c) = cs_anchor s \<and>
     (\<exists>m. snapshot_member s (claim_peer c) = Some m \<and> claim_matches m c) \<and>
     verify_signature lib (hc_subject (sh_payload c)) HOSTNAME_DOMAIN (JsonHostnamePayload (sh_payload c))
       (sh_signature c) = Ok ()"
  by (auto simp: hostname_claim_verify_def Let_def and_then_Inr_iff split: if_splits)

text \<open>On a valid snapshot the bounds on the number of claims follow from their order.\<close>

lemma validate_names_Ok_iff:
  assumes valid: "snapshot_validate lib s = Ok ()"
  shows "validate_names lib s names = Ok u \<longleftrightarrow>
    (\<forall>c \<in> set names. hostname_claim_verify lib c s = Ok ()) \<and> sorted_wrt (<) (map claim_peer names)"
proof -
  have "length names \<le> length (cs_members s)"
    if claims: "\<forall>c \<in> set names. hostname_claim_verify lib c s = Ok ()" and "sorted_wrt (<) (map claim_peer names)"
  proof -
    have "distinct (map claim_peer names)" using that(2) strict_sorted_iff by blast
    then have "length names = card (claim_peer ` set names)" by (metis distinct_card length_map set_map)
    also have "\<dots> \<le> card (member_peer ` set (cs_members s))"
      using claims snapshot_member_iff [OF valid]
      by (intro card_mono) (force simp: hostname_claim_verify_Ok_iff image_iff)+
    also have "\<dots> \<le> length (cs_members s)" using card_image_le card_length le_trans by blast
    finally show ?thesis .
  qed
  moreover have "length (cs_members s) \<le> MAX_CHECKPOINT_MEMBERS"
    using valid by (auto simp: snapshot_validate_def and_then_Inr_iff)
  ultimately show ?thesis
    by (fastforce simp: validate_names_def and_then_Inr_iff validate_claims_Ok_iff)
qed

lemma compatible_names_valid:
  assumes "snapshot_validate lib s = Ok ()" and "validate_names lib s names = Ok ()"
    and "snapshot_validate lib t = Ok ()" and "cs_anchor t = cs_anchor s"
  shows "validate_names lib t (compatible_names t names) = Ok ()"
  using assms(2-) unfolding validate_names_Ok_iff [OF assms(1)] validate_names_Ok_iff [OF assms(3)]
  by (auto simp: compatible_names_def hostname_claim_verify_Ok_iff is_some_and_def
      sorted_wrt_map sorted_wrt_filter split: option.splits)

lemma merge_claim_sorted:
  assumes "sorted_wrt (<) (map claim_peer names)"
  shows "sorted_wrt (<) (map claim_peer (merge_claim names c))"
    and "set (merge_claim names c) \<subseteq> insert c (set names)"
proof -
  note cases = sorted_insert_at [OF assms, of c] sorted_replace [OF assms, of c]
  show "sorted_wrt (<) (map claim_peer (merge_claim names c))"
    using assms cases by (auto simp: merge_claim_def Let_def split: sum.splits)
  show "set (merge_claim names c) \<subseteq> insert c (set names)"
    using cases by (auto simp: merge_claim_def Let_def set_insert_at split: sum.splits if_splits)
qed

lemma merge_names_valid:
  assumes valid: "snapshot_validate lib s = Ok ()" and merged: "merge_names lib s current incoming = Ok names"
  shows "validate_names lib s names = Ok ()"
proof -
  have "(\<forall>c \<in> set (foldl merge_claim ns cs). hostname_claim_verify lib c s = Ok ()) \<and>
      sorted_wrt (<) (map claim_peer (foldl merge_claim ns cs))"
    if "\<forall>c \<in> set ns. hostname_claim_verify lib c s = Ok ()" "sorted_wrt (<) (map claim_peer ns)"
      "\<forall>c \<in> set cs. hostname_claim_verify lib c s = Ok ()" for ns cs
    using that
  proof (induction cs arbitrary: ns)
    case (Cons c cs)
    note step = merge_claim_sorted [OF Cons.prems(2), of c]
    have "\<forall>d \<in> set (merge_claim ns c). hostname_claim_verify lib d s = Ok ()" using step(2) Cons.prems by auto
    from Cons.IH [OF this step(1)] Cons.prems show ?case by simp
  qed simp
  then show ?thesis using merged
    by (auto simp: merge_names_def and_then_Inr_iff validate_names_Ok_iff [OF valid])
qed

end
