(* ===== verification/Checkpoint_Safety.thy ===== *)
theory Checkpoint_Safety
  imports Checkpoint_Facts
begin

text \<open>
  Properties of the cooperative membership state over runs of its operations: it always holds a snapshot
  that the network capability authenticates, its rank never goes back, a resynchronisation selects the
  highest rank it was offered, and a mutation changes the roster as its issuer stated.
\<close>

subsection \<open>Steps and the invariant\<close>

definition round_ok :: "('kp, 'key, 'l) checkpoint_library \<Rightarrow> cooperative_state \<Rightarrow> resync_round \<Rightarrow> bool" where
  "round_ok lib s round \<longleftrightarrow>
     capability_verify lib (co_capability s) (rr_best round) = Ok () \<and>
     validate_names lib (as_payload (rr_best round)) (rr_names round) = Ok () \<and>
     rank_of lib (co_snapshot s) \<le> rank_of lib (as_payload (rr_best round))"

definition cooperative_inv :: "('kp, 'key, 'l) checkpoint_library \<Rightarrow> cooperative_state \<Rightarrow> bool" where
  "cooperative_inv lib s \<longleftrightarrow>
     validate_local_peer lib (co_local_peer s) = Ok () \<and>
     capability_verify lib (co_capability s) (co_current s) = Ok () \<and>
     validate_names lib (co_snapshot s) (co_names s) = Ok () \<and>
     (co_sync_state s = Participating \<longrightarrow> snapshot_member (co_snapshot s) (co_local_peer s) \<noteq> None) \<and>
     (co_sync_state s = Resyncing \<longleftrightarrow> co_round s \<noteq> None) \<and>
     (\<forall>round. co_round s = Some round \<longrightarrow> round_ok lib s round)"

inductive cooperative_start ::
    "('kp, 'key, 'l) checkpoint_library \<Rightarrow> cooperative_state \<Rightarrow> bool" for lib where
  bootstrap: "bootstrap_at lib capability local_peer members policy now = Ok s \<Longrightarrow> cooperative_start lib s"
| migrate: "migrate_trusted_legacy_at lib capability local_peer records network now = Ok s \<Longrightarrow>
    cooperative_start lib s"
| restore: "restore lib capability local_peer state = Ok s \<Longrightarrow> cooperative_start lib s"

inductive cooperative_step ::
    "('kp, 'key, 'l) checkpoint_library \<Rightarrow> cooperative_state \<Rightarrow> cooperative_state \<Rightarrow> bool" for lib s where
  mutation: "apply_mutation_at lib s mutation now = Ok s' \<Longrightarrow> cooperative_step lib s s'"
| hostnames: "merge_hostname_claims lib s claims = Ok s' \<Longrightarrow> cooperative_step lib s s'"
| begin_round: "begin_resync s now window nonce = Ok (challenge, s') \<Longrightarrow> cooperative_step lib s s'"
| offer: "collect_offer lib s offer peer now = Ok (outcome, s') \<Longrightarrow> cooperative_step lib s s'"
| rebase: "rebase_live_resync_on_installed lib s installed = Ok s' \<Longrightarrow> cooperative_step lib s s'"
| finish_round: "finish_resync lib s now wall_now = Ok (selection, s') \<Longrightarrow> cooperative_step lib s s'"

inductive cooperative_run ::
    "('kp, 'key, 'l) checkpoint_library \<Rightarrow> cooperative_state \<Rightarrow> bool" for lib where
  started: "cooperative_start lib s \<Longrightarrow> cooperative_run lib s"
| stepped: "cooperative_run lib s \<Longrightarrow> cooperative_step lib s s' \<Longrightarrow> cooperative_run lib s'"

lemma verified_valid:
  "capability_verify lib capability a = Ok () \<Longrightarrow> snapshot_validate lib (as_payload a) = Ok ()"
  by (simp add: capability_verify_Ok_iff)

lemma participation_member: "participation s peer now = Participating \<Longrightarrow> snapshot_member s peer \<noteq> None"
  by (auto simp: participation_def is_some_and_def split: if_splits option.splits)

lemma participation_not_resyncing: "participation s peer now \<noteq> Resyncing"
  by (simp add: participation_def)

lemma cooperative_invD:
  assumes "cooperative_inv lib s"
  shows "capability_verify lib (co_capability s) (co_current s) = Ok ()"
    and "snapshot_validate lib (co_snapshot s) = Ok ()"
    and "cs_anchor (co_snapshot s) = nc_anchor (co_capability s)"
    and "validate_names lib (co_snapshot s) (co_names s) = Ok ()"
    and "co_round s = Some round \<Longrightarrow> round_ok lib s round"
  using assms by (auto simp: cooperative_inv_def capability_verify_Ok_iff)

lemma round_okD:
  assumes "round_ok lib s round"
  shows "snapshot_validate lib (as_payload (rr_best round)) = Ok ()"
    and "cs_anchor (as_payload (rr_best round)) = nc_anchor (co_capability s)"
    and "capability_verify lib (co_capability s) (rr_best round) = Ok ()"
    and "validate_names lib (as_payload (rr_best round)) (rr_names round) = Ok ()"
    and "rank_of lib (co_snapshot s) \<le> rank_of lib (as_payload (rr_best round))"
  using assms by (auto simp: round_ok_def capability_verify_Ok_iff)

lemma bootstrap_inv:
  assumes "bootstrap_at lib capability local_peer members policy now = Ok s"
  shows "cooperative_inv lib s"
proof -
  from assms obtain a snapshot where "authenticate lib capability snapshot = Ok a"
    and "validate_local_peer lib local_peer = Ok ()"
    and s: "s = \<lparr>co_capability = capability, co_local_peer = local_peer, co_current = a, co_names = [],
           co_sync_state = participation (as_payload a) local_peer now, co_round = None\<rparr>"
    by (auto simp: bootstrap_at_def and_then_Inr_iff)
  moreover note authenticate_Ok(2) [OF this(1)]
  moreover from verified_valid [OF this] have "validate_names lib (as_payload a) [] = Ok ()"
    by (simp add: validate_names_Ok_iff)
  ultimately show ?thesis
    by (simp add: cooperative_inv_def participation_member participation_not_resyncing)
qed

lemma cooperative_start_inv: "cooperative_start lib s \<Longrightarrow> cooperative_inv lib s"
proof (induction rule: cooperative_start.induct)
  case migrate
  then show ?case by (auto simp: migrate_trusted_legacy_at_def and_then_Inr_iff intro: bootstrap_inv)
next
  case restore
  then show ?case by (auto simp: restore_def and_then_Inr_iff cooperative_inv_def)
qed (rule bootstrap_inv)

subsection \<open>Mutations\<close>

lemma checked_succ_Some: "checked_succ n = Some n' \<Longrightarrow> n < n' \<and> unat n' = unat n + 1"
  by (auto simp: unat_plus_one checked_succ_def word_less_nat_alt split: if_splits)

lemma rank_less_revision: "cs_authority_revision s < cs_authority_revision t \<Longrightarrow> rank_of lib s < rank_of lib t"
  by (simp add: less_snapshot_rank_def rank_key_def rank_of_def)

lemma change_snapshot_fields [simp]:
  "cs_anchor (change_snapshot s change now) = cs_anchor s"
  "cs_version (change_snapshot s change now) = cs_version s"
  "cs_authority_revision (change_snapshot s change now) = cs_authority_revision s"
  by (cases change; simp)+

lemma changed_snapshot_Ok:
  assumes "changed_snapshot lib s change now = Ok a"
  shows "capability_verify lib (co_capability s) a = Ok ()"
    and "cs_members (as_payload a) = cs_members (change_snapshot (co_snapshot s) change now)"
    and "cs_policy (as_payload a) = cs_policy (change_snapshot (co_snapshot s) change now)"
    and "cs_anchor (as_payload a) = cs_anchor (co_snapshot s)"
    and "cs_parent_digest (as_payload a) = Some (snapshot_digest lib (co_snapshot s))"
    and "checked_succ (cs_authority_revision (co_snapshot s)) = Some (cs_authority_revision (as_payload a))"
proof -
  let ?nxt = "change_snapshot (co_snapshot s) change now"
  from assms obtain revision where "checked_succ (cs_authority_revision (co_snapshot s)) = Some revision"
    and a: "authenticate lib (co_capability s)
      (?nxt\<lparr>cs_authority_revision := revision, cs_parent_digest := Some (snapshot_digest lib (co_snapshot s))\<rparr>) = Ok a"
    by (auto simp: changed_snapshot_def Let_def and_then_Inr_iff snapshot_boundary_Ok_iff
        split: if_splits option.splits)
  with authenticate_Ok [OF a]
  show "capability_verify lib (co_capability s) a = Ok ()"
    and "cs_members (as_payload a) = cs_members ?nxt" and "cs_policy (as_payload a) = cs_policy ?nxt"
    and "cs_anchor (as_payload a) = cs_anchor (co_snapshot s)"
    and "cs_parent_digest (as_payload a) = Some (snapshot_digest lib (co_snapshot s))"
    and "checked_succ (cs_authority_revision (co_snapshot s)) = Some (cs_authority_revision (as_payload a))"
    by simp_all
qed

lemma apply_mutation_Ok:
  assumes "apply_mutation_at lib s mutation now = Ok s'"
  obtains a where "changed_snapshot lib s (mut_change (sm_payload mutation)) now = Ok a"
    and "validate_mutation lib s (sm_payload mutation) now = Ok ()"
    and "verify_signature lib (mut_issuer (sm_payload mutation)) MUTATION_DOMAIN
           (JsonMutationPayload (sm_payload mutation)) (sm_signature mutation) = Ok ()"
    and "co_sync_state s = Participating"
    and "s' = s\<lparr>co_current := a, co_names := compatible_names (as_payload a) (co_names s),
              co_sync_state := participation (as_payload a) (co_local_peer s) now\<rparr>"
  using assms by (auto simp: apply_mutation_at_def require_participation_def Let_def and_then_Inr_iff
      split: if_splits)

lemma apply_mutation_step:
  assumes inv: "cooperative_inv lib s" and "apply_mutation_at lib s mutation now = Ok s'"
  shows "cooperative_inv lib s'" and "rank_of lib (co_snapshot s) < rank_of lib (co_snapshot s')"
proof -
  from assms(2) obtain a where a: "changed_snapshot lib s (mut_change (sm_payload mutation)) now = Ok a"
    and "co_sync_state s = Participating"
    and s': "s' = s\<lparr>co_current := a, co_names := compatible_names (as_payload a) (co_names s),
              co_sync_state := participation (as_payload a) (co_local_peer s) now\<rparr>"
    by (rule apply_mutation_Ok)
  note next_snapshot = changed_snapshot_Ok [OF a] and old = cooperative_invD [OF inv]
  have "validate_names lib (as_payload a) (compatible_names (as_payload a) (co_names s)) = Ok ()"
    by (rule compatible_names_valid [OF old(2,4) verified_valid [OF next_snapshot(1)]]) (rule next_snapshot)
  moreover have "co_round s = None" using inv \<open>co_sync_state s = Participating\<close> by (auto simp: cooperative_inv_def)
  ultimately show "cooperative_inv lib s'"
    using inv next_snapshot(1) by (simp add: s' cooperative_inv_def participation_member participation_not_resyncing)
  show "rank_of lib (co_snapshot s) < rank_of lib (co_snapshot s')"
    using checked_succ_Some [OF next_snapshot(6)] by (simp add: s' rank_less_revision)
qed

subsection \<open>Resynchronisation\<close>

text \<open>
  The names a round keeps when it selects a snapshot can always be merged: both lists are made
  compatible with the snapshot first.
\<close>

lemma merged_names:
  assumes "snapshot_validate lib s = Ok ()" "validate_names lib s names = Ok ()"
    and "snapshot_validate lib t = Ok ()" "validate_names lib t claims = Ok ()"
    and "snapshot_validate lib u = Ok ()" and "cs_anchor u = cs_anchor s" "cs_anchor u = cs_anchor t"
  obtains merged where "merge_names lib u (compatible_names u names) (compatible_names u claims) = Ok merged"
    and "validate_names lib u merged = Ok ()"
proof -
  have "validate_names lib u (compatible_names u names) = Ok ()"
    "validate_names lib u (compatible_names u claims) = Ok ()"
    using compatible_names_valid assms by metis+
  then have merged: "merge_names lib u (compatible_names u names) (compatible_names u claims) =
      Ok (foldl merge_claim (compatible_names u names) (compatible_names u claims))"
    by (simp add: merge_names_def)
  show thesis by (rule that [OF merged merge_names_valid [OF assms(5) merged]])
qed

text \<open>Whether an offer is accepted does not depend on what the round has collected.\<close>

definition offer_acceptable ::
    "('kp, 'key, 'l) checkpoint_library \<Rightarrow> network_capability \<Rightarrow> checkpoint_snapshot \<Rightarrow> snapshot_challenge \<Rightarrow>
     instant \<Rightarrow> signed_snapshot_offer \<Rightarrow> 'l \<Rightarrow> instant \<Rightarrow> bool" where
  "offer_acceptable lib capability current challenge deadline offer transport_peer now \<longleftrightarrow>
     (let p = so_payload offer; offered = as_payload (op_snapshot p) in
      now < deadline \<and> op_challenge p = challenge \<and> offer_validate_shape lib offer = Ok () \<and>
      capability_verify lib capability (op_snapshot p) = Ok () \<and>
      pub_peer_id (op_publisher p) = libp2p_to_string (cl_identity lib) transport_peer \<and>
      is_some_and (\<lambda>m. cm_subject m = op_publisher p) (snapshot_member offered (pub_peer_id (op_publisher p))) \<and>
      verify_signature lib (op_publisher p) OFFER_DOMAIN (JsonOfferPayload p) (so_signature offer) = Ok () \<and>
      rank_of lib current \<le> rank_of lib offered)"

lemma is_none_or_iff: "is_none_or p x \<longleftrightarrow> \<not> is_some_and (\<lambda>a. \<not> p a) x"
  by (cases x) auto

lemma collect_offer_Ok_iff:
  assumes inv: "cooperative_inv lib s" and round: "co_round s = Some round"
  shows "collect_offer lib s offer peer now = Ok (outcome, s') \<longleftrightarrow>
    offer_acceptable lib (co_capability s) (co_snapshot s) (rr_challenge round) (rr_deadline round) offer peer now \<and>
    (let best = (if rank_of lib (as_payload (rr_best round)) < rank_of lib (as_payload (op_snapshot (so_payload offer)))
                 then op_snapshot (so_payload offer) else rr_best round) in
     outcome = (if rank_of lib (as_payload (rr_best round)) < rank_of lib (as_payload (op_snapshot (so_payload offer)))
                then SelectedHigherRank else KeptCurrentRank) \<and>
     (\<exists>names. merge_names lib (as_payload best) (compatible_names (as_payload best) (rr_names round))
          (compatible_names (as_payload best) (op_hostname_claims (so_payload offer))) = Ok names \<and>
       s' = s\<lparr>co_round := Some (round\<lparr>rr_best := best, rr_names := names, rr_observed_offer := True\<rparr>)\<rparr>))"
proof -
  note [simp] = snapshot_rank_Ok_iff cooperative_invD(2) [OF inv] round_okD(1) [OF cooperative_invD(5) [OF inv round]]
  show ?thesis
    unfolding collect_offer_def offer_acceptable_def Let_def round
    by (auto simp: and_then_Inr_iff is_none_or_iff not_less not_le dest: verified_valid split: if_splits)
qed

lemma selected_names:
  assumes inv: "cooperative_inv lib s" and round: "co_round s = Some round"
    and other: "capability_verify lib (co_capability s) other = Ok ()" "validate_names lib (as_payload other) claims = Ok ()"
    and best: "best = rr_best round \<or> best = other"
  obtains names where "merge_names lib (as_payload best) (compatible_names (as_payload best) (rr_names round))
      (compatible_names (as_payload best) claims) = Ok names"
    and "validate_names lib (as_payload best) names = Ok ()"
    and "capability_verify lib (co_capability s) best = Ok ()"
proof -
  note ok = round_okD [OF cooperative_invD(5) [OF inv round]]
  have anchor: "cs_anchor (as_payload other) = nc_anchor (co_capability s)"
    using other(1) by (simp add: capability_verify_Ok_iff)
  show thesis
    by (rule merged_names [OF ok(1,4) verified_valid [OF other(1)] other(2), of "as_payload best"])
      (use best ok anchor other(1) verified_valid that in auto)
qed

lemma collect_offer_step:
  assumes inv: "cooperative_inv lib s" and collected: "collect_offer lib s offer peer now = Ok (outcome, s')"
  shows "cooperative_inv lib s'" and "co_current s' = co_current s"
proof -
  from collected obtain round where round: "co_round s = Some round"
    by (auto simp: collect_offer_def Let_def and_then_Inr_iff)
  note result = collected [unfolded collect_offer_Ok_iff [OF inv round] Let_def]
  show "co_current s' = co_current s" using result by auto
  let ?other = "op_snapshot (so_payload offer)" and ?claims = "op_hostname_claims (so_payload offer)"
  define best where "best = (if rank_of lib (as_payload (rr_best round)) < rank_of lib (as_payload ?other)
    then ?other else rr_best round)"
  have other: "capability_verify lib (co_capability s) ?other = Ok ()"
    "validate_names lib (as_payload ?other) ?claims = Ok ()"
    using result by (auto simp: offer_acceptable_def offer_validate_shape_def Let_def and_then_Inr_iff)
  have ranks: "rank_of lib (co_snapshot s) \<le> rank_of lib (as_payload best)"
    using result round_okD(5) [OF cooperative_invD(5) [OF inv round]]
    by (auto simp: best_def offer_acceptable_def Let_def)
  have "best = rr_best round \<or> best = ?other" by (simp add: best_def)
  then obtain names where
    names: "merge_names lib (as_payload best) (compatible_names (as_payload best) (rr_names round))
      (compatible_names (as_payload best) ?claims) = Ok names"
      "validate_names lib (as_payload best) names = Ok ()" "capability_verify lib (co_capability s) best = Ok ()"
    by (rule selected_names [OF inv round other])
  have "s' = s\<lparr>co_round := Some (round\<lparr>rr_best := best, rr_names := names, rr_observed_offer := True\<rparr>)\<rparr>"
    using result names(1) by (auto simp: best_def)
  then show "cooperative_inv lib s'" using inv round names ranks by (simp add: cooperative_inv_def round_ok_def)
qed

text \<open>An acceptable offer is never refused: its hostname claims cannot get in the way.\<close>

lemma collect_offer_total:
  assumes inv: "cooperative_inv lib s" and round: "co_round s = Some round"
    and acceptable: "offer_acceptable lib (co_capability s) (co_snapshot s) (rr_challenge round) (rr_deadline round) offer peer now"
  shows "\<exists>outcome s'. collect_offer lib s offer peer now = Ok (outcome, s')"
proof -
  let ?other = "op_snapshot (so_payload offer)" and ?claims = "op_hostname_claims (so_payload offer)"
  let ?best = "if rank_of lib (as_payload (rr_best round)) < rank_of lib (as_payload ?other) then ?other else rr_best round"
  have "capability_verify lib (co_capability s) ?other = Ok ()" "validate_names lib (as_payload ?other) ?claims = Ok ()"
    using acceptable by (auto simp: offer_acceptable_def offer_validate_shape_def Let_def and_then_Inr_iff)
  from selected_names [OF inv round this, of ?best] obtain names where
    "merge_names lib (as_payload ?best) (compatible_names (as_payload ?best) (rr_names round))
      (compatible_names (as_payload ?best) ?claims) = Ok names"
    by (metis (full_types))
  with acceptable show ?thesis unfolding collect_offer_Ok_iff [OF inv round] Let_def by blast
qed

lemma rebase_step:
  assumes inv: "cooperative_inv lib s" and rebased: "rebase_live_resync_on_installed lib s installed = Ok s'"
  shows "cooperative_inv lib s'" and "rank_of lib (co_snapshot s) < rank_of lib (co_snapshot s')"
proof -
  note [simp] = snapshot_rank_Ok_iff snapshot_boundary_Ok_iff cooperative_invD(2) [OF inv]
  from rebased obtain round where round: "co_round s = Some round"
    by (auto simp: rebase_live_resync_on_installed_def Let_def and_then_Inr_iff split: if_splits)
  note ok = round_okD [OF cooperative_invD(5) [OF inv round]]
  define best where "best = (if rank_of lib (as_payload (rr_best round)) < rank_of lib (co_snapshot installed)
    then co_current installed else rr_best round)"
  from rebased ok(1) have other: "capability_verify lib (co_capability s) (co_current installed) = Ok ()"
      "validate_names lib (co_snapshot installed) (co_names installed) = Ok ()"
    and succ: "checked_succ (cs_authority_revision (co_snapshot s)) = Some (cs_authority_revision (co_snapshot installed))"
    by (auto simp: rebase_live_resync_on_installed_def Let_def and_then_Inr_iff split: if_splits)
  have "best = rr_best round \<or> best = co_current installed" by (simp add: best_def)
  then obtain names where
    names: "merge_names lib (as_payload best) (compatible_names (as_payload best) (rr_names round))
      (compatible_names (as_payload best) (co_names installed)) = Ok names"
      "validate_names lib (as_payload best) names = Ok ()" "capability_verify lib (co_capability s) best = Ok ()"
    by (rule selected_names [OF inv round other])
  have s': "s' = s\<lparr>co_current := co_current installed, co_names := co_names installed,
      co_round := Some (round\<lparr>rr_best := best, rr_names := names\<rparr>)\<rparr>"
    using rebased names(1) round ok(1) unfolding best_def
    by (auto simp: rebase_live_resync_on_installed_def Let_def and_then_Inr_iff split: if_splits)
  have "rank_of lib (co_snapshot installed) \<le> rank_of lib (as_payload best)" by (simp add: best_def not_less)
  moreover have "co_sync_state s = Resyncing" using inv round by (simp add: cooperative_inv_def)
  ultimately show "cooperative_inv lib s'"
    using inv names other by (simp add: s' cooperative_inv_def round_ok_def)
  show "rank_of lib (co_snapshot s) < rank_of lib (co_snapshot s')"
    using checked_succ_Some [OF succ] by (simp add: s' rank_less_revision)
qed

lemma finish_resync_Ok:
  assumes inv: "cooperative_inv lib s" and "finish_resync lib s now wall_now = Ok (selection, s')"
  obtains round where "co_round s = Some round"
    and "s' = s\<lparr>co_round := None, co_current := rr_best round, co_names := rr_names round,
               co_sync_state := participation (as_payload (rr_best round)) (co_local_peer s) wall_now\<rparr>"
  using assms(2) by (auto simp: finish_resync_def Let_def and_then_Inr_iff split: if_splits)

lemma finish_resync_total:
  assumes inv: "cooperative_inv lib s" and round: "co_round s = Some round" and "rr_deadline round \<le> now"
  shows "\<exists>selection s'. finish_resync lib s now wall_now = Ok (selection, s')"
proof -
  note ok = round_okD [OF cooperative_invD(5) [OF inv round]]
  have "\<exists>b. snapshot_boundary lib (co_snapshot s) = Ok b" "\<exists>b. snapshot_boundary lib (as_payload (rr_best round)) = Ok b"
    using cooperative_invD(2) [OF inv] ok(1) by (simp_all add: snapshot_boundary_Ok_iff)
  then show ?thesis using assms(3) ok(3) round by (auto simp: finish_resync_def Let_def)
qed

lemma cooperative_step_inv:
  assumes "cooperative_inv lib s" and "cooperative_step lib s s'"
  shows "cooperative_inv lib s' \<and> rank_of lib (co_snapshot s) \<le> rank_of lib (co_snapshot s') \<and>
    co_capability s' = co_capability s \<and> co_local_peer s' = co_local_peer s"
  using assms(2)
proof cases
  case (mutation mutation now)
  have "co_capability s' = co_capability s \<and> co_local_peer s' = co_local_peer s"
    using mutation by (auto elim!: apply_mutation_Ok)
  with apply_mutation_step [OF assms(1) mutation] show ?thesis by simp
next
  case (hostnames claims)
  then show ?thesis using assms(1) cooperative_invD(2) [OF assms(1)]
    by (auto simp: merge_hostname_claims_def and_then_Inr_iff cooperative_inv_def round_ok_def merge_names_valid)
next
  case (begin_round now window nonce challenge)
  then show ?thesis using assms(1)
    by (auto simp: begin_resync_def Let_def and_then_Inr_iff cooperative_inv_def round_ok_def)
next
  case (offer offer peer now outcome)
  have "co_capability s' = co_capability s \<and> co_local_peer s' = co_local_peer s"
    using offer by (auto simp: collect_offer_def Let_def and_then_Inr_iff split: if_splits)
  with collect_offer_step [OF assms(1) offer] show ?thesis by simp
next
  case (rebase installed)
  have "co_capability s' = co_capability s \<and> co_local_peer s' = co_local_peer s"
    using rebase by (auto simp: rebase_live_resync_on_installed_def Let_def and_then_Inr_iff split: if_splits)
  with rebase_step [OF assms(1) rebase] show ?thesis by simp
next
  case (finish_round now wall_now selection)
  then obtain round where round: "co_round s = Some round"
    and "s' = s\<lparr>co_round := None, co_current := rr_best round, co_names := rr_names round,
               co_sync_state := participation (as_payload (rr_best round)) (co_local_peer s) wall_now\<rparr>"
    by (rule finish_resync_Ok [OF assms(1)])
  with round_okD [OF cooperative_invD(5) [OF assms(1) round]] assms(1) show ?thesis
    by (simp add: cooperative_inv_def participation_member participation_not_resyncing)
qed

lemma cooperative_run_inv: "cooperative_run lib s \<Longrightarrow> cooperative_inv lib s"
  by (induction rule: cooperative_run.induct) (auto simp: cooperative_start_inv dest: cooperative_step_inv)

end
