(* ===== verification/Checkpoint_Convergence.thy ===== *)
theory Checkpoint_Convergence
  imports Checkpoint_Safety
begin

text \<open>
  What the checkpoint state promises: authority never goes back, resynchronising replicas converge, and
  a mutation acts on the roster as a map from peers to members, the same at every replica.
\<close>

subsection \<open>Authority over time\<close>

lemma cooperative_steps_inv:
  assumes "(cooperative_step lib)\<^sup>*\<^sup>* s s'" and "cooperative_inv lib s"
  shows "cooperative_inv lib s' \<and> rank_of lib (co_snapshot s) \<le> rank_of lib (co_snapshot s') \<and>
    co_capability s' = co_capability s"
  using assms
proof (induction rule: rtranclp_induct)
  case (step t u)
  then show ?case using cooperative_step_inv [of lib t u] by auto
qed simp

text \<open>
  C35: whatever mutations, hostname claims, offers, rebases and resynchronisation rounds a node
  processes, the snapshot it holds is one that the network capability authenticates and that passes
  validation, its hostname claims are valid for that snapshot, and the rank of the snapshot never
  decreases; in particular the authority revision never goes back.
\<close>

theorem checkpoint_authority_never_goes_back:
  assumes "cooperative_run lib s" and "(cooperative_step lib)\<^sup>*\<^sup>* s s'"
  shows "capability_verify lib (co_capability s) (co_current s') = Ok () \<and>
    snapshot_validate lib (co_snapshot s') = Ok () \<and>
    validate_names lib (co_snapshot s') (co_names s') = Ok () \<and>
    snapshot_rank_of lib (co_snapshot s) = Ok (rank_of lib (co_snapshot s)) \<and>
    snapshot_rank_of lib (co_snapshot s') = Ok (rank_of lib (co_snapshot s')) \<and>
    rank_of lib (co_snapshot s) \<le> rank_of lib (co_snapshot s') \<and>
    cs_authority_revision (co_snapshot s) \<le> cs_authority_revision (co_snapshot s')"
proof -
  note inv = cooperative_run_inv [OF assms(1)]
  note after = cooperative_steps_inv [OF assms(2) inv]
  then have "cooperative_inv lib s'" by simp
  from cooperative_invD [OF inv] cooperative_invD [OF this] after show ?thesis
    by (auto simp: snapshot_rank_Ok_iff less_eq_snapshot_rank_def rank_key_def rank_of_def)
qed

subsection \<open>Resynchronisation\<close>

text \<open>A node takes the offers that arrive, each from a transport peer at an instant, and skips those it rejects.\<close>

fun collect_offers ::
    "('kp, 'key, 'l) checkpoint_library \<Rightarrow> cooperative_state \<Rightarrow> (signed_snapshot_offer \<times> 'l \<times> instant) list \<Rightarrow>
     cooperative_state" where
  "collect_offers lib s [] = s"
| "collect_offers lib s ((offer, peer, now) # rest) =
     collect_offers lib (case collect_offer lib s offer peer now of Inr (_, s') \<Rightarrow> s' | Inl _ \<Rightarrow> s) rest"

definition offered_snapshots ::
    "('kp, 'key, 'l) checkpoint_library \<Rightarrow> cooperative_state \<Rightarrow> snapshot_challenge \<Rightarrow> instant \<Rightarrow>
     (signed_snapshot_offer \<times> 'l \<times> instant) list \<Rightarrow> checkpoint_snapshot set" where
  "offered_snapshots lib s challenge deadline offers =
     {as_payload (op_snapshot (so_payload offer)) |offer peer now. (offer, peer, now) \<in> set offers \<and>
        offer_acceptable lib (co_capability s) (co_snapshot s) challenge deadline offer peer now}"

text \<open>The snapshots a round chooses from: the node's own and those of the acceptable offers.\<close>

definition round_candidates ::
    "('kp, 'key, 'l) checkpoint_library \<Rightarrow> cooperative_state \<Rightarrow> (signed_snapshot_offer \<times> 'l \<times> instant) list \<Rightarrow>
     checkpoint_snapshot set" where
  "round_candidates lib s offers =
     (case co_round s of
        None \<Rightarrow> {}
      | Some round \<Rightarrow> insert (as_payload (rr_best round))
          (offered_snapshots lib s (rr_challenge round) (rr_deadline round) offers))"

definition highest :: "('kp, 'key, 'l) checkpoint_library \<Rightarrow> checkpoint_snapshot set \<Rightarrow> checkpoint_snapshot \<Rightarrow> bool" where
  "highest lib candidates s \<longleftrightarrow> s \<in> candidates \<and> (\<forall>t \<in> candidates. rank_of lib t \<le> rank_of lib s)"

lemma collect_offer_candidates:
  assumes inv: "cooperative_inv lib s" and round: "co_round s = Some round"
    and s': "s' = (case collect_offer lib s offer peer now of Inr (_, s') \<Rightarrow> s' | Inl _ \<Rightarrow> s)"
  shows "cooperative_inv lib s'" and "\<exists>round'. co_round s' = Some round' \<and> rr_deadline round' = rr_deadline round"
    and "highest lib (round_candidates lib s' rest) t \<Longrightarrow> highest lib (round_candidates lib s ((offer, peer, now) # rest)) t"
proof -
  let ?offered = "as_payload (op_snapshot (so_payload offer))" and ?best = "as_payload (rr_best round)"
  define accepted where "accepted \<longleftrightarrow> offer_acceptable lib (co_capability s) (co_snapshot s)
    (rr_challenge round) (rr_deadline round) offer peer now"
  let ?kept = "offered_snapshots lib s (rr_challenge round) (rr_deadline round) rest"
  have candidates: "round_candidates lib s ((offer, peer, now) # rest) =
      insert ?best ((if accepted then {?offered} else {}) \<union> ?kept)"
    by (auto simp: round_candidates_def round offered_snapshots_def accepted_def)
  have result: "cooperative_inv lib s' \<and> (\<exists>round'. co_round s' = Some round' \<and> rr_deadline round' = rr_deadline round) \<and>
      round_candidates lib s' rest =
      insert (if accepted \<and> rank_of lib ?best < rank_of lib ?offered then ?offered else ?best) ?kept"
  proof (cases "collect_offer lib s offer peer now")
    case (Inr r)
    then obtain outcome where collected: "collect_offer lib s offer peer now = Ok (outcome, s')"
      using s' by (cases r) auto
    note same = collected [unfolded collect_offer_Ok_iff [OF inv round] Let_def]
    then show ?thesis using collect_offer_step(1) [OF inv collected]
      by (auto simp: accepted_def round_candidates_def offered_snapshots_def)
  next
    case (Inl e)
    then have "\<not> accepted" using collect_offer_total [OF inv round] unfolding accepted_def by fastforce
    then show ?thesis using inv round Inl s' by (simp add: round_candidates_def)
  qed
  then show "cooperative_inv lib s'" and "\<exists>round'. co_round s' = Some round' \<and> rr_deadline round' = rr_deadline round"
    by simp_all
  show "highest lib (round_candidates lib s ((offer, peer, now) # rest)) t"
    if "highest lib (round_candidates lib s' rest) t"
    using that result unfolding highest_def candidates by (auto split: if_splits dest: order_trans)
qed

text \<open>
  C37: a node refuses an offer exactly when no round is open or the offer is not acceptable: late, for
  another challenge, malformed, not authenticated by the network capability, not from the transport peer
  that publishes it, from a publisher that is no member of the offered snapshot, not signed by it, or of a
  lower rank than the node's own snapshot. In particular no hostname claim can stall the selection.
\<close>

theorem offer_refused_iff:
  assumes "cooperative_run lib s"
  shows "(\<exists>e. collect_offer lib s offer peer now = Err e) \<longleftrightarrow>
    (case co_round s of
       None \<Rightarrow> True
     | Some round \<Rightarrow>
         \<not> offer_acceptable lib (co_capability s) (co_snapshot s) (rr_challenge round) (rr_deadline round) offer peer now)"
proof (cases "co_round s")
  case None
  then show ?thesis by (simp add: collect_offer_def Let_def)
next
  case (Some round)
  note inv = cooperative_run_inv [OF assms]
  from collect_offer_total [OF inv Some, of offer peer now] collect_offer_Ok_iff [OF inv Some, of offer peer now] show ?thesis
    by (cases "collect_offer lib s offer peer now") (fastforce simp: Some)+
qed

lemma collect_offers_highest:
  assumes "cooperative_inv lib s" and "co_round s = Some round"
  shows "cooperative_inv lib (collect_offers lib s offers) \<and>
    (\<exists>round'. co_round (collect_offers lib s offers) = Some round' \<and> rr_deadline round' = rr_deadline round \<and>
      highest lib (round_candidates lib s offers) (as_payload (rr_best round')))"
  using assms
proof (induction lib s offers arbitrary: round rule: collect_offers.induct)
  case (1 lib s)
  then show ?case by (auto simp: highest_def round_candidates_def offered_snapshots_def)
next
  case (2 lib s offer peer now rest)
  note step = collect_offer_candidates [OF 2(2,3) refl, of offer peer now]
  from step(2) obtain round' where "co_round (case collect_offer lib s offer peer now of Inr (_, s') \<Rightarrow> s' | Inl _ \<Rightarrow> s) = Some round'"
    and "rr_deadline round' = rr_deadline round" by blast
  with 2(1) [OF step(1)] show ?case using step(3) by auto
qed

lemma round_selects_highest:
  assumes "cooperative_inv lib s" and "begin_resync s now window nonce = Ok (challenge, s0)" and "now + window \<le> later"
  shows "\<exists>selection s1. finish_resync lib (collect_offers lib s0 offers) later wall_now = Ok (selection, s1) \<and>
    highest lib (round_candidates lib s0 offers) (co_snapshot s1)"
proof -
  have "cooperative_inv lib s0" using cooperative_step_inv [OF assms(1) begin_round [OF assms(2)]] by simp
  moreover from assms(2) obtain round where "co_round s0 = Some round" "rr_deadline round = now + window"
    by (auto simp: begin_resync_def Let_def and_then_Inr_iff instant_checked_add_def split: if_splits)
  ultimately obtain round' where inv: "cooperative_inv lib (collect_offers lib s0 offers)"
    and round': "co_round (collect_offers lib s0 offers) = Some round'" "rr_deadline round' = now + window"
    and best: "highest lib (round_candidates lib s0 offers) (as_payload (rr_best round'))"
    using collect_offers_highest [of lib s0 round offers] by auto
  from finish_resync_total [OF inv round'(1)] assms(3) round'(2) obtain selection s1 where
    finished: "finish_resync lib (collect_offers lib s0 offers) later wall_now = Ok (selection, s1)" by metis
  have "co_snapshot s1 = as_payload (rr_best round')"
    by (rule finish_resync_Ok [OF inv finished]) (use round'(1) in simp)
  with finished best show ?thesis by auto
qed

text \<open>
  C36: replicas that resynchronise converge. Each replica runs a round and collects the offers it
  receives, in whatever order and with whatever invalid, stale or late offers in between. Once the window
  has elapsed the round can be finished. If a snapshot was available to both replicas, as their own or in
  an acceptable offer, and neither had one of a higher rank, both end with that snapshot, provided that
  no two of the snapshots have the same digest.
\<close>

theorem resync_converges:
  fixes lib :: "('kp, 'key, 'l) checkpoint_library"
  assumes "cooperative_run lib a" and "begin_resync a now window nonce = Ok (challenge, a0)"
    and "now + window \<le> later"
    and "cooperative_run lib b" and "begin_resync b now' window' nonce' = Ok (challenge', b0)"
    and "now' + window' \<le> later'"
    and "best \<in> round_candidates lib a0 offers \<inter> round_candidates lib b0 offers'"
    and "\<forall>t \<in> round_candidates lib a0 offers \<union> round_candidates lib b0 offers'. rank_of lib t \<le> rank_of lib best"
    and "inj_on (snapshot_digest lib) (round_candidates lib a0 offers \<union> round_candidates lib b0 offers')"
  shows "\<exists>selection a1 selection' b1.
    finish_resync lib (collect_offers lib a0 offers) later wall_now = Ok (selection, a1) \<and>
    finish_resync lib (collect_offers lib b0 offers') later' wall_now' = Ok (selection', b1) \<and>
    co_snapshot a1 = best \<and> co_snapshot b1 = best"
proof -
  have unique: "s = best" if "highest lib C s" "C \<subseteq> round_candidates lib a0 offers \<union> round_candidates lib b0 offers'"
      "best \<in> C" for C s
  proof -
    have s: "s \<in> C" "rank_of lib best \<le> rank_of lib s" using that by (auto simp: highest_def)
    moreover from s that(2) assms(8) have "rank_of lib s \<le> rank_of lib best" by blast
    ultimately have "snapshot_digest lib s = snapshot_digest lib best" by (simp add: rank_of_def)
    from inj_onD [OF assms(9) this] show ?thesis using s that by blast
  qed
  from round_selects_highest [OF cooperative_run_inv [OF assms(1)] assms(2,3)]
    round_selects_highest [OF cooperative_run_inv [OF assms(4)] assms(5,6)] unique assms(7)
  show ?thesis by blast
qed

subsection \<open>Mutations act on the roster\<close>

text \<open>The abstract effect of a change on the map from peers to members.\<close>

fun change_roster ::
    "membership_change \<Rightarrow> u64 \<Rightarrow> (bytes \<Rightarrow> checkpoint_member option) \<Rightarrow> bytes \<Rightarrow> checkpoint_member option" where
  "change_roster (UpsertMember m) now roster = roster(member_peer m := Some m)"
| "change_roster (RemoveMember peer) now roster = roster(peer := None)"
| "change_roster (SetPolicy policy) now roster = roster"
| "change_roster PruneExpired now roster =
     (\<lambda>peer. case roster peer of Some m \<Rightarrow> if active_at m now then Some m else None | None \<Rightarrow> None)"

lemma upsert_member_set:
  assumes "sorted_wrt (<) (map member_peer members)"
  shows "set (upsert_member members m) = insert m {n \<in> set members. member_peer n \<noteq> member_peer m}"
proof (cases "binary_search member_peer (member_peer m) members")
  case (Inl i)
  from binary_search_ErrD [OF assms Inl] have "\<forall>n \<in> set members. member_peer n \<noteq> member_peer m"
    by (metis Un_iff append_take_drop_id less_irrefl set_append)
  then show ?thesis using Inl by (auto simp: upsert_member_def set_insert_at)
next
  case (Inr i)
  then show ?thesis using sorted_replace(2) [OF assms Inr] by (simp add: upsert_member_def)
qed

lemma changed_roster:
  assumes valid: "snapshot_validate lib s = Ok ()" and valid': "snapshot_validate lib t = Ok ()"
    and members: "cs_members t = cs_members (change_snapshot s change now)"
  shows "snapshot_member t = change_roster change now (snapshot_member s)"
proof (rule ext)
  fix peer
  have iff: "snapshot_member t peer = Some m \<longleftrightarrow> change_roster change now (snapshot_member s) peer = Some m" for m
  proof (cases change)
    case (UpsertMember n)
    then show ?thesis
      by (auto simp: snapshot_member_iff [OF valid'] snapshot_member_iff [OF valid] members
          upsert_member_set [OF valid_snapshot_sorted [OF valid]])
  next
    case PruneExpired
    have "change_roster PruneExpired now (snapshot_member s) peer = Some m \<longleftrightarrow>
        snapshot_member s peer = Some m \<and> active_at m now"
      by (cases "snapshot_member s peer") auto
    then show ?thesis using PruneExpired
      by (auto simp: snapshot_member_iff [OF valid'] snapshot_member_iff [OF valid] members simp del: change_roster.simps)
  qed (auto simp: snapshot_member_iff [OF valid'] snapshot_member_iff [OF valid] members)
  then show "snapshot_member t peer = change_roster change now (snapshot_member s) peer"
    by (metis not_None_eq)
qed

text \<open>
  C38: a mutation that a node applies was issued on the exact snapshot the node holds by a member active
  at the time, under that member's key. Its effect on the roster, seen as a map from peers to members, is
  the change it states and nothing else; the new snapshot has the next revision and names the old one as
  its parent.
\<close>

theorem mutation_refines_roster:
  fixes lib :: "('kp, 'key, 'l) checkpoint_library"
  assumes "cooperative_run lib s" and "apply_mutation_at lib s mutation now = Ok s'"
  shows "let p = sm_payload mutation; old = co_snapshot s; new = co_snapshot s' in
    snapshot_boundary lib old = Ok (mut_base p) \<and>
    (\<exists>issuer. snapshot_member old (pub_peer_id (mut_issuer p)) = Some issuer \<and> active_at issuer now \<and>
       cm_subject issuer = mut_issuer p) \<and>
    verify_signature lib (mut_issuer p) MUTATION_DOMAIN (JsonMutationPayload p) (sm_signature mutation) = Ok () \<and>
    snapshot_member new = change_roster (mut_change p) now (snapshot_member old) \<and>
    cs_policy new = (case mut_change p of SetPolicy policy \<Rightarrow> policy | _ \<Rightarrow> cs_policy old) \<and>
    unat (cs_authority_revision new) = unat (cs_authority_revision old) + 1 \<and>
    cs_parent_digest new = Some (cb_digest (mut_base p))"
proof -
  note old = cooperative_invD [OF cooperative_run_inv [OF assms(1)]]
  from assms(2) obtain a where a: "changed_snapshot lib s (mut_change (sm_payload mutation)) now = Ok a"
    and valid: "validate_mutation lib s (sm_payload mutation) now = Ok ()"
    and signed: "verify_signature lib (mut_issuer (sm_payload mutation)) MUTATION_DOMAIN
           (JsonMutationPayload (sm_payload mutation)) (sm_signature mutation) = Ok ()"
    and s': "co_current s' = a"
    by (rule apply_mutation_Ok) auto
  note new = changed_snapshot_Ok [OF a]
  from valid obtain issuer where base: "snapshot_boundary lib (co_snapshot s) = Ok (mut_base (sm_payload mutation))"
    and issuer: "snapshot_member (co_snapshot s) (pub_peer_id (mut_issuer (sm_payload mutation))) = Some issuer"
      "active_at issuer now" "cm_subject issuer = mut_issuer (sm_payload mutation)"
    by (auto simp: validate_mutation_def and_then_Inr_iff split: if_splits option.splits)
  have "snapshot_member (as_payload a) =
      change_roster (mut_change (sm_payload mutation)) now (snapshot_member (co_snapshot s))"
    by (rule changed_roster [OF old(2) verified_valid [OF new(1)] new(2)])
  moreover have "cs_policy (as_payload a) =
      (case mut_change (sm_payload mutation) of SetPolicy policy \<Rightarrow> policy | _ \<Rightarrow> cs_policy (co_snapshot s))"
    using new(3) by (cases "mut_change (sm_payload mutation)") simp_all
  moreover have "cb_digest (mut_base (sm_payload mutation)) = snapshot_digest lib (co_snapshot s)"
    using base by (simp add: snapshot_boundary_Ok_iff)
  ultimately show ?thesis
    using base issuer signed new(5) checked_succ_Some [OF new(6)] unfolding Let_def s' by auto
qed

subsection \<open>Replicas agree on a mutation\<close>

text \<open>Two clocks under which the same members, and an admitted one, are active.\<close>

definition same_activity :: "checkpoint_snapshot \<Rightarrow> membership_change \<Rightarrow> u64 \<Rightarrow> u64 \<Rightarrow> bool" where
  "same_activity s change now now' \<longleftrightarrow>
     (\<forall>m \<in> set (cs_members s). active_at m now' = active_at m now) \<and>
     (case change of UpsertMember m \<Rightarrow> active_at m now' = active_at m now | _ \<Rightarrow> True)"

lemma same_activity_change:
  "same_activity s change now now' \<Longrightarrow> change_snapshot s change now' = change_snapshot s change now"
  by (cases change) (simp_all add: same_activity_def cong: filter_cong)

lemma changed_snapshot_replica:
  assumes "co_snapshot r = co_snapshot s" and "co_capability r = co_capability s"
    and "same_activity (co_snapshot s) change now now'"
  shows "changed_snapshot lib r change now' = changed_snapshot lib s change now"
  unfolding changed_snapshot_def Let_def assms(1,2) same_activity_change [OF assms(3)] ..

lemma validate_mutation_replica:
  assumes valid: "snapshot_validate lib (co_snapshot s) = Ok ()"
    and "co_snapshot r = co_snapshot s" and "co_capability r = co_capability s"
    and active: "same_activity (co_snapshot s) (mut_change p) now now'"
    and "validate_mutation lib s p now = Ok ()"
  shows "validate_mutation lib r p now' = Ok ()"
proof -
  have "active_at m now' = active_at m now" if "snapshot_member (co_snapshot s) peer = Some m" for m peer
    using active that by (auto simp: same_activity_def snapshot_member_iff [OF valid])
  with assms show ?thesis
    by (cases "mut_change p")
      (auto simp: validate_mutation_def and_then_Inr_iff same_activity_def split: if_splits option.splits)
qed

lemma checkpoint_signature_verifies:
  assumes laws: "library_laws (cl_identity lib)"
    and "publisher_from_identity lib i = Ok publisher" and "checkpoint_sign lib i domain v = Ok signature"
    and "publisher_validate lib publisher = Ok key" and "length signature \<le> MAX_SIGNATURE_BYTES"
  shows "verify_signature lib publisher domain v signature = Ok ()"
proof -
  from assms(2,3) obtain k message raw where k: "public_key_protobuf (cl_identity lib) i = Ok k"
    and publisher: "publisher = \<lparr>pub_peer_id = ni_peer_id i, pub_public_key = base64_encode (cl_identity lib) k\<rparr>"
    and message: "checkpoint_message lib domain v = Ok message"
    and raw: "identity_sign (cl_identity lib) i message = Ok raw" "signature = base64_encode (cl_identity lib) raw"
    by (auto simp: publisher_from_identity_def checkpoint_sign_def and_then_Inr_iff)
  from identity_sign_verifies [OF laws raw(1) k] obtain key' where
    key': "key_try_decode_protobuf (cl_identity lib) k = Some key'" "key_verify (cl_identity lib) key' message raw"
    by metis
  have "key = key'" using assms(4) key'(1) laws publisher
    by (auto simp: publisher_validate_def decode_public_key_def library_laws_def Let_def and_then_Inr_iff)
  then show ?thesis using assms(4,5) key'(2) message raw(2) laws
    by (auto simp: verify_signature_def and_then_Inr_iff library_laws_def)
qed

text \<open>
  C39: a mutation that a node signs is accepted by every replica that holds the same snapshot, takes part
  and sees the same members active, and takes each of them to the same authenticated snapshot as the
  signer, given that the signed message is within the size limits and signatures verify.
\<close>

theorem signed_mutation_applies_at_replicas:
  fixes lib :: "('kp, 'key, 'l) checkpoint_library"
  assumes "library_laws (cl_identity lib)" and "cooperative_run lib s"
    and "co_snapshot r = co_snapshot s" and "co_capability r = co_capability s"
    and "sign_mutation_at lib s i change now = Ok mutation"
    and "require_participation r now' = Ok ()"
    and "same_activity (co_snapshot s) (mut_change (sm_payload mutation)) now now'"
    and "length (sm_signature mutation) \<le> MAX_SIGNATURE_BYTES"
    and "encoded_bound lib (JsonMutation mutation) MAX_MUTATION_BYTES = Ok ()"
  shows "\<exists>s' r'. apply_mutation_at lib s mutation now = Ok s' \<and> apply_mutation_at lib r mutation now' = Ok r' \<and>
    co_current r' = co_current s' \<and> rank_of lib (co_snapshot s) < rank_of lib (co_snapshot s')"
proof -
  let ?p = "sm_payload mutation"
  note inv = cooperative_run_inv [OF assms(2)]
  from assms(5) obtain a where participates: "require_participation s now = Ok ()"
    and valid: "validate_mutation lib s ?p now = Ok ()" and a: "changed_snapshot lib s (mut_change ?p) now = Ok a"
    and issuer: "publisher_from_identity lib i = Ok (mut_issuer ?p)"
    and signed: "checkpoint_sign lib i MUTATION_DOMAIN (JsonMutationPayload ?p) = Ok (sm_signature mutation)"
    unfolding sign_mutation_at_def Let_def by (auto simp: and_then_Inr_iff)
  from valid obtain key where "publisher_validate lib (mut_issuer ?p) = Ok key"
    by (auto simp: validate_mutation_def and_then_Inr_iff split: if_splits)
  note verified = checkpoint_signature_verifies [OF assms(1) issuer signed this assms(8)]
  note replica = validate_mutation_replica [OF cooperative_invD(2) [OF inv] assms(3,4,7) valid]
    changed_snapshot_replica [OF assms(3,4,7), of lib]
  have "\<exists>s'. apply_mutation_at lib s mutation now = Ok s' \<and> co_current s' = a"
    "\<exists>r'. apply_mutation_at lib r mutation now' = Ok r' \<and> co_current r' = a"
    using participates valid a verified replica assms(6,8,9) by (auto simp: apply_mutation_at_def Let_def and_then_Inr_iff)
  with apply_mutation_step(2) [OF inv] show ?thesis by metis
qed

end
