(* ===== verification/Checkpoint_Samples.thy ===== *)
theory Checkpoint_Samples
  imports Checkpoint_Convergence Membership_Safety
begin

text \<open>
  A network of two members, for the witnesses: peer 1 and peer 2 hold the initial snapshot, peer 1 changes
  the policy, and peer 2 catches up in a resynchronisation round.
\<close>

definition sample_checkpoint_library :: "(bytes, bytes, bytes) checkpoint_library" where
  "sample_checkpoint_library =
     \<lparr>cl_membership = sample_membership_library,
      to_json = (\<lambda>v. case v of JsonSnapshot s \<Rightarrow> Some [ucast (cs_authority_revision s)] | _ \<Rightarrow> Some []),
      snapshot_from_json = (\<lambda>_. None), offer_from_json = (\<lambda>_. None), retained_from_json = (\<lambda>_. None),
      hmac_sha256 = (\<lambda>key message. [1]), hkdf_sha256_expand = (\<lambda>_ _ _. None)\<rparr>"

definition sample_capability :: network_capability where
  "sample_capability =
     \<lparr>nc_anchor = \<lparr>na_version = 1, na_network_id = [9], na_policy_version = 1, na_rank_version = 1\<rparr>,
      nc_mac_key = [5]\<rparr>"

definition sample_member :: "bytes \<Rightarrow> u64 option \<Rightarrow> checkpoint_member" where
  "sample_member peer expiry =
     \<lparr>cm_subject = \<lparr>pub_peer_id = peer, pub_public_key = peer\<rparr>, cm_incarnation = [4],
      cm_roles = [OverlayMember], cm_route_grants = [], cm_expires_at = expiry\<rparr>"

definition sample_snapshot :: checkpoint_snapshot where
  "sample_snapshot =
     \<lparr>cs_version = 2, cs_anchor = nc_anchor sample_capability, cs_authority_revision = 0,
      cs_parent_digest = None, cs_policy = policy_default,
      cs_members = [sample_member [1] None, sample_member [2] None, sample_member [3] (Some 50)]\<rparr>"

definition sample_state :: "bytes \<Rightarrow> cooperative_state" where
  "sample_state peer =
     \<lparr>co_capability = sample_capability, co_local_peer = peer,
      co_current = \<lparr>as_payload = sample_snapshot, as_mac = [1]\<rparr>, co_names = [],
      co_sync_state = Participating, co_round = None\<rparr>"

definition sample_node :: "bytes \<Rightarrow> node_identity" where
  "sample_node peer = \<lparr>ni_peer_id = peer, ni_private_key = peer\<rparr>"

lemmas sample_checkpoint_defs =
  sample_checkpoint_library_def sample_membership_library_def sample_capability_def sample_member_def
  sample_snapshot_def sample_state_def sample_node_def

lemmas checkpoint_limits =
  COOPERATIVE_CHECKPOINT_VERSION_def MAX_CHECKPOINT_MEMBERS_def MAX_CHECKPOINT_ROUTES_def MAX_CHECKPOINT_BYTES_def
  MAX_SNAPSHOT_OFFER_BYTES_def MAX_RESYNC_WINDOW_def MAX_KEY_BYTES_def MAX_SIGNATURE_BYTES_def
  MAX_MUTATION_BYTES_def MAX_MEMBERSHIP_RECORD_INTEGER_def

lemmas checkpoint_evaluation =
  ensure_def bytes_bound_def field_bound_def portable_def encoded_bound_def checkpoint_message_def
  checkpoint_digest_def checkpoint_sign_def publisher_from_identity_def publisher_validate_def
  decode_public_key_def verify_signature_def validate_local_peer_def anchor_validate_def policy_validate_def
  policy_default_def member_validate_def snapshot_validate_def snapshot_boundary_def snapshot_rank_of_def
  validate_scope_def authenticate_def capability_verify_def validate_names_def compatible_names_def
  merge_names_def public_key_protobuf_def identity_public_key_def identity_keypair_def identity_sign_def
  snapshot_member_def binary_search_def binary_search_between.simps participation_def
  require_participation_def active_at_def Let_def

lemma short_not_zero [simp]: "length xs \<noteq> 32 \<Longrightarrow> xs \<noteq> zero_array"
  by auto

lemma sample_bootstrap:
  assumes "peer \<in> {[1], [2]}"
  shows "bootstrap_at sample_checkpoint_library sample_capability peer (cs_members sample_snapshot)
    policy_default 10 = Ok (sample_state peer)"
  using assms
  by (auto simp: bootstrap_at_def sample_checkpoint_defs checkpoint_limits checkpoint_evaluation)

text \<open>Peer 1 switches route grants off.\<close>

definition sample_mutation :: signed_mutation where
  "sample_mutation =
     (case sign_mutation_at sample_checkpoint_library (sample_state [1]) (sample_node [1])
             (SetPolicy \<lparr>sp_max_active_members = 16, sp_route_grants_enabled = False\<rparr>) 10 of
        Inr mutation \<Rightarrow> mutation)"

definition sample_next :: checkpoint_snapshot where
  "sample_next = sample_snapshot
     \<lparr>cs_policy := \<lparr>sp_max_active_members = 16, sp_route_grants_enabled = False\<rparr>, cs_authority_revision := 1,
      cs_parent_digest := Some (SNAPSHOT_DOMAIN @ [0])\<rparr>"

lemma sample_signed:
  "sign_mutation_at sample_checkpoint_library (sample_state [1]) (sample_node [1])
     (SetPolicy \<lparr>sp_max_active_members = 16, sp_route_grants_enabled = False\<rparr>) 10 = Ok sample_mutation"
  "length (sm_signature sample_mutation) = 32"
  "mut_change (sm_payload sample_mutation) = SetPolicy \<lparr>sp_max_active_members = 16, sp_route_grants_enabled = False\<rparr>"
  by (simp_all add: sample_mutation_def sign_mutation_at_def validate_mutation_def changed_snapshot_def checked_succ_def
      sample_checkpoint_defs checkpoint_limits checkpoint_evaluation MUTATION_DOMAIN_def SNAPSHOT_DOMAIN_def ascii_def)

lemma sample_run: "peer \<in> {[1], [2]} \<Longrightarrow> cooperative_run sample_checkpoint_library (sample_state peer)"
  by (rule started, rule bootstrap, rule sample_bootstrap)

definition sample_after :: "bytes \<Rightarrow> cooperative_state" where
  "sample_after peer = (sample_state peer)\<lparr>co_current := \<lparr>as_payload = sample_next, as_mac = [1]\<rparr>\<rparr>"

lemma sample_applied:
  "peer \<in> {[1], [2]} \<Longrightarrow>
     apply_mutation_at sample_checkpoint_library (sample_state peer) sample_mutation 10 = Ok (sample_after peer)"
  by (auto simp: sample_mutation_def sample_after_def sample_next_def sign_mutation_at_def apply_mutation_at_def
      validate_mutation_def changed_snapshot_def checked_succ_def sample_checkpoint_defs checkpoint_limits
      checkpoint_evaluation MUTATION_DOMAIN_def SNAPSHOT_DOMAIN_def ascii_def)

theorem checkpoint_authority_never_goes_back_witness:
  "rank_of sample_checkpoint_library sample_snapshot \<le> rank_of sample_checkpoint_library sample_next \<and>
   snapshot_validate sample_checkpoint_library sample_next = Ok ()"
  using checkpoint_authority_never_goes_back [of sample_checkpoint_library "sample_state [1]" "sample_after [1]",
      OF sample_run] mutation [OF sample_applied, of "[1]"]
  by (auto simp: sample_state_def sample_after_def)

theorem mutation_refines_roster_witness:
  "apply_mutation_at sample_checkpoint_library (sample_state [1]) sample_mutation 10 = Ok (sample_after [1]) \<and>
   snapshot_member sample_next = snapshot_member sample_snapshot \<and> \<not> sp_route_grants_enabled (cs_policy sample_next)"
  using mutation_refines_roster [of sample_checkpoint_library "sample_state [1]" sample_mutation 10 "sample_after [1]",
      OF sample_run sample_applied] sample_applied [of "[1]"] sample_signed(3)
  by (simp add: sample_state_def sample_after_def Let_def)

theorem signed_mutation_applies_at_replicas_witness:
  "\<exists>s' r'. apply_mutation_at sample_checkpoint_library (sample_state [1]) sample_mutation 10 = Ok s' \<and>
     apply_mutation_at sample_checkpoint_library (sample_state [2]) sample_mutation 20 = Ok r' \<and>
     co_current r' = co_current s'"
proof -
  have "library_laws (cl_identity sample_checkpoint_library)"
    by (simp add: library_laws_def sample_checkpoint_defs)
  moreover have "require_participation (sample_state [2]) 20 = Ok ()"
    by (simp add: sample_checkpoint_defs checkpoint_evaluation)
  moreover have "same_activity (co_snapshot (sample_state [1])) (mut_change (sm_payload sample_mutation)) 10 20"
    by (simp add: same_activity_def sample_signed sample_checkpoint_defs active_at_def)
  moreover have "encoded_bound sample_checkpoint_library (JsonMutation sample_mutation) MAX_MUTATION_BYTES = Ok ()"
    by (simp add: sample_checkpoint_library_def)
  ultimately show ?thesis
    using signed_mutation_applies_at_replicas [OF _ sample_run _ _ sample_signed(1), of "sample_state [2]" 20]
      sample_signed(2) by (simp add: sample_state_def MAX_SIGNATURE_BYTES_def) blast
qed

text \<open>Peer 2 runs a round and hears peer 1's offer; peer 1 runs one and hears nothing.\<close>

definition sample_challenge :: snapshot_challenge where
  "sample_challenge = \<lparr>ch_anchor = nc_anchor sample_capability, ch_nonce = [6]\<rparr>"

definition sample_round :: "cooperative_state \<Rightarrow> cooperative_state" where
  "sample_round s = s\<lparr>co_round := Some \<lparr>rr_challenge = sample_challenge, rr_deadline = 10, rr_best = co_current s,
       rr_names = [], rr_observed_offer = False\<rparr>, co_sync_state := Resyncing\<rparr>"

definition sample_offer :: signed_snapshot_offer where
  "sample_offer =
     (case make_offer_at sample_checkpoint_library (sample_after [1]) sample_challenge (sample_node [1]) 10 of
        Inr offer \<Rightarrow> offer)"

lemma sample_begin:
  "begin_resync (sample_state [2]) 0 10 [6] = Ok (sample_challenge, sample_round (sample_state [2]))"
  "begin_resync (sample_after [1]) 0 10 [6] = Ok (sample_challenge, sample_round (sample_after [1]))"
  by (simp_all add: begin_resync_def instant_checked_add_def instant_max_def sample_round_def sample_challenge_def
      sample_after_def sample_state_def MAX_RESYNC_WINDOW_def ensure_def Let_def)

lemma sample_next_evaluated:
  "sample_next = \<lparr>cs_version = 2, cs_anchor = nc_anchor sample_capability, cs_authority_revision = 1,
      cs_parent_digest = Some (SNAPSHOT_DOMAIN @ [0]),
      cs_policy = \<lparr>sp_max_active_members = 16, sp_route_grants_enabled = False\<rparr>,
      cs_members = [sample_member [1] None, sample_member [2] None, sample_member [3] (Some 50)]\<rparr>"
  by (simp add: sample_next_def sample_snapshot_def)

lemma sample_offer_evaluated:
  "sample_offer = \<lparr>so_payload = \<lparr>op_version = 1, op_challenge = sample_challenge,
       op_snapshot = \<lparr>as_payload = sample_next, as_mac = [1]\<rparr>,
       op_publisher = \<lparr>pub_peer_id = [1], pub_public_key = [1]\<rparr>, op_hostname_claims = []\<rparr>,
     so_signature = [1] @ OFFER_DOMAIN\<rparr>"
  by (simp add: sample_offer_def make_offer_at_def offer_validate_shape_def sample_challenge_def sample_after_def
      sample_next_evaluated sample_checkpoint_defs checkpoint_limits checkpoint_evaluation OFFER_DOMAIN_def
      SNAPSHOT_DOMAIN_def ascii_def)

lemma sample_offer_acceptable:
  "offer_acceptable sample_checkpoint_library sample_capability sample_snapshot sample_challenge 10 sample_offer [1] 5"
proof -
  have "rank_of sample_checkpoint_library sample_snapshot \<le> rank_of sample_checkpoint_library sample_next"
    by (intro less_imp_le rank_less_revision) (simp add: sample_next_evaluated sample_snapshot_def)
  then show ?thesis
    unfolding offer_acceptable_def sample_offer_evaluated Let_def
    by (simp add: offer_validate_shape_def sample_challenge_def
        sample_next_evaluated sample_checkpoint_defs checkpoint_limits checkpoint_evaluation OFFER_DOMAIN_def
        SNAPSHOT_DOMAIN_def ascii_def)
qed

theorem offer_refused_iff_witness:
  "\<not> (\<exists>e. collect_offer sample_checkpoint_library (sample_round (sample_state [2])) sample_offer [1] 5 = Err e) \<and>
   (\<exists>e. collect_offer sample_checkpoint_library (sample_round (sample_state [2])) sample_offer [1] 10 = Err e)"
proof -
  have run: "cooperative_run sample_checkpoint_library (sample_round (sample_state [2]))"
    by (rule stepped [OF sample_run begin_round [OF sample_begin(1)]]) simp
  have "\<not> offer_acceptable sample_checkpoint_library sample_capability sample_snapshot sample_challenge 10 sample_offer [1] 10"
    by (simp add: offer_acceptable_def Let_def)
  with offer_refused_iff [OF run, of sample_offer "[1]" 5] offer_refused_iff [OF run, of sample_offer "[1]" 10]
    sample_offer_acceptable
  show ?thesis by (simp add: sample_round_def sample_state_def)
qed

theorem resync_converges_witness:
  "\<exists>selection a selection' b.
     finish_resync sample_checkpoint_library (sample_round (sample_after [1])) 10 20 = Ok (selection, a) \<and>
     finish_resync sample_checkpoint_library
       (collect_offers sample_checkpoint_library (sample_round (sample_state [2])) [(sample_offer, [1], 5)]) 10 20 =
       Ok (selection', b) \<and>
     co_snapshot a = sample_next \<and> co_snapshot b = sample_next"
proof -
  let ?lib = sample_checkpoint_library
  have a: "round_candidates ?lib (sample_round (sample_after [1])) [] = {sample_next}"
    by (simp add: round_candidates_def offered_snapshots_def sample_round_def sample_after_def)
  have b: "round_candidates ?lib (sample_round (sample_state [2])) [(sample_offer, [1], 5)] = {sample_snapshot, sample_next}"
    using sample_offer_acceptable
    by (auto simp: round_candidates_def offered_snapshots_def sample_round_def sample_state_def sample_offer_evaluated)
  have "rank_of ?lib sample_snapshot \<le> rank_of ?lib sample_next"
    by (intro less_imp_le rank_less_revision) (simp add: sample_next_evaluated sample_snapshot_def)
  moreover have "snapshot_digest ?lib sample_snapshot \<noteq> snapshot_digest ?lib sample_next"
    by (simp add: snapshot_digest_def sample_next_evaluated sample_checkpoint_defs)
  moreover have "cooperative_run ?lib (sample_after [1])"
    by (rule stepped [OF sample_run mutation [OF sample_applied]]) simp_all
  ultimately show ?thesis
    using resync_converges [of ?lib "sample_after [1]" 0 10 "[6]" sample_challenge "sample_round (sample_after [1])" 10
        "sample_state [2]" 0 10 "[6]" sample_challenge "sample_round (sample_state [2])" 10 sample_next
        "[]" "[(sample_offer, [1], 5)]" 20 20] sample_begin sample_run [of "[2]"]
    by (auto simp: a b)
qed

text \<open>
  A \<open>PruneExpired\<close> mutation removes the members expired by the clock of the node that applies it. Two
  replicas that apply the same signed mutation on either side of an expiry end with different snapshots of
  the same revision and parent.
\<close>

definition sample_prune :: signed_mutation where
  "sample_prune =
     (let p = \<lparr>mut_version = 1, mut_anchor = nc_anchor sample_capability,
               mut_base = \<lparr>cb_authority_revision = 0, cb_digest = SNAPSHOT_DOMAIN @ [0]\<rparr>,
               mut_issuer = \<lparr>pub_peer_id = [1], pub_public_key = [1]\<rparr>, mut_change = PruneExpired\<rparr>
      in \<lparr>sm_payload = p, sm_signature = [1] @ MUTATION_DOMAIN\<rparr>)"

definition sample_expiring :: "bytes \<Rightarrow> cooperative_state" where
  "sample_expiring peer = (sample_state peer)\<lparr>co_current := \<lparr>as_payload = sample_snapshot
     \<lparr>cs_members := [sample_member [1] None, sample_member [2] None, sample_member [3] (Some 50), sample_member [4] (Some 60)]\<rparr>,
     as_mac = [1]\<rparr>\<rparr>"

lemma prune_forks_replicas:
  "\<exists>a b. apply_mutation_at sample_checkpoint_library (sample_expiring [1]) sample_prune 55 = Ok a \<and>
     apply_mutation_at sample_checkpoint_library (sample_expiring [2]) sample_prune 60 = Ok b \<and>
     cs_authority_revision (co_snapshot a) = cs_authority_revision (co_snapshot b) \<and>
     cs_parent_digest (co_snapshot a) = cs_parent_digest (co_snapshot b) \<and>
     cs_members (co_snapshot a) \<noteq> cs_members (co_snapshot b)"
  by (simp add: sample_prune_def sample_expiring_def apply_mutation_at_def validate_mutation_def
      changed_snapshot_def checked_succ_def sample_checkpoint_defs checkpoint_limits
      checkpoint_evaluation MUTATION_DOMAIN_def SNAPSHOT_DOMAIN_def ascii_def)

end
