(* ===== verification/Authority.thy ===== *)
theory Authority
  imports Checkpoint_State Datagram Forward
begin

text \<open>
  From membership to forwarding authority: the routes that a configuration and the effective membership
  compile to (\<open>Config::compile_routes_with_membership\<close> in \<open>src/src/config.rs\<close>), the transport peers, and
  the \<open>ForwardingAuthorization\<close> that the forwarder swaps in as a whole (\<open>src/src/runtime/forward.rs\<close>).
  \<^item> The configuration has the fields these operations read: those of the network, the interface MTU and
    the peers. \<open>private_key\<close> and the textual peer identities go through the identity library.
  \<^item> The routes to insert are listed in the order of the source, each as the result of computing its
    prefix, and the first error ends the insertion, as \<open>?\<close> does.
\<close>

subsection \<open>Configuration\<close>

record peer_config =
  pc_id :: bytes
  pc_name :: "bytes option"
  pc_ip :: "bytes option"
  pc_vpn_ip :: "bytes option"
  pc_addresses :: "bytes list"
  pc_routes :: "route_config list"

record config =
  cf_network_name :: bytes
  cf_local_peer :: bytes
  cf_private_key :: "bytes option"
  cf_member_records :: "signed_record list"
  cf_dns_hostname :: "bytes option"
  cf_vpn_ip :: "bytes option"
  cf_routes :: "route_config list"
  cf_mtu :: u16
  cf_peers :: "peer_config list"

datatype config_error =
    ConfigIdentity identity_error
  | MissingPrivateKey
  | IdentityPeerMismatch bytes bytes
  | ConfigPeerId peer_id_parse_error
  | ConfigLibp2pPeerId
  | ConfigRoutePrefix route_prefix_error
  | ConfigRoute route_error
  | ConfigMembershipRecord membership_error

definition config_identity ::
    "('kp, 'key, 'l) membership_library \<Rightarrow> config \<Rightarrow> (node_identity, config_error) result" where
  "config_identity lib c =
     and_then (ok_or (cf_private_key c) MissingPrivateKey) (\<lambda>private_key.
     and_then (map_err ConfigIdentity (from_private_key (ml_identity lib) private_key)) (\<lambda>i.
       if cf_local_peer c \<noteq> [] \<and> ni_peer_id i \<noteq> cf_local_peer c
       then Err (IdentityPeerMismatch (cf_local_peer c) (ni_peer_id i)) else Ok i))"

definition config_local_peer ::
    "('kp, 'key, 'l) membership_library \<Rightarrow> config \<Rightarrow> (bytes, config_error) result" where
  "config_local_peer lib c =
     (if cf_local_peer c = [] then and_then (config_identity lib c) (\<lambda>i. Ok (ni_peer_id i))
      else Ok (cf_local_peer c))"

definition parse_peer_id ::
    "('kp, 'key, 'l) membership_library \<Rightarrow> bytes \<Rightarrow> (peer_id, config_error) result" where
  "parse_peer_id lib input =
     map_err ConfigPeerId (peer_id_from_str (libp2p_from_str (ml_identity lib)) (digest_sha256 (ml_identity lib))
       (libp2p_to_bytes (ml_identity lib)) input)"

definition config_local_peer_id ::
    "('kp, 'key, 'l) membership_library \<Rightarrow> config \<Rightarrow> (peer_id, config_error) result" where
  "config_local_peer_id lib c = and_then (config_local_peer lib c) (parse_peer_id lib)"

definition peer_config_id ::
    "('kp, 'key, 'l) membership_library \<Rightarrow> peer_config \<Rightarrow> (peer_id, config_error) result" where
  "peer_config_id lib p = parse_peer_id lib (pc_id p)"

definition effective_packet_mtu :: "u16 \<Rightarrow> u16" where
  "effective_packet_mtu configured_mtu =
     min configured_mtu (word_of_nat (min MAX_PAYLOAD_LEN PACKET_PLANE_MAX_PAYLOAD_LEN))"

subsection \<open>Routes\<close>

type_synonym route_entry = "(route, config_error) result"

definition host_route :: "peer_id \<Rightarrow> (ip_cidr, config_error) result \<Rightarrow> u16 \<Rightarrow> route_entry" where
  "host_route owner prefix metric =
     and_then prefix (\<lambda>p. Ok \<lparr>route_owner = owner, route_prefix = p, route_metric = metric\<rparr>)"

definition builtin_routes :: "peer_id \<Rightarrow> route_entry list" where
  "builtin_routes owner =
     [host_route owner (map_err ConfigRoute (cidr_new (V4 (builtin_ipv4 owner)) 32)) 0,
      host_route owner (map_err ConfigRoute (cidr_new (V6 (builtin_ipv6 owner)) 128)) 0]"

fun vpn_ip_config_error :: "vpn_ip_error \<Rightarrow> config_error" where
  "vpn_ip_config_error (VpnIpPrefix e) = ConfigRoutePrefix e"
| "vpn_ip_config_error (VpnIpRoute e) = ConfigRoute e"

definition alias_routes :: "peer_id \<Rightarrow> bytes option \<Rightarrow> route_entry list" where
  "alias_routes owner vpn_ip =
     (case vpn_ip of
        None \<Rightarrow> []
      | Some ip \<Rightarrow> [host_route owner (map_err vpn_ip_config_error (vpn_ip_host_route ip)) 0])"

definition granted_routes :: "peer_id \<Rightarrow> route_config list \<Rightarrow> route_entry list" where
  "granted_routes owner routes =
     map (\<lambda>r. host_route owner (map_err ConfigRoutePrefix (route_config_prefix r)) (rc_metric r)) routes"

definition peer_routes ::
    "('kp, 'key, 'l) membership_library \<Rightarrow> 'l effective_authorization \<Rightarrow> peer_config \<Rightarrow> route_entry list" where
  "peer_routes lib authorization p =
     (case peer_config_id lib p of
        Inl e \<Rightarrow> [Err e]
      | Inr owner \<Rightarrow>
          if \<not> authorizes_configured_peer authorization owner then []
          else builtin_routes owner @ alias_routes owner (pc_vpn_ip p) @ granted_routes owner (pc_routes p))"

definition member_routes :: "'l effective_member \<Rightarrow> route_entry list" where
  "member_routes member =
     builtin_routes (em_peer member) @
     (if has_role member RouteAuthority then granted_routes (em_peer member) (em_route_grants member) else [])"

fun insert_routes :: "route_table \<Rightarrow> route_entry list \<Rightarrow> (route_table, config_error) result" where
  "insert_routes table [] = Ok table"
| "insert_routes table (entry # entries) =
     and_then entry (\<lambda>r.
       case insert_authorized table r of
         (Inl e, _) \<Rightarrow> Err (ConfigRoute e)
       | (Inr _, table) \<Rightarrow> insert_routes table entries)"

definition compile_routes_with_membership ::
    "('kp, 'key, 'l) membership_library \<Rightarrow> config \<Rightarrow> 'l effective_membership \<Rightarrow>
     (route_table, config_error) result" where
  "compile_routes_with_membership lib c membership =
     and_then (config_local_peer_id lib c) (\<lambda>local_peer.
     let authorization = authorization_for membership local_peer in
       insert_routes route_table_new
         (builtin_routes local_peer @ alias_routes local_peer (cf_vpn_ip c) @ granted_routes local_peer (cf_routes c) @
          concat (map (peer_routes lib authorization) (cf_peers c)) @
          concat (map member_routes (authorized_overlay_members authorization))))"

subsection \<open>Transport peers\<close>

fun configured_transports ::
    "('kp, 'key, 'l) membership_library \<Rightarrow> 'l effective_authorization \<Rightarrow> (peer_id, 'l) hash_map \<Rightarrow>
     peer_config list \<Rightarrow> ((peer_id, 'l) hash_map, config_error) result" where
  "configured_transports lib authorization peers [] = Ok peers"
| "configured_transports lib authorization peers (p # ps) =
     and_then (ok_or (libp2p_from_str (ml_identity lib) (pc_id p)) ConfigLibp2pPeerId) (\<lambda>transport_peer.
     let overlay = overlay_peer lib transport_peer in
       configured_transports lib authorization
         (if authorizes_configured_peer authorization overlay then hm_insert peers overlay transport_peer
          else peers) ps)"

definition transport_peers_from_membership ::
    "('kp, 'key, 'l) membership_library \<Rightarrow> config \<Rightarrow> 'l effective_membership \<Rightarrow>
     ((peer_id, 'l) hash_map, config_error) result" where
  "transport_peers_from_membership lib c membership =
     and_then (config_local_peer_id lib c) (\<lambda>local_peer.
     let authorization = authorization_for membership local_peer in
     and_then (configured_transports lib authorization [] (cf_peers c)) (\<lambda>peers.
       Ok (foldl (\<lambda>peers member.
             if em_peer member \<noteq> local_peer then hm_insert peers (em_peer member) (em_transport_peer member)
             else peers) peers (authorized_overlay_members authorization))))"

subsection \<open>Forwarding authorization\<close>

record 'l forwarding_authorization =
  fa_routes :: route_table
  fa_peers :: "(peer_id, 'l) hash_map"
  fa_authorized_peers :: "'l set"

definition authorization_from_records ::
    "('kp, 'key, 'l) membership_library \<Rightarrow> config \<Rightarrow> signed_record list \<Rightarrow> u64 \<Rightarrow>
     ('l forwarding_authorization \<times> 'l effective_membership, config_error) result" where
  "authorization_from_records lib c records now =
     and_then (map_err ConfigMembershipRecord (effective_membership_at lib records (cf_network_name c) now)) (\<lambda>membership.
     and_then (compile_routes_with_membership lib c membership) (\<lambda>routes.
     and_then (transport_peers_from_membership lib c membership) (\<lambda>peers.
       Ok (\<lparr>fa_routes = routes, fa_peers = peers,
            fa_authorized_peers = authorized_peers_from_transport_peers peers\<rparr>, membership))))"

definition authorization_from_checkpoint ::
    "('kp, 'key, 'l) membership_library \<Rightarrow> config \<Rightarrow> 'l effective_membership \<Rightarrow>
     ('l forwarding_authorization, config_error) result" where
  "authorization_from_checkpoint lib c membership =
     and_then (config_local_peer_id lib c) (\<lambda>local_peer.
     and_then (if membership_authorizes_peer membership local_peer
               then compile_routes_with_membership lib c membership else Ok route_table_new) (\<lambda>routes.
     and_then (transport_peers_from_membership lib c membership) (\<lambda>peers.
       Ok \<lparr>fa_routes = routes, fa_peers = peers,
           fa_authorized_peers = authorized_peers_from_transport_peers peers\<rparr>)))"

subsection \<open>Who gets authority\<close>

text \<open>Effective members are stored under their own overlay identity.\<close>

definition members_keyed :: "('kp, 'key, 'l) membership_library \<Rightarrow> 'l effective_membership \<Rightarrow> bool" where
  "members_keyed lib m \<longleftrightarrow> hm_wf (eff_members m) \<and>
     (\<forall>(peer, member) \<in> set (eff_members m).
        em_peer member = peer \<and> overlay_peer lib (em_transport_peer member) = peer)"

definition configured_peers :: "('kp, 'key, 'l) membership_library \<Rightarrow> config \<Rightarrow> peer_id set" where
  "configured_peers lib c = {peer. \<exists>p \<in> set (cf_peers c). peer_config_id lib p = Ok peer}"

text \<open>
  The peers that membership admits at a node: the node itself is authorised, and the peer is an active
  overlay member, or is configured and the membership does not govern it.
\<close>

definition admits :: "('kp, 'key, 'l) membership_library \<Rightarrow> config \<Rightarrow> 'l effective_membership \<Rightarrow> peer_id \<Rightarrow> peer_id \<Rightarrow> bool" where
  "admits lib c m local_peer peer \<longleftrightarrow>
     allows_peer (authorization_for m local_peer) peer (peer \<in> configured_peers lib c)"

lemma admits_iff:
  "admits lib c m local_peer peer \<longleftrightarrow> membership_authorizes_peer m local_peer \<and>
     (is_overlay_member m peer \<or>
      peer \<in> configured_peers lib c \<and> \<not> eff_checkpoint_authoritative m \<and> peer \<notin> eff_governed_peers m)"
  by (auto simp: admits_def allows_peer_def authorization_for_def membership_authorizes_peer_def)

lemma overlay_members_iff:
  assumes "members_keyed lib m" and "member \<in> set (overlay_members m)"
  shows "is_overlay_member m (em_peer member)" and "hm_get (eff_members m) (em_peer member) = Some member"
    and "overlay_peer lib (em_transport_peer member) = em_peer member"
proof -
  from assms(2) obtain peer where "(peer, member) \<in> set (eff_members m)" "has_role member OverlayMember"
    by (auto simp: overlay_members_def)
  moreover from this(1) assms(1) have "hm_get (eff_members m) (em_peer member) = Some member"
      "overlay_peer lib (em_transport_peer member) = em_peer member"
    by (auto simp: members_keyed_def hm_get_Some_iff)
  ultimately show "hm_get (eff_members m) (em_peer member) = Some member" and "is_overlay_member m (em_peer member)"
    and "overlay_peer lib (em_transport_peer member) = em_peer member"
    by (simp_all add: is_overlay_member_def)
qed

text \<open>The routes that may be inserted: well-formed prefixes of the given owners.\<close>

definition entries_of :: "peer_id set \<Rightarrow> route_entry list \<Rightarrow> bool" where
  "entries_of owners entries \<longleftrightarrow>
     (\<forall>entry \<in> set entries. \<forall>r. entry = Ok r \<longrightarrow> route_owner r \<in> owners \<and> cidr_wf (route_prefix r))"

lemma entries_of_simps [simp]:
  "entries_of owners []"
  "entries_of owners (xs @ ys) \<longleftrightarrow> entries_of owners xs \<and> entries_of owners ys"
  "entries_of owners (concat xss) \<longleftrightarrow> (\<forall>xs \<in> set xss. entries_of owners xs)"
  by (auto simp: entries_of_def)

lemma entries_of_routes:
  assumes "owner \<in> owners"
  shows "entries_of owners (builtin_routes owner)"
    and "entries_of owners (alias_routes owner vpn_ip)" and "entries_of owners (granted_routes owner routes)"
  using assms
  by (auto simp: entries_of_def builtin_routes_def alias_routes_def granted_routes_def host_route_def
      route_config_prefix_def and_then_Inr_iff cidr_new_wf vpn_ip_host_route_wf parse_cidr_wf split: option.splits)

lemma insert_routes_sound:
  assumes "insert_routes table entries = Ok table'" and "entries_of owners entries"
    and "authorized_table table" and "\<forall>r \<in> set (table_routes table). route_owner r \<in> owners"
  shows "authorized_table table' \<and> (\<forall>r \<in> set (table_routes table'). route_owner r \<in> owners)"
  using assms
proof (induction table entries rule: insert_routes.induct)
  case (2 table entry entries)
  from "2.prems"(1) obtain r where entry: "entry = Ok r" by (auto simp: and_then_Inr_iff)
  obtain result t where inserted: "insert_authorized table r = (result, t)" by force
  with "2.prems"(1) entry have t: "insert_authorized table r = (Ok (), t)" and rest: "insert_routes t entries = Ok table'"
    by (auto split: sum.splits)
  have r: "route_owner r \<in> owners" "cidr_wf (route_prefix r)"
    using "2.prems"(2) entry by (auto simp: entries_of_def)
  have "authorized_table t" using authorized_insert [OF "2.prems"(3) r(2)] t by simp
  moreover have "set (table_routes t) \<subseteq> insert r (set (table_routes table))"
    using t by (auto simp: insert_authorized_def sort_routes_def split: if_splits option.splits)
  moreover have "entries_of owners entries" using "2.prems"(2) by (auto simp: entries_of_def)
  ultimately show ?case using "2.IH" [OF t [symmetric] refl] "2.prems"(4) r(1) rest by blast
qed simp

lemma authorized_members:
  assumes "members_keyed lib m" and "member \<in> set (authorized_overlay_members (authorization_for m local_peer))"
  shows "admits lib c m local_peer (em_peer member)"
  using overlay_members_iff(1) [OF assms(1), of member] assms(2)
  by (auto simp: authorized_overlay_members_def authorization_for_def admits_iff)

lemma compile_routes_sound:
  assumes keyed: "members_keyed lib m" and "compile_routes_with_membership lib c m = Ok table"
    and local_peer: "config_local_peer_id lib c = Ok local_peer"
  shows "authorized_table table \<and>
    (\<forall>r \<in> set (table_routes table). route_owner r = local_peer \<or> admits lib c m local_peer (route_owner r))"
proof -
  let ?owners = "insert local_peer {peer. admits lib c m local_peer peer}"
  let ?auth = "authorization_for m local_peer"
  have "entries_of ?owners (peer_routes lib ?auth p)" if p: "p \<in> set (cf_peers c)" for p
  proof (cases "peer_config_id lib p")
    case (Inr owner)
    then have "owner \<in> configured_peers lib c" using p by (auto simp: configured_peers_def)
    then have "authorizes_configured_peer ?auth owner \<Longrightarrow> owner \<in> ?owners"
      by (simp add: admits_def authorizes_configured_peer_def)
    then show ?thesis using Inr by (simp add: peer_routes_def entries_of_routes)
  qed (simp add: peer_routes_def entries_of_def)
  moreover have "entries_of ?owners (member_routes member)"
    if "member \<in> set (authorized_overlay_members ?auth)" for member
    using authorized_members [OF keyed that] by (simp add: member_routes_def entries_of_routes)
  ultimately have "entries_of ?owners
      (builtin_routes local_peer @ alias_routes local_peer (cf_vpn_ip c) @ granted_routes local_peer (cf_routes c) @
       concat (map (peer_routes lib ?auth) (cf_peers c)) @
       concat (map member_routes (authorized_overlay_members ?auth)))"
    by (simp add: entries_of_routes)
  from insert_routes_sound [OF _ this authorized_new] assms(2) show ?thesis
    by (auto simp: compile_routes_with_membership_def local_peer Let_def route_table_new_def)
qed

text \<open>Transport peers are admitted peers, each under the overlay identity of its transport identity.\<close>

definition transports_of ::
    "('kp, 'key, 'l) membership_library \<Rightarrow> peer_id set \<Rightarrow> (peer_id, 'l) hash_map \<Rightarrow> bool" where
  "transports_of lib owners peers \<longleftrightarrow>
     hm_wf peers \<and> (\<forall>e \<in> set peers. fst e \<in> owners \<and> overlay_peer lib (snd e) = fst e)"

lemma transports_of_insert:
  "transports_of lib owners peers \<Longrightarrow> overlay_peer lib l \<in> owners \<Longrightarrow>
     transports_of lib owners (hm_insert peers (overlay_peer lib l) l)"
  by (auto simp: transports_of_def set_hm_insert_eq)

lemma configured_transports_sound:
  assumes "configured_transports lib auth peers ps = Ok peers'" and "transports_of lib owners peers"
    and "\<And>p l. p \<in> set ps \<Longrightarrow> libp2p_from_str (ml_identity lib) (pc_id p) = Some l \<Longrightarrow>
      authorizes_configured_peer auth (overlay_peer lib l) \<Longrightarrow> overlay_peer lib l \<in> owners"
  shows "transports_of lib owners peers'"
  using assms
proof (induction ps arbitrary: peers)
  case (Cons p ps)
  from Cons.prems(1) obtain l where l: "libp2p_from_str (ml_identity lib) (pc_id p) = Some l"
    and rest: "configured_transports lib auth
      (if authorizes_configured_peer auth (overlay_peer lib l) then hm_insert peers (overlay_peer lib l) l else peers) ps = Ok peers'"
    by (auto simp: and_then_Inr_iff Let_def)
  have "transports_of lib owners
      (if authorizes_configured_peer auth (overlay_peer lib l) then hm_insert peers (overlay_peer lib l) l else peers)"
    using Cons.prems(2) Cons.prems(3) [of p l] l by (simp add: transports_of_insert)
  then show ?case by (rule Cons.IH [OF rest]) (use Cons.prems(3) in auto)
qed simp

lemma transport_peers_sound:
  assumes keyed: "members_keyed lib m" and "transport_peers_from_membership lib c m = Ok peers"
    and local_peer: "config_local_peer_id lib c = Ok local_peer"
  shows "transports_of lib {peer. admits lib c m local_peer peer} peers"
proof -
  let ?owners = "{peer. admits lib c m local_peer peer}" and ?auth = "authorization_for m local_peer"
  from assms(2) obtain start where start: "configured_transports lib ?auth [] (cf_peers c) = Ok start"
    and peers: "peers = foldl (\<lambda>peers member. if em_peer member \<noteq> local_peer
      then hm_insert peers (em_peer member) (em_transport_peer member) else peers) start (authorized_overlay_members ?auth)"
    by (auto simp: transport_peers_from_membership_def local_peer Let_def and_then_Inr_iff)
  have "transports_of lib ?owners start"
  proof (rule configured_transports_sound [OF start])
    fix p l
    assume "p \<in> set (cf_peers c)" "libp2p_from_str (ml_identity lib) (pc_id p) = Some l"
      and "authorizes_configured_peer ?auth (overlay_peer lib l)"
    moreover from this have "overlay_peer lib l \<in> configured_peers lib c"
      by (auto simp: configured_peers_def peer_config_id_def parse_peer_id_def peer_id_from_str_def overlay_peer_def
          intro!: bexI [of _ p])
    ultimately show "overlay_peer lib l \<in> ?owners" by (simp add: admits_def authorizes_configured_peer_def)
  qed (simp add: transports_of_def)
  then have "transports_of lib ?owners (foldl (\<lambda>peers member. if em_peer member \<noteq> local_peer
      then hm_insert peers (em_peer member) (em_transport_peer member) else peers) start members)"
    if "set members \<subseteq> set (authorized_overlay_members ?auth)" for members
    using that
  proof (induction members arbitrary: start)
    case (Cons member members)
    then have member: "member \<in> set (authorized_overlay_members ?auth)" by simp
    then have "overlay_peer lib (em_transport_peer member) = em_peer member"
      using overlay_members_iff(3) [OF keyed] by (auto simp: authorized_overlay_members_def authorization_for_def)
    then have "transports_of lib ?owners (hm_insert start (em_peer member) (em_transport_peer member))"
      using transports_of_insert [of lib ?owners start "em_transport_peer member"] Cons.prems(1)
        authorized_members [OF keyed member] by simp
    then show ?case using Cons by auto
  qed simp
  then show ?thesis unfolding peers by blast
qed

lemma effective_loop_keyed:
  assumes "effective_loop lib records ev m states = Ok m'" and "members_keyed lib m"
  shows "members_keyed lib m' \<and> eff_checkpoint_authoritative m' = eff_checkpoint_authoritative m"
  using assms
proof (induction lib records ev m states rule: effective_loop.induct)
  case (2 lib records ev m peer state rest)
  then show ?case
    by (fastforce simp: Let_def and_then_Inr_iff members_keyed_def set_hm_insert_eq effective_member_from_payload_def
        split: if_splits)
qed simp

lemma effective_membership_keyed:
  "effective_membership_at lib records network now = Ok m \<Longrightarrow>
     members_keyed lib m \<and> \<not> eff_checkpoint_authoritative m"
  by (auto simp: effective_membership_at_def effective_from_evaluation_def and_then_Inr_iff members_keyed_def
      dest!: effective_loop_keyed)

end
