(* ===== verification/Hostname.thy ===== *)
theory Hostname
  imports Identity Config_Text
begin

text \<open>
  Signed hostname records (\<open>src/src/hostname.rs\<close>): one per peer, replaced by a record of a higher
  sequence. Serialisation belongs to an external crate and is part of the library record; \<open>None\<close> is a
  serialisation error.
\<close>

definition HOSTNAME_RECORD_VERSION :: u8 where "HOSTNAME_RECORD_VERSION = 1"
definition MAX_HOSTNAME_RECORD_INTEGER :: u64 where "MAX_HOSTNAME_RECORD_INTEGER = 0x7fffffffffffffff"
definition MAX_HOSTNAME_RECORDS :: usize where "MAX_HOSTNAME_RECORDS = 256"
definition MAX_HOSTNAME_RECORD_ENCODED_LEN :: usize where "MAX_HOSTNAME_RECORD_ENCODED_LEN = 2 * 1024"

text \<open>The text \<open>p2p-vpn hostname record v1\<close> and a line feed.\<close>

definition HOSTNAME_SIGNING_DOMAIN :: bytes where
  "HOSTNAME_SIGNING_DOMAIN =
     [0x70, 0x32, 0x70, 0x2d, 0x76, 0x70, 0x6e, 0x20, 0x68, 0x6f, 0x73, 0x74, 0x6e, 0x61, 0x6d, 0x65,
      0x20, 0x72, 0x65, 0x63, 0x6f, 0x72, 0x64, 0x20, 0x76, 0x31, 0x0a]"

record hostname_payload =
  hnp_version :: u8
  hnp_network_name :: bytes
  hnp_peer :: bytes
  hnp_public_key :: bytes
  hnp_sequence :: u64
  hnp_hostname :: bytes
  hnp_issued_at :: u64

record hostname_record =
  hr_payload :: hostname_payload
  hr_signature :: bytes

record hostname_stats =
  hn_accepted :: usize
  hn_ignored_stale_or_equal :: usize

record ('kp, 'key, 'l) hostname_library =
  hl_identity :: "('kp, 'key, 'l) identity_library"
  hostname_payload_to_json :: "hostname_payload \<Rightarrow> bytes option"
  hostname_record_to_json :: "hostname_record \<Rightarrow> bytes option"

datatype hostname_error =
    HostnameBase64
  | HostnameIdentity identity_error
  | HostnameJson
  | HostnamePeerId
  | InvalidHostname dns_name_error
  | HostnameUnsupportedVersion u8
  | HostnameEmptyNetworkName
  | HostnameIntegerOutOfRange
  | NonCanonicalHostname
  | HostnamePublicKeyPeerMismatch bytes bytes
  | HostnameInvalidSignature
  | HostnameNetworkMismatch bytes bytes
  | ConflictingHostnameVersion bytes u64
  | TooManyHostnameRecords usize usize
  | HostnameRecordTooLarge usize usize

abbreviation record_peer :: "hostname_record \<Rightarrow> bytes" where
  "record_peer r \<equiv> hnp_peer (hr_payload r)"

abbreviation record_sequence :: "hostname_record \<Rightarrow> u64" where
  "record_sequence r \<equiv> hnp_sequence (hr_payload r)"

subsection \<open>Records\<close>

definition validate_hostname_record_payload :: "hostname_payload \<Rightarrow> (unit, hostname_error) result" where
  "validate_hostname_record_payload p =
     (if hnp_version p \<noteq> HOSTNAME_RECORD_VERSION then Err (HostnameUnsupportedVersion (hnp_version p))
      else if hnp_network_name p = [] then Err HostnameEmptyNetworkName
      else if hnp_sequence p > MAX_HOSTNAME_RECORD_INTEGER \<or> hnp_issued_at p > MAX_HOSTNAME_RECORD_INTEGER
        then Err HostnameIntegerOutOfRange
      else and_then (map_err InvalidHostname (canonical_dns_label (hnp_hostname p))) (\<lambda>name.
             if name \<noteq> hnp_hostname p then Err NonCanonicalHostname else Ok ()))"

definition hostname_signing_message ::
    "('kp, 'key, 'l) hostname_library \<Rightarrow> hostname_payload \<Rightarrow> (bytes, hostname_error) result" where
  "hostname_signing_message lib p =
     and_then (ok_or (hostname_payload_to_json lib p) HostnameJson) (\<lambda>json.
       Ok (HOSTNAME_SIGNING_DOMAIN @ json))"

definition decode_hostname_key ::
    "('kp, 'key, 'l) hostname_library \<Rightarrow> bytes \<Rightarrow> ('key, hostname_error) result" where
  "decode_hostname_key lib encoded =
     and_then (ok_or (base64_decode (hl_identity lib) encoded) HostnameBase64) (\<lambda>bs.
       ok_or (key_try_decode_protobuf (hl_identity lib) bs) (HostnameIdentity IdentityLibp2p))"

definition validate_hostname_record_len ::
    "('kp, 'key, 'l) hostname_library \<Rightarrow> hostname_record \<Rightarrow> (unit, hostname_error) result" where
  "validate_hostname_record_len lib r =
     and_then (ok_or (hostname_record_to_json lib r) HostnameJson) (\<lambda>json.
       if length json > MAX_HOSTNAME_RECORD_ENCODED_LEN
       then Err (HostnameRecordTooLarge MAX_HOSTNAME_RECORD_ENCODED_LEN (length json)) else Ok ())"

definition hostname_verify ::
    "('kp, 'key, 'l) hostname_library \<Rightarrow> hostname_record \<Rightarrow> (unit, hostname_error) result" where
  "hostname_verify lib r =
     (let p = hr_payload r; ids = hl_identity lib in
      and_then (validate_hostname_record_len lib r) (\<lambda>_.
      and_then (validate_hostname_record_payload p) (\<lambda>_.
      and_then (decode_hostname_key lib (hnp_public_key p)) (\<lambda>key.
      and_then (ok_or (libp2p_from_str ids (hnp_peer p)) HostnamePeerId) (\<lambda>peer.
      if key_to_peer_id ids key \<noteq> peer
      then Err (HostnamePublicKeyPeerMismatch (hnp_peer p) (libp2p_to_string ids (key_to_peer_id ids key)))
      else
        and_then (ok_or (base64_decode ids (hr_signature r)) HostnameBase64) (\<lambda>signature.
        and_then (hostname_signing_message lib p) (\<lambda>message.
          if \<not> key_verify ids key message signature then Err HostnameInvalidSignature else Ok ())))))))"

definition hostname_overlay_peer ::
    "('kp, 'key, 'l) hostname_library \<Rightarrow> hostname_record \<Rightarrow> (peer_id, hostname_error) result" where
  "hostname_overlay_peer lib r =
     and_then (ok_or (libp2p_from_str (hl_identity lib) (record_peer r)) HostnamePeerId) (\<lambda>peer.
       Ok (from_libp2p (digest_sha256 (hl_identity lib)) (libp2p_to_bytes (hl_identity lib)) peer))"

definition issue_hostname_record_at ::
    "('kp, 'key, 'l) hostname_library \<Rightarrow> node_identity \<Rightarrow> bytes \<Rightarrow> bytes \<Rightarrow> u64 \<Rightarrow> u64 \<Rightarrow>
     (hostname_record, hostname_error) result" where
  "issue_hostname_record_at lib i network_name hostname number issued_at =
     and_then (map_err HostnameIdentity (public_key_protobuf (hl_identity lib) i)) (\<lambda>key.
     and_then (map_err InvalidHostname (canonical_dns_label hostname)) (\<lambda>name.
     let p = \<lparr>hnp_version = HOSTNAME_RECORD_VERSION, hnp_network_name = network_name, hnp_peer = ni_peer_id i,
              hnp_public_key = base64_encode (hl_identity lib) key, hnp_sequence = number,
              hnp_hostname = name, hnp_issued_at = issued_at\<rparr> in
     and_then (validate_hostname_record_payload p) (\<lambda>_.
     and_then (hostname_signing_message lib p) (\<lambda>message.
     and_then (map_err HostnameIdentity (identity_sign (hl_identity lib) i message)) (\<lambda>signature.
     let r = \<lparr>hr_payload = p, hr_signature = base64_encode (hl_identity lib) signature\<rparr> in
     and_then (hostname_verify lib r) (\<lambda>_. Ok r))))))"

subsection \<open>Histories and merging\<close>

fun latest_hostnames ::
    "hostname_record list \<Rightarrow> (bytes, usize) hash_map \<Rightarrow> usize list \<Rightarrow> ((bytes, usize) hash_map, hostname_error) result" where
  "latest_hostnames records latest [] = Ok latest"
| "latest_hostnames records latest (i # is) =
     (let r = records ! i in
      case hm_get latest (record_peer r) of
        None \<Rightarrow> latest_hostnames records (hm_insert latest (record_peer r) i) is
      | Some j \<Rightarrow>
          if record_sequence r > record_sequence (records ! j)
          then latest_hostnames records (hm_insert latest (record_peer r) i) is
          else if record_sequence r = record_sequence (records ! j) \<and> r \<noteq> records ! j
          then Err (ConflictingHostnameVersion (record_peer r) (record_sequence r))
          else latest_hostnames records latest is)"

definition canonical_hostname_records :: "hostname_record list \<Rightarrow> (hostname_record list, hostname_error) result" where
  "canonical_hostname_records records =
     and_then (latest_hostnames records [] [0..<length records]) (\<lambda>latest.
       Ok (sort_key record_peer (map (\<lambda>(_, i). records ! i) latest)))"

fun check_hostname_records ::
    "('kp, 'key, 'l) hostname_library \<Rightarrow> bytes \<Rightarrow> hostname_record list \<Rightarrow> (unit, hostname_error) result" where
  "check_hostname_records lib network_name [] = Ok ()"
| "check_hostname_records lib network_name (r # rs) =
     (if hnp_network_name (hr_payload r) \<noteq> network_name
      then Err (HostnameNetworkMismatch network_name (hnp_network_name (hr_payload r)))
      else and_then (hostname_verify lib r) (\<lambda>_. check_hostname_records lib network_name rs))"

definition validate_hostname_history ::
    "('kp, 'key, 'l) hostname_library \<Rightarrow> hostname_record list \<Rightarrow> bytes \<Rightarrow> (unit, hostname_error) result" where
  "validate_hostname_history lib records network_name =
     (if length records > MAX_HOSTNAME_RECORDS
      then Err (TooManyHostnameRecords MAX_HOSTNAME_RECORDS (length records))
      else and_then (check_hostname_records lib network_name records) (\<lambda>_.
           and_then (canonical_hostname_records records) (\<lambda>_. Ok ())))"

fun merge_hostname_loop ::
    "usize \<Rightarrow> hostname_record list \<Rightarrow> hostname_stats \<Rightarrow> hostname_record list \<Rightarrow>
     (hostname_record list \<times> hostname_stats, hostname_error) result" where
  "merge_hostname_loop max_records merged stats [] = Ok (merged, stats)"
| "merge_hostname_loop max_records merged stats (r # rs) =
     (case position (\<lambda>e. record_peer e = record_peer r) merged of
        Some index \<Rightarrow>
          (let existing = merged ! index in
           if record_sequence r > record_sequence existing
           then merge_hostname_loop max_records (merged[index := r]) (stats\<lparr>hn_accepted := hn_accepted stats + 1\<rparr>) rs
           else if record_sequence r = record_sequence existing \<and> r \<noteq> existing
           then Err (ConflictingHostnameVersion (record_peer r) (record_sequence r))
           else merge_hostname_loop max_records merged
                  (stats\<lparr>hn_ignored_stale_or_equal := hn_ignored_stale_or_equal stats + 1\<rparr>) rs)
      | None \<Rightarrow>
          if length merged \<ge> max_records
          then Err (TooManyHostnameRecords max_records (length merged + 1))
          else merge_hostname_loop max_records (merged @ [r]) (stats\<lparr>hn_accepted := hn_accepted stats + 1\<rparr>) rs)"

definition merge_hostname_records ::
    "('kp, 'key, 'l) hostname_library \<Rightarrow> hostname_record list \<Rightarrow> hostname_record list \<Rightarrow> bytes \<Rightarrow> usize \<Rightarrow>
     (hostname_record list \<times> hostname_stats, hostname_error) result" where
  "merge_hostname_records lib records incoming network_name max_records =
     and_then (validate_hostname_history lib records network_name) (\<lambda>_.
     and_then (validate_hostname_history lib incoming network_name) (\<lambda>_.
     and_then (canonical_hostname_records records) (\<lambda>merged.
     and_then (merge_hostname_loop max_records merged \<lparr>hn_accepted = 0, hn_ignored_stale_or_equal = 0\<rparr> incoming)
       (\<lambda>(merged, stats). Ok (sort_key record_peer merged, stats)))))"

fun collect_hostnames ::
    "('kp, 'key, 'l) hostname_library \<Rightarrow> (peer_id, bytes) hash_map \<Rightarrow> hostname_record list \<Rightarrow>
     ((peer_id, bytes) hash_map, hostname_error) result" where
  "collect_hostnames lib names [] = Ok names"
| "collect_hostnames lib names (r # rs) =
     and_then (hostname_overlay_peer lib r) (\<lambda>peer.
       collect_hostnames lib (hm_insert names peer (hnp_hostname (hr_payload r))) rs)"

definition effective_hostname_records ::
    "('kp, 'key, 'l) hostname_library \<Rightarrow> hostname_record list \<Rightarrow> bytes \<Rightarrow>
     ((peer_id, bytes) hash_map, hostname_error) result" where
  "effective_hostname_records lib records network_name =
     and_then (validate_hostname_history lib records network_name) (\<lambda>_.
     and_then (canonical_hostname_records records) (\<lambda>records. collect_hostnames lib [] records))"

subsection \<open>The newest record of every peer\<close>

text \<open>
  \<open>C\<close> holds one record of every peer that occurs in \<open>R\<close>, and every other record of the peer in \<open>R\<close> has a
  lower sequence.
\<close>

definition newest_names :: "hostname_record set \<Rightarrow> hostname_record set \<Rightarrow> bool" where
  "newest_names R C \<longleftrightarrow> C \<subseteq> R \<and> inj_on record_peer C \<and>
     (\<forall>r \<in> R. \<exists>c \<in> C. record_peer c = record_peer r \<and> (record_sequence r < record_sequence c \<or> r = c))"

lemma newest_names_unique:
  assumes "newest_names R C" and "newest_names R D"
  shows "C = D"
proof -
  have "c \<in> D" if C: "newest_names R C" "newest_names R D" "c \<in> C" for C D c
  proof -
    have "c \<in> R" using C by (auto simp: newest_names_def)
    then obtain d where d: "d \<in> D" "record_peer d = record_peer c" "record_sequence c < record_sequence d \<or> c = d"
      using C(2) unfolding newest_names_def by blast
    have "d \<in> R" using d(1) C(2) by (auto simp: newest_names_def)
    then obtain e where e: "e \<in> C" "record_peer e = record_peer d" "record_sequence d < record_sequence e \<or> d = e"
      using C(1) unfolding newest_names_def by blast
    have "e = c" using C(1,3) e(1,2) d(2) by (auto simp: newest_names_def inj_on_def)
    with d e show ?thesis by (auto dest: less_trans)
  qed
  with assms show ?thesis by blast
qed

lemma newest_names_add:
  assumes "newest_names R C" and "\<forall>c \<in> C. record_peer c = record_peer r \<longrightarrow> record_sequence c < record_sequence r"
  shows "newest_names (insert r R) (insert r {c \<in> C. record_peer c \<noteq> record_peer r})"
proof -
  let ?D = "insert r {c \<in> C. record_peer c \<noteq> record_peer r}"
  have "\<exists>d \<in> ?D. record_peer d = record_peer s \<and> (record_sequence s < record_sequence d \<or> s = d)" if "s \<in> R" for s
  proof -
    from assms(1) that obtain c where c: "c \<in> C" "record_peer c = record_peer s"
      "record_sequence s < record_sequence c \<or> s = c" unfolding newest_names_def by blast
    show ?thesis
    proof (cases "record_peer c = record_peer r")
      case True
      then have "record_sequence s < record_sequence r" using assms(2) c by (metis less_trans)
      then show ?thesis using True c(2) by auto
    next
      case False
      then show ?thesis using c by auto
    qed
  qed
  with assms(1) show ?thesis by (auto simp: newest_names_def inj_on_def)
qed

lemma newest_names_skip:
  assumes "newest_names R C" and "c \<in> C" and "record_peer c = record_peer r"
    and "record_sequence r < record_sequence c \<or> r = c"
  shows "newest_names (insert r R) C"
  using assms by (auto simp: newest_names_def)

lemma latest_hostnames_newest:
  assumes "latest_hostnames records latest is = Ok result"
    and "hm_wf latest" and "\<forall>e \<in> set latest. fst e = record_peer (records ! snd e)"
    and "newest_names R ((\<lambda>e. records ! snd e) ` set latest)"
  shows "hm_wf result \<and> (\<forall>e \<in> set result. fst e = record_peer (records ! snd e)) \<and>
    newest_names (R \<union> (!) records ` set is) ((\<lambda>e. records ! snd e) ` set result)"
  using assms
proof (induction records latest "is" arbitrary: R rule: latest_hostnames.induct)
  case (2 records latest i "is")
  let ?r = "records ! i" and ?image = "\<lambda>m. (\<lambda>e. records ! snd e) ` set m"
  have inserted: "?image (hm_insert latest (record_peer ?r) i) = insert ?r {c \<in> ?image latest. record_peer c \<noteq> record_peer ?r}"
    using "2.prems"(2,3) by (force simp: set_hm_insert_eq)
  have keys: "\<forall>e \<in> set (hm_insert latest (record_peer ?r) i). fst e = record_peer (records ! snd e)"
    using "2.prems"(2,3) by (simp add: set_hm_insert_eq)
  have union: "R \<union> (!) records ` set (i # is) = insert ?r R \<union> (!) records ` set is" by auto
  note add = newest_names_add [OF "2.prems"(4), of ?r, folded inserted]
  show ?case
  proof (cases "hm_get latest (record_peer ?r)")
    case None
    then have "\<forall>c \<in> ?image latest. record_peer c \<noteq> record_peer ?r"
      using "2.prems"(2,3) by (force simp: hm_get_None_iff)
    then show ?thesis using "2.IH"(1) [OF refl None, of "insert ?r R"] "2.prems" None keys add
      unfolding union by (auto simp: Let_def)
  next
    case (Some j)
    then have j: "(record_peer ?r, j) \<in> set latest" using "2.prems"(2) by (simp add: hm_get_Some_iff)
    then have c: "records ! j \<in> ?image latest" "record_peer (records ! j) = record_peer ?r"
      using "2.prems"(3) by force+
    have only: "c = records ! j" if "c \<in> ?image latest" "record_peer c = record_peer ?r" for c
      using inj_onD [OF _ _ that(1) c(1)] "2.prems"(4) that(2) c(2) by (metis newest_names_def)
    consider "record_sequence ?r > record_sequence (records ! j)"
      | "\<not> record_sequence ?r > record_sequence (records ! j)"
        "record_sequence ?r < record_sequence (records ! j) \<or> ?r = records ! j"
      using "2.prems"(1) Some by (fastforce simp: Let_def split: if_splits)
    then show ?thesis
    proof cases
      case 1
      have "\<forall>c \<in> ?image latest. record_peer c = record_peer ?r \<longrightarrow> record_sequence c < record_sequence ?r"
      proof (intro ballI impI)
        fix c assume "c \<in> ?image latest" "record_peer c = record_peer ?r"
        from only [OF this] 1 show "record_sequence c < record_sequence ?r" by simp
      qed
      from add [OF this] 1 show ?thesis using "2.IH"(2) [OF refl Some 1, of "insert ?r R"] "2.prems" Some keys
        unfolding union by (auto simp: Let_def)
    next
      case 2
      then have "\<not> (record_sequence ?r = record_sequence (records ! j) \<and> ?r \<noteq> records ! j)" by auto
      from "2.IH"(3) [OF refl Some 2(1) this, of "insert ?r R"] "2.prems" Some 2(1) this
        newest_names_skip [OF "2.prems"(4) c 2(2)]
      show ?thesis unfolding union by (auto simp: Let_def)
    qed
  qed
qed simp

lemma sort_peers:
  assumes "inj_on record_peer (set rs)" and "distinct rs"
  shows "sorted_wrt (<) (map record_peer (sort_key record_peer rs))"
  using assms by (simp add: strict_sorted_iff distinct_map)

lemma canonical_hostname_records_newest:
  assumes "canonical_hostname_records records = Ok rs"
  shows "newest_names (set records) (set rs)" and "sorted_wrt (<) (map record_peer rs)"
proof -
  from assms obtain latest where latest: "latest_hostnames records [] [0..<length records] = Ok latest"
    and rs: "rs = sort_key record_peer (map (\<lambda>e. records ! snd e) latest)"
    by (auto simp: canonical_hostname_records_def and_then_Inr_iff case_prod_unfold)
  from latest_hostnames_newest [OF latest, of "{}"] have wf: "hm_wf latest"
    and keys: "\<forall>e \<in> set latest. fst e = record_peer (records ! snd e)"
    and newest: "newest_names ((!) records ` {0..<length records}) ((\<lambda>e. records ! snd e) ` set latest)"
    by (auto simp: newest_names_def)
  have "(!) records ` {0..<length records} = set records" by (auto simp: in_set_conv_nth)
  with newest show newest': "newest_names (set records) (set rs)" by (simp add: rs)
  have "map record_peer (map (\<lambda>e. records ! snd e) latest) = map fst latest" using keys by simp
  then have "distinct (map record_peer (map (\<lambda>e. records ! snd e) latest))"
    using wf unfolding hm_wf_def by (simp only:)
  then show "sorted_wrt (<) (map record_peer rs)"
    unfolding rs by (intro sort_peers) (simp_all only: distinct_map set_map)
qed

lemma merge_hostname_loop_newest:
  assumes "merge_hostname_loop n merged stats incoming = Ok (result, stats')"
    and "newest_names R (set merged)" and "distinct (map record_peer merged)" and "length merged \<le> n"
  shows "newest_names (R \<union> set incoming) (set result) \<and> distinct (map record_peer result) \<and> length result \<le> n \<and>
    hn_accepted stats' + hn_ignored_stale_or_equal stats' =
      hn_accepted stats + hn_ignored_stale_or_equal stats + length incoming"
  using assms
proof (induction n merged stats incoming arbitrary: R rule: merge_hostname_loop.induct)
  case (2 n merged stats r rs)
  show ?case
  proof (cases "position (\<lambda>e. record_peer e = record_peer r) merged")
    case None
    then have fresh: "\<forall>c \<in> set merged. record_peer c \<noteq> record_peer r" by (simp add: position_None_iff)
    then have "{c \<in> set merged. record_peer c \<noteq> record_peer r} = set merged" by auto
    with newest_names_add [OF "2.prems"(2), of r] fresh have "newest_names (insert r R) (set (merged @ [r]))" by simp
    moreover have room: "\<not> n \<le> length merged" using "2.prems"(1) None by (auto split: if_splits)
    moreover have "record_peer r \<notin> record_peer ` set merged" using fresh by (metis imageE)
    ultimately show ?thesis using "2.IH"(1) [OF None room, of "insert r R"] "2.prems" None by auto
  next
    case (Some i)
    then have i: "i < length merged" "record_peer (merged ! i) = record_peer r" by (auto dest: position_SomeD)
    have inj: "inj_on record_peer (set merged)" using "2.prems"(3) by (simp add: distinct_map)
    then have rest: "set merged - {merged ! i} = {c \<in> set merged. record_peer c \<noteq> record_peer r}"
      using i nth_mem [OF i(1)] by (auto simp: inj_on_def)
    have update: "set (merged[i := r]) = insert r {c \<in> set merged. record_peer c \<noteq> record_peer r}"
      "map record_peer (merged[i := r]) = map record_peer merged"
      using i "2.prems"(3) rest by (simp_all add: set_update_distinct distinct_map map_update list_update_same_conv)
    consider "record_sequence r > record_sequence (merged ! i)"
      | "\<not> record_sequence r > record_sequence (merged ! i)"
        "record_sequence r < record_sequence (merged ! i) \<or> r = merged ! i"
      using "2.prems"(1) Some by (fastforce simp: Let_def split: if_splits)
    then show ?thesis
    proof cases
      case 1
      have "\<forall>c \<in> set merged. record_peer c = record_peer r \<longrightarrow> record_sequence c < record_sequence r"
        using 1 i inj nth_mem [OF i(1)] by (metis inj_onD)
      from newest_names_add [OF "2.prems"(2) this] have "newest_names (insert r R) (set (merged[i := r]))"
        by (simp only: update)
      then show ?thesis using "2.IH"(2) [OF Some refl 1, of "insert r R"] "2.prems" Some 1 update(2)
        by (auto simp: Let_def)
    next
      case 2
      then have skip: "\<not> (record_sequence r = record_sequence (merged ! i) \<and> r \<noteq> merged ! i)" by auto
      have "newest_names (insert r R) (set merged)"
        by (rule newest_names_skip [OF "2.prems"(2) nth_mem [OF i(1)] i(2) 2(2)])
      then show ?thesis using "2.IH"(3) [OF Some refl 2(1) skip, of "insert r R"] "2.prems" Some 2(1) skip
        by (auto simp: Let_def)
    qed
  qed
qed simp

text \<open>
  C40: merging hostname records keeps exactly the newest record of every peer, sorted by peer, within the
  limit, and counts every incoming record once. Hence the result depends only on the set of records seen:
  two nodes that merge the same records, in any order and any split between their own and the incoming
  ones, hold the same list and resolve the same names.
\<close>

theorem hostname_merge_keeps_newest:
  fixes lib :: "('kp, 'key, 'l) hostname_library"
  assumes "merge_hostname_records lib records incoming network n = Ok (merged, stats)"
    and "merge_hostname_records lib records' incoming' network n' = Ok (merged', stats')"
    and "set records \<union> set incoming = set records' \<union> set incoming'" and "length records \<le> n" "length records' \<le> n'"
  shows "newest_names (set records \<union> set incoming) (set merged) \<and> sorted_wrt (<) (map record_peer merged) \<and>
    length merged \<le> n \<and> hn_accepted stats + hn_ignored_stale_or_equal stats = length incoming \<and> merged' = merged"
proof -
  have result: "newest_names (set rs \<union> set is) (set ms) \<and> sorted_wrt (<) (map record_peer ms) \<and> length ms \<le> m \<and>
      hn_accepted st + hn_ignored_stale_or_equal st = length is"
    if "merge_hostname_records lib rs is network m = Ok (ms, st)" "length rs \<le> m" for rs "is" ms st m
  proof -
    from that(1) obtain canonical unsorted where canonical: "canonical_hostname_records rs = Ok canonical"
      and loop: "merge_hostname_loop m canonical \<lparr>hn_accepted = 0, hn_ignored_stale_or_equal = 0\<rparr> is = Ok (unsorted, st)"
      and ms: "ms = sort_key record_peer unsorted"
      by (auto simp: merge_hostname_records_def and_then_Inr_iff)
    note start = canonical_hostname_records_newest [OF canonical]
    have distinct: "distinct (map record_peer canonical)" using start(2) strict_sorted_iff by blast
    have "length canonical = card (set canonical)" using distinct by (simp add: distinct_map distinct_card)
    also have "\<dots> \<le> length rs" using start(1) card_mono card_length le_trans
      unfolding newest_names_def by (metis List.finite_set)
    finally show ?thesis
      using merge_hostname_loop_newest [OF loop start(1) distinct] that(2) sort_peers [of unsorted]
      by (simp add: ms distinct_map)
  qed
  note first = result [OF assms(1,4)] and second = result [OF assms(2,5)]
  have same: "set merged' = set merged" using first second assms(3) by (metis newest_names_unique)
  then have "map record_peer merged' = map record_peer merged"
    using first second by (intro strict_sorted_equal) simp_all
  moreover have "inj_on record_peer (set merged' \<union> set merged)" using first same by (simp add: newest_names_def)
  ultimately have "merged' = merged" by (rule map_inj_on)
  then show ?thesis using first by simp
qed

definition sample_hostname_library :: "(bytes, bytes, bytes) hostname_library" where
  "sample_hostname_library =
     \<lparr>hl_identity =
        \<lparr>base64_encode = id, base64_decode = Some, keypair_to_protobuf = Some, keypair_from_protobuf = Some,
         keypair_sign = (\<lambda>kp m. Some (kp @ m)), keypair_public = id, key_encode_protobuf = id,
         key_try_decode_protobuf = Some, key_verify = (\<lambda>key m s. s = key @ m), key_to_peer_id = id,
         libp2p_to_string = id, libp2p_from_str = Some, libp2p_to_bytes = id, digest_sha256 = id\<rparr>,
      hostname_payload_to_json = (\<lambda>p. Some [ucast (hnp_sequence p)]), hostname_record_to_json = (\<lambda>r. Some [])\<rparr>"

definition sample_name :: "bytes \<Rightarrow> u64 \<Rightarrow> bytes \<Rightarrow> hostname_record" where
  "sample_name peer number name =
     \<lparr>hr_payload = \<lparr>hnp_version = 1, hnp_network_name = [7], hnp_peer = peer, hnp_public_key = peer,
        hnp_sequence = number, hnp_hostname = name, hnp_issued_at = 3\<rparr>,
      hr_signature = peer @ HOSTNAME_SIGNING_DOMAIN @ [ucast number]\<rparr>"

lemmas hostname_evaluation =
  merge_hostname_records_def validate_hostname_history_def canonical_hostname_records_def hostname_verify_def
  validate_hostname_record_len_def validate_hostname_record_payload_def decode_hostname_key_def
  hostname_signing_message_def canonical_dns_label_def is_ascii_alphanumeric_def to_ascii_lowercase_def
  sample_hostname_library_def sample_name_def MAX_HOSTNAME_RECORDS_def MAX_HOSTNAME_RECORD_ENCODED_LEN_def
  MAX_HOSTNAME_RECORD_INTEGER_def HOSTNAME_RECORD_VERSION_def

lemma sample_hostname_merges:
  "\<exists>merged stats. merge_hostname_records sample_hostname_library [sample_name [1] 1 [0x61]]
     [sample_name [1] 2 [0x62], sample_name [2] 1 [0x63]] [7] 8 = Ok (merged, stats)"
  "\<exists>merged stats. merge_hostname_records sample_hostname_library [sample_name [2] 1 [0x63]]
     [sample_name [1] 2 [0x62], sample_name [1] 1 [0x61]] [7] 8 = Ok (merged, stats)"
  by (simp_all add: hostname_evaluation Let_def upt_rec hm_get_def hm_insert_def)

theorem hostname_merge_keeps_newest_witness:
  "\<exists>merged stats stats'.
     merge_hostname_records sample_hostname_library [sample_name [1] 1 [0x61]]
       [sample_name [1] 2 [0x62], sample_name [2] 1 [0x63]] [7] 8 = Ok (merged, stats) \<and>
     merge_hostname_records sample_hostname_library [sample_name [2] 1 [0x63]]
       [sample_name [1] 2 [0x62], sample_name [1] 1 [0x61]] [7] 8 = Ok (merged, stats') \<and>
     length merged \<le> 8"
proof -
  from sample_hostname_merges obtain merged stats merged' stats' where
    "merge_hostname_records sample_hostname_library [sample_name [1] 1 [0x61]]
       [sample_name [1] 2 [0x62], sample_name [2] 1 [0x63]] [7] 8 = Ok (merged, stats)"
    "merge_hostname_records sample_hostname_library [sample_name [2] 1 [0x63]]
       [sample_name [1] 2 [0x62], sample_name [1] 1 [0x61]] [7] 8 = Ok (merged', stats')" by blast
  with hostname_merge_keeps_newest [OF this] show ?thesis by auto
qed

end
