(* ===== verification/Governor.thy ===== *)
theory Governor
  imports Authority Hostname
begin

text \<open>
  The membership side of the forwarder (\<open>Forwarder\<close>, \<open>ForwarderUpdate\<close>, \<open>CheckpointProjection\<close> and
  \<open>MembershipRefreshWindow\<close> in \<open>src/src/runtime/forward.rs\<close>): how its authority is built from signed
  records or from a checkpoint, refreshed, merged and replaced. The record \<open>governor\<close> has all fields of
  the struct: the ones of the packet path are in its \<open>forwarder\<close>, where the three fields of the
  authorization are \<open>fw_routes\<close>, \<open>fw_peers\<close> and \<open>fw_authorized_peers\<close>.
  \<^item> Every operation assigns after the last point where it can fail, so it returns the new state with its
    result and an error leaves the state as it was.
  \<^item> The random session of a new forwarder is an argument.
  \<^item> Equality of values that contain a hash map compares the maps as sets of entries.
\<close>

record ('kp, 'key, 'l) forward_library =
  fl_checkpoint :: "('kp, 'key, 'l) checkpoint_library"
  fl_hostname :: "('kp, 'key, 'l) hostname_library"

abbreviation fl_membership :: "('kp, 'key, 'l) forward_library \<Rightarrow> ('kp, 'key, 'l) membership_library" where
  "fl_membership lib \<equiv> cl_membership (fl_checkpoint lib)"

datatype governor_error =
    GovernorConfig config_error
  | GovernorHostname hostname_error
  | GovernorMembership membership_error
  | GovernorCheckpoint checkpoint_error
  | LegacyAuthorityDisabled
  | StalePreparedUpdate
  | LocalPeerChanged peer_id peer_id
  | HostnameSequenceExhausted

definition DEFAULT_REPLAY_SESSION_TTL :: duration where "DEFAULT_REPLAY_SESSION_TTL = 15 * 60 * 10 ^ 9"
definition MAX_REPLAY_WINDOWS :: usize where "MAX_REPLAY_WINDOWS = 4096"
definition MAX_RETAINED_MEMBERSHIP_RECORDS :: usize where "MAX_RETAINED_MEMBERSHIP_RECORDS = MAX_MEMBERSHIP_RECORDS"

subsection \<open>Refresh windows\<close>

record refresh_window =
  rw_evaluated_at :: u64
  rw_next_transition :: "u64 option"

fun least_time :: "u64 list \<Rightarrow> u64 option" where
  "least_time [] = None"
| "least_time (t # ts) = Some (foldl min t ts)"

definition record_times :: "signed_record \<Rightarrow> u64 list" where
  "record_times r =
     mp_issued_at (sr_payload r) # (case mp_expires_at (sr_payload r) of Some t \<Rightarrow> [t] | None \<Rightarrow> [])"

definition window_from_records :: "signed_record list \<Rightarrow> u64 \<Rightarrow> refresh_window" where
  "window_from_records records evaluated_at =
     \<lparr>rw_evaluated_at = evaluated_at,
      rw_next_transition = least_time (filter (\<lambda>t. t > evaluated_at) (concat (map record_times records)))\<rparr>"

definition window_contains :: "refresh_window \<Rightarrow> u64 \<Rightarrow> bool" where
  "window_contains w now \<longleftrightarrow>
     now \<ge> rw_evaluated_at w \<and> is_none_or (\<lambda>nxt. now < nxt) (rw_next_transition w)"

subsection \<open>Checkpoint projections\<close>

record 'l checkpoint_projection =
  cp_anchor :: network_anchor
  cp_boundary :: checkpoint_boundary
  cp_rank :: snapshot_rank
  cp_sync_state :: membership_sync_state
  cp_members :: "'l effective_membership"
  cp_incarnations :: "(peer_id, bytes) hash_map"
  cp_expiries :: "(peer_id, u64) hash_map"
  cp_audit :: "'l audit_member list"

text \<open>The loop over the members of the snapshot.\<close>

fun project_members ::
    "('kp, 'key, 'l) forward_library \<Rightarrow> cooperative_state \<Rightarrow>
     (peer_id, bytes) hash_map \<times> (peer_id, u64) hash_map \<times> 'l audit_member list \<Rightarrow> checkpoint_member list \<Rightarrow>
     ((peer_id, bytes) hash_map \<times> (peer_id, u64) hash_map \<times> 'l audit_member list, governor_error) result" where
  "project_members lib state acc [] = Ok acc"
| "project_members lib state (incarnations, expiries, audit) (m # ms) =
     and_then (ok_or (libp2p_from_str (ml_identity (fl_membership lib)) (member_peer m))
       (GovernorHostname HostnamePeerId)) (\<lambda>transport_peer.
     let peer = overlay_peer (fl_membership lib) transport_peer in
       project_members lib state
         (hm_insert incarnations peer (cm_incarnation m),
          (case cm_expires_at m of Some expiry \<Rightarrow> hm_insert expiries peer expiry | None \<Rightarrow> expiries),
          audit @ [\<lparr>am_peer = peer, am_transport_peer = transport_peer, am_state = ActiveMember,
                    am_effective_inviter_peer = None, am_original_inviter_peer = None,
                    am_admitted_at = None, am_original_admitted_at = None, am_state_changed_at = 0,
                    am_hostname = map_option (\<lambda>claim. hc_hostname (sh_payload claim))
                      (find (claim_matches m) (co_names state))\<rparr>]) ms)"

definition projection_from_state ::
    "('kp, 'key, 'l) forward_library \<Rightarrow> cooperative_state \<Rightarrow> peer_id \<Rightarrow> network_anchor \<Rightarrow>
     ('l checkpoint_projection, governor_error) result" where
  "projection_from_state lib state expected_local expected_anchor =
     and_then (ok_or (libp2p_from_str (ml_identity (fl_membership lib)) (co_local_peer state))
       (GovernorHostname HostnamePeerId)) (\<lambda>l.
     let actual_local = overlay_peer (fl_membership lib) l; snapshot = co_snapshot state in
     if expected_local \<noteq> actual_local then Err (LocalPeerChanged expected_local actual_local)
     else if cs_anchor snapshot \<noteq> expected_anchor then Err (GovernorCheckpoint WrongAnchor)
     else
       and_then (project_members lib state ([], [], []) (cs_members snapshot)) (\<lambda>(incarnations, expiries, audit).
       and_then (map_err GovernorCheckpoint (snapshot_boundary (fl_checkpoint lib) snapshot)) (\<lambda>b.
       and_then (map_err GovernorCheckpoint (snapshot_rank_of (fl_checkpoint lib) snapshot)) (\<lambda>rank.
       and_then (map_err GovernorCheckpoint (checkpoint_effective_membership_at (fl_checkpoint lib) state 0)) (\<lambda>members.
         Ok \<lparr>cp_anchor = cs_anchor snapshot, cp_boundary = b, cp_rank = rank,
             cp_sync_state = co_sync_state state, cp_members = members, cp_incarnations = incarnations,
             cp_expiries = expiries, cp_audit = audit\<rparr>)))))"

definition projection_active_at :: "'l checkpoint_projection \<Rightarrow> peer_id \<Rightarrow> u64 \<Rightarrow> bool" where
  "projection_active_at cp peer now \<longleftrightarrow>
     hm_contains (cp_incarnations cp) peer \<and> is_none_or (\<lambda>expiry. now < expiry) (hm_get (cp_expiries cp) peer)"

definition projection_membership_at ::
    "'l checkpoint_projection \<Rightarrow> peer_id \<Rightarrow> u64 \<Rightarrow> 'l effective_membership" where
  "projection_membership_at cp local_peer now =
     (let local_active = (cp_sync_state cp = Participating \<and> projection_active_at cp local_peer now) in
      retain_members (\<lambda>member. local_active \<and> projection_active_at cp (em_peer member) now) (cp_members cp))"

definition projection_audit_at :: "'l checkpoint_projection \<Rightarrow> u64 \<Rightarrow> 'l audit_member list" where
  "projection_audit_at cp now = filter (\<lambda>member. projection_active_at cp (am_peer member) now) (cp_audit cp)"

definition projection_window :: "'l checkpoint_projection \<Rightarrow> u64 \<Rightarrow> refresh_window" where
  "projection_window cp now =
     \<lparr>rw_evaluated_at = now,
      rw_next_transition = least_time (filter (\<lambda>expiry. expiry > now) (map snd (cp_expiries cp)))\<rparr>"

definition projection_grants :: "'l effective_membership \<Rightarrow> peer_id \<Rightarrow> route_config list" where
  "projection_grants membership peer =
     (case find (\<lambda>member. em_peer member = peer) (overlay_members membership) of
        Some member \<Rightarrow> em_route_grants member | None \<Rightarrow> [])"

definition retain_alias ::
    "bytes option \<Rightarrow> route_config list \<Rightarrow> (bytes option, governor_error) result" where
  "retain_alias alias routes =
     (case alias of
        None \<Rightarrow> Ok None
      | Some ip \<Rightarrow>
          and_then (map_err (GovernorConfig \<circ> vpn_ip_config_error) (vpn_ip_host_route ip)) (\<lambda>prefix.
            if \<not> list_ex (\<lambda>r. rc_metric r = 0 \<and> route_config_prefix r = Ok prefix) routes
            then Ok None else Ok alias))"

fun sanitize_peers ::
    "('kp, 'key, 'l) forward_library \<Rightarrow> 'l checkpoint_projection \<Rightarrow> 'l effective_membership \<Rightarrow> u64 \<Rightarrow>
     peer_config list \<Rightarrow> (peer_config list, governor_error) result" where
  "sanitize_peers lib cp membership now [] = Ok []"
| "sanitize_peers lib cp membership now (p # ps) =
     and_then (map_err GovernorConfig (peer_config_id (fl_membership lib) p)) (\<lambda>peer.
     if projection_active_at cp peer now
     then
       (let routes = projection_grants membership peer in
        and_then (retain_alias (pc_vpn_ip p) routes) (\<lambda>vpn_ip.
        and_then (sanitize_peers lib cp membership now ps) (\<lambda>ps.
          Ok (p\<lparr>pc_routes := routes, pc_vpn_ip := vpn_ip\<rparr> # ps))))
     else sanitize_peers lib cp membership now ps)"

definition sanitize_config ::
    "('kp, 'key, 'l) forward_library \<Rightarrow> 'l checkpoint_projection \<Rightarrow> config \<Rightarrow> u64 \<Rightarrow> (config, governor_error) result" where
  "sanitize_config lib cp c now =
     (let c = c\<lparr>cf_member_records := []\<rparr> in
      and_then (map_err GovernorConfig (config_local_peer_id (fl_membership lib) c)) (\<lambda>local_peer.
      let membership = projection_membership_at cp local_peer now;
          routes = projection_grants membership local_peer in
      and_then (retain_alias (cf_vpn_ip c) routes) (\<lambda>vpn_ip.
      and_then (sanitize_peers lib cp membership now (cf_peers c)) (\<lambda>peers.
        Ok (c\<lparr>cf_routes := routes, cf_vpn_ip := vpn_ip, cf_peers := peers\<rparr>)))))"

subsection \<open>The forwarder\<close>

record 'l governor =
  gv_forwarder :: "'l forwarder"
  gv_config :: config
  gv_member_records :: "signed_record list"
  gv_hostname_records :: "hostname_record list"
  gv_effective_membership :: "'l effective_membership"
  gv_checkpoint :: "'l checkpoint_projection option"
  gv_window :: refresh_window
  gv_membership_revision :: u64
  gv_authorization_revision :: u64
  gv_commit_generation :: u64
  gv_refresh_pending :: bool

record 'l forwarder_update =
  up_config :: config
  up_member_records :: "signed_record list"
  up_authorization :: "'l forwarding_authorization"
  up_effective_membership :: "'l effective_membership"
  up_checkpoint :: "'l checkpoint_projection option"
  up_base_membership_revision :: u64
  up_base_authorization_revision :: u64
  up_base_commit_generation :: u64
  up_source_network_name :: bytes
  up_window :: refresh_window
  up_mtu :: usize

definition gv_authorization :: "'l governor \<Rightarrow> 'l forwarding_authorization" where
  "gv_authorization g =
     \<lparr>fa_routes = fw_routes (gv_forwarder g), fa_peers = fw_peers (gv_forwarder g),
      fa_authorized_peers = fw_authorized_peers (gv_forwarder g)\<rparr>"

definition set_authorization :: "'l forwarding_authorization \<Rightarrow> 'l forwarder \<Rightarrow> 'l forwarder" where
  "set_authorization a f =
     f\<lparr>fw_routes := fa_routes a, fw_peers := fa_peers a, fw_authorized_peers := fa_authorized_peers a\<rparr>"

definition authorization_eq :: "'l forwarding_authorization \<Rightarrow> 'l forwarding_authorization \<Rightarrow> bool" where
  "authorization_eq a b \<longleftrightarrow>
     fa_routes a = fa_routes b \<and> set (fa_peers a) = set (fa_peers b) \<and>
     fa_authorized_peers a = fa_authorized_peers b"

definition effective_eq :: "'l effective_membership \<Rightarrow> 'l effective_membership \<Rightarrow> bool" where
  "effective_eq m n \<longleftrightarrow>
     set (eff_members m) = set (eff_members n) \<and> eff_governed_peers m = eff_governed_peers n \<and>
     eff_checkpoint_authoritative m = eff_checkpoint_authoritative n"

definition projection_eq :: "'l checkpoint_projection \<Rightarrow> 'l checkpoint_projection \<Rightarrow> bool" where
  "projection_eq a b \<longleftrightarrow>
     cp_anchor a = cp_anchor b \<and> cp_boundary a = cp_boundary b \<and> cp_rank a = cp_rank b \<and>
     cp_sync_state a = cp_sync_state b \<and> effective_eq (cp_members a) (cp_members b) \<and>
     set (cp_incarnations a) = set (cp_incarnations b) \<and> set (cp_expiries a) = set (cp_expiries b) \<and>
     cp_audit a = cp_audit b"

fun projection_option_eq :: "'l checkpoint_projection option \<Rightarrow> 'l checkpoint_projection option \<Rightarrow> bool" where
  "projection_option_eq None None = True"
| "projection_option_eq (Some a) (Some b) = projection_eq a b"
| "projection_option_eq _ _ = False"

definition from_authority ::
    "('kp, 'key, 'l) forward_library \<Rightarrow> config \<Rightarrow> 'l checkpoint_projection option \<Rightarrow> u64 \<Rightarrow> session_id \<Rightarrow>
     ('l governor, governor_error) result" where
  "from_authority lib c checkpoint now session =
     and_then (map_err GovernorConfig (config_local_peer_id (fl_membership lib) c)) (\<lambda>local_peer.
     and_then (case checkpoint of
                 Some cp \<Rightarrow>
                   and_then (sanitize_config lib cp c now) (\<lambda>c.
                   let membership = projection_membership_at cp local_peer now in
                   and_then (map_err GovernorConfig (authorization_from_checkpoint (fl_membership lib) c membership)) (\<lambda>a.
                     Ok (c, [], a, membership, projection_window cp now)))
               | None \<Rightarrow>
                   and_then (map_err GovernorConfig
                     (authorization_from_records (fl_membership lib) c (cf_member_records c) now)) (\<lambda>(a, membership).
                     Ok (c, cf_member_records c, a, membership, window_from_records (cf_member_records c) now)))
       (\<lambda>(c, records, a, membership, window).
       Ok \<lparr>gv_forwarder =
             \<lparr>fw_local_peer = local_peer, fw_routes = fa_routes a, fw_peers = fa_peers a,
              fw_authorized_peers = fa_authorized_peers a, fw_replay_windows = [],
              fw_replay_session_ttl = DEFAULT_REPLAY_SESSION_TTL, fw_max_replay_windows = MAX_REPLAY_WINDOWS,
              fw_session_id = session, fw_next_sequence = 0,
              fw_mtu = unat (effective_packet_mtu (cf_mtu c))\<rparr>,
           gv_config = c, gv_member_records = records, gv_hostname_records = [],
           gv_effective_membership = membership, gv_checkpoint = checkpoint, gv_window = window,
           gv_membership_revision = 0, gv_authorization_revision = 0, gv_commit_generation = 0,
           gv_refresh_pending = False\<rparr>))"

definition forwarder_from_config ::
    "('kp, 'key, 'l) forward_library \<Rightarrow> config \<Rightarrow> u64 \<Rightarrow> session_id \<Rightarrow> ('l governor, governor_error) result" where
  "forwarder_from_config lib c now session = from_authority lib c None now session"

definition forwarder_from_checkpoint_config ::
    "('kp, 'key, 'l) forward_library \<Rightarrow> config \<Rightarrow> cooperative_state \<Rightarrow> network_anchor \<Rightarrow> u64 \<Rightarrow> session_id \<Rightarrow>
     ('l governor, governor_error) result" where
  "forwarder_from_checkpoint_config lib c state expected_anchor now session =
     and_then (map_err GovernorConfig (config_local_peer_id (fl_membership lib) c)) (\<lambda>local_peer.
     and_then (projection_from_state lib state local_peer expected_anchor) (\<lambda>cp.
       from_authority lib c (Some cp) now session))"

subsection \<open>Replacing the authority\<close>

definition update_of ::
    "'l governor \<Rightarrow> config \<Rightarrow> signed_record list \<Rightarrow> 'l forwarding_authorization \<Rightarrow> 'l effective_membership \<Rightarrow>
     'l checkpoint_projection option \<Rightarrow> refresh_window \<Rightarrow> usize \<Rightarrow> 'l forwarder_update" where
  "update_of g c records a membership checkpoint window mtu =
     \<lparr>up_config = c, up_member_records = records, up_authorization = a, up_effective_membership = membership,
      up_checkpoint = checkpoint, up_base_membership_revision = gv_membership_revision g,
      up_base_authorization_revision = gv_authorization_revision g,
      up_base_commit_generation = gv_commit_generation g,
      up_source_network_name = cf_network_name (gv_config g), up_window = window, up_mtu = mtu\<rparr>"

definition prepare_checkpoint_projection ::
    "('kp, 'key, 'l) forward_library \<Rightarrow> 'l governor \<Rightarrow> config \<Rightarrow> 'l checkpoint_projection \<Rightarrow> u64 \<Rightarrow>
     ('l forwarder_update, governor_error) result" where
  "prepare_checkpoint_projection lib g c cp now =
     and_then (map_err GovernorConfig (config_local_peer_id (fl_membership lib) c)) (\<lambda>local_peer.
     if local_peer \<noteq> fw_local_peer (gv_forwarder g)
     then Err (LocalPeerChanged (fw_local_peer (gv_forwarder g)) local_peer)
     else
       and_then (sanitize_config lib cp c now) (\<lambda>c.
       let membership = projection_membership_at cp (fw_local_peer (gv_forwarder g)) now in
       and_then (map_err GovernorConfig (authorization_from_checkpoint (fl_membership lib) c membership)) (\<lambda>a.
         Ok (update_of g c [] a membership (Some cp) (projection_window cp now)
               (unat (effective_packet_mtu (cf_mtu c)))))))"

definition prepare_checkpoint_reconfigure ::
    "('kp, 'key, 'l) forward_library \<Rightarrow> 'l governor \<Rightarrow> config \<Rightarrow> cooperative_state \<Rightarrow> network_anchor \<Rightarrow> u64 \<Rightarrow>
     ('l forwarder_update, governor_error) result" where
  "prepare_checkpoint_reconfigure lib g c state expected_anchor now =
     and_then (projection_from_state lib state (fw_local_peer (gv_forwarder g)) expected_anchor) (\<lambda>cp.
     case gv_checkpoint g of
       Some old \<Rightarrow>
         if cp_anchor cp \<noteq> cp_anchor old then Err (GovernorCheckpoint WrongAnchor)
         else if cp_rank cp < cp_rank old then Err (GovernorCheckpoint StaleSnapshot)
         else prepare_checkpoint_projection lib g c cp now
     | None \<Rightarrow> prepare_checkpoint_projection lib g c cp now)"

definition prepare_checkpoint_update ::
    "('kp, 'key, 'l) forward_library \<Rightarrow> 'l governor \<Rightarrow> cooperative_state \<Rightarrow> network_anchor \<Rightarrow> u64 \<Rightarrow>
     ('l forwarder_update, governor_error) result" where
  "prepare_checkpoint_update lib g state expected_anchor now =
     prepare_checkpoint_reconfigure lib g (gv_config g) state expected_anchor now"

definition prepare_reconfigure ::
    "('kp, 'key, 'l) forward_library \<Rightarrow> 'l governor \<Rightarrow> config \<Rightarrow> u64 \<Rightarrow> ('l forwarder_update, governor_error) result" where
  "prepare_reconfigure lib g c now =
     and_then (map_err GovernorConfig (config_local_peer_id (fl_membership lib) c)) (\<lambda>local_peer.
     if local_peer \<noteq> fw_local_peer (gv_forwarder g)
     then Err (LocalPeerChanged (fw_local_peer (gv_forwarder g)) local_peer)
     else case gv_checkpoint g of
       Some cp \<Rightarrow> prepare_checkpoint_projection lib g c cp now
     | None \<Rightarrow>
         and_then (map_err GovernorConfig
           (authorization_from_records (fl_membership lib) c (cf_member_records c) now)) (\<lambda>(a, membership).
           Ok (update_of g c (cf_member_records c) a membership None (window_from_records (cf_member_records c) now)
                 (unat (effective_packet_mtu (cf_mtu c))))))"

definition incarnations_changed :: "'l governor \<Rightarrow> 'l forwarder_update \<Rightarrow> bool" where
  "incarnations_changed g u =
     (case (gv_checkpoint g, up_checkpoint u) of
        (Some old, Some new) \<Rightarrow> set (cp_incarnations old) \<noteq> set (cp_incarnations new)
      | _ \<Rightarrow> False)"

definition check_commit ::
    "('kp, 'key, 'l) forward_library \<Rightarrow> 'l governor \<Rightarrow> 'l forwarder_update \<Rightarrow> (unit, governor_error) result" where
  "check_commit lib g u =
     (if gv_checkpoint g \<noteq> None \<and> up_checkpoint u = None then Err LegacyAuthorityDisabled
      else if gv_checkpoint g = None \<and> up_checkpoint u = None then Ok ()
      else
        and_then (map_err GovernorConfig (config_local_peer_id (fl_membership lib) (up_config u))) (\<lambda>actual_local.
        if actual_local \<noteq> fw_local_peer (gv_forwarder g)
        then Err (LocalPeerChanged (fw_local_peer (gv_forwarder g)) actual_local)
        else if up_source_network_name u \<noteq> cf_network_name (gv_config g) then Err (GovernorCheckpoint WrongAnchor)
        else if (case (gv_checkpoint g, up_checkpoint u) of
                   (Some old, Some new) \<Rightarrow> cp_anchor old \<noteq> cp_anchor new | _ \<Rightarrow> False)
        then Err (GovernorCheckpoint WrongAnchor)
        else if up_base_membership_revision u \<noteq> gv_membership_revision g \<or>
                up_base_authorization_revision u \<noteq> gv_authorization_revision g \<or>
                up_base_commit_generation u \<noteq> gv_commit_generation g
        then Err StalePreparedUpdate
        else Ok ()))"

text \<open>The replay windows that survive an update: those of peers whose incarnation did not change.\<close>

definition kept_windows ::
    "'l governor \<Rightarrow> 'l forwarder_update \<Rightarrow> (peer_id \<times> session_id, replay_window) hash_map" where
  "kept_windows g u =
     (let windows = fw_replay_windows (gv_forwarder g); now = rw_evaluated_at (up_window u) in
      case up_checkpoint u of
        None \<Rightarrow> windows
      | Some cp \<Rightarrow>
          (let local_active = (cp_sync_state cp \<noteq> Excluded \<and>
                 projection_active_at cp (fw_local_peer (gv_forwarder g)) now) in
           hm_retain (\<lambda>(peer, _) _.
             local_active \<and> projection_active_at cp peer now \<and>
             is_none_or (\<lambda>old. hm_get (cp_incarnations old) peer = hm_get (cp_incarnations cp) peer)
               (gv_checkpoint g)) windows))"

definition try_commit_reconfigure ::
    "('kp, 'key, 'l) forward_library \<Rightarrow> 'l governor \<Rightarrow> 'l forwarder_update \<Rightarrow> ('l governor, governor_error) result" where
  "try_commit_reconfigure lib g u =
     and_then (check_commit lib g u) (\<lambda>_.
       Ok \<lparr>gv_forwarder = (set_authorization (up_authorization u) (gv_forwarder g))
             \<lparr>fw_replay_windows := kept_windows g u, fw_mtu := up_mtu u\<rparr>,
           gv_config = up_config u,
           gv_member_records = up_member_records u,
           gv_hostname_records = (if up_checkpoint u \<noteq> None then [] else gv_hostname_records g),
           gv_effective_membership = up_effective_membership u,
           gv_checkpoint = up_checkpoint u,
           gv_window = up_window u,
           gv_membership_revision =
             (if gv_member_records g \<noteq> up_member_records u \<or>
                 \<not> effective_eq (gv_effective_membership g) (up_effective_membership u) \<or>
                 \<not> projection_option_eq (gv_checkpoint g) (up_checkpoint u)
              then gv_membership_revision g + 1 else gv_membership_revision g),
           gv_authorization_revision =
             (if \<not> authorization_eq (gv_authorization g) (up_authorization u) \<or> incarnations_changed g u
              then gv_authorization_revision g + 1 else gv_authorization_revision g),
           gv_commit_generation = gv_commit_generation g + 1,
           gv_refresh_pending = False\<rparr>)"

definition commit_reconfigure ::
    "('kp, 'key, 'l) forward_library \<Rightarrow> 'l governor \<Rightarrow> 'l forwarder_update \<Rightarrow> 'l governor" where
  "commit_reconfigure lib g u = (case try_commit_reconfigure lib g u of Inr g' \<Rightarrow> g' | Inl _ \<Rightarrow> g)"

definition commit_checkpoint_update ::
    "('kp, 'key, 'l) forward_library \<Rightarrow> 'l governor \<Rightarrow> 'l forwarder_update \<Rightarrow> ('l governor, governor_error) result" where
  "commit_checkpoint_update lib g u =
     (if up_checkpoint u = None then Err LegacyAuthorityDisabled
      else
        let pending = (gv_refresh_pending g \<or>
              \<not> authorization_eq (gv_authorization g) (up_authorization u) \<or> incarnations_changed g u) in
        and_then (try_commit_reconfigure lib g u) (\<lambda>g'. Ok (g'\<lparr>gv_refresh_pending := pending\<rparr>)))"

definition refresh_checkpoint_projection ::
    "('kp, 'key, 'l) forward_library \<Rightarrow> 'l governor \<Rightarrow> 'l checkpoint_projection \<Rightarrow> u64 \<Rightarrow>
     ('l governor, governor_error) result" where
  "refresh_checkpoint_projection lib g cp now =
     (if window_contains (gv_window g) now then Ok g
      else and_then (prepare_checkpoint_projection lib g (gv_config g) cp now) (commit_checkpoint_update lib g))"

definition checkpoint_sync_state :: "'l governor \<Rightarrow> membership_sync_state option" where
  "checkpoint_sync_state g =
     map_option (\<lambda>cp.
       if cp_sync_state cp = Participating \<and>
          \<not> projection_active_at cp (fw_local_peer (gv_forwarder g)) (rw_evaluated_at (gv_window g))
       then Excluded else cp_sync_state cp) (gv_checkpoint g)"

subsection \<open>Merging membership records\<close>

definition live_membership_trust_anchors ::
    "('kp, 'key, 'l) forward_library \<Rightarrow> 'l governor \<Rightarrow> (bytes set, governor_error) result" where
  "live_membership_trust_anchors lib g =
     and_then (map_err GovernorMembership
       (membership_trust_anchors (fl_membership lib) (gv_member_records g) (cf_network_name (gv_config g)))) (\<lambda>anchors.
     if anchors = {} \<and> \<not> list_ex (\<lambda>r. mp_issuer_peer (sr_payload r) = mp_member_peer (sr_payload r)) (gv_member_records g)
     then and_then (map_err GovernorConfig (config_local_peer (fl_membership lib) (gv_config g))) (\<lambda>peer. Ok {peer})
     else Ok anchors)"

definition merge_with_trusted_issuers ::
    "('kp, 'key, 'l) forward_library \<Rightarrow> 'l governor \<Rightarrow> signed_record list \<Rightarrow> u64 \<Rightarrow> bytes set \<Rightarrow>
     (merge_stats \<times> 'l governor, governor_error) result" where
  "merge_with_trusted_issuers lib g records now trusted_issuers =
     (if gv_checkpoint g \<noteq> None then Err LegacyAuthorityDisabled
      else
        and_then (map_err GovernorMembership
          (merge_records_at (fl_membership lib) (gv_member_records g) records (cf_network_name (gv_config g)) now
             trusted_issuers MAX_RETAINED_MEMBERSHIP_RECORDS)) (\<lambda>(merged, stats).
        and_then (map_err GovernorConfig
          (authorization_from_records (fl_membership lib) (gv_config g) merged now)) (\<lambda>(a, membership).
        let effective_changed = (\<not> authorization_eq a (gv_authorization g)) in
          Ok (stats, g\<lparr>gv_forwarder := set_authorization a (gv_forwarder g),
                gv_member_records := merged,
                gv_effective_membership := membership,
                gv_window := window_from_records merged now,
                gv_membership_revision :=
                  (if merged \<noteq> gv_member_records g \<or> effective_changed \<or>
                      \<not> effective_eq membership (gv_effective_membership g)
                   then gv_membership_revision g + 1 else gv_membership_revision g),
                gv_authorization_revision :=
                  (if effective_changed then gv_authorization_revision g + 1 else gv_authorization_revision g),
                gv_refresh_pending := (gv_refresh_pending g \<or> effective_changed)\<rparr>))))"

definition merge_membership_records ::
    "('kp, 'key, 'l) forward_library \<Rightarrow> 'l governor \<Rightarrow> signed_record list \<Rightarrow> u64 \<Rightarrow>
     (merge_stats \<times> 'l governor, governor_error) result" where
  "merge_membership_records lib g records now =
     (case gv_checkpoint g of
        Some cp \<Rightarrow>
          if records \<noteq> [] then Err LegacyAuthorityDisabled
          else and_then (refresh_checkpoint_projection lib g cp now) (\<lambda>g. Ok (merge_stats_default, g))
      | None \<Rightarrow>
          if window_contains (gv_window g) now \<and> list_all (\<lambda>r. r \<in> set (gv_member_records g)) records
          then Ok (merge_stats_default\<lparr>st_ignored_stale_or_equal := length records\<rparr>, g)
          else and_then (live_membership_trust_anchors lib g) (\<lambda>anchors.
                 merge_with_trusted_issuers lib g records now anchors))"

definition restore_persisted_membership_records ::
    "('kp, 'key, 'l) forward_library \<Rightarrow> 'l governor \<Rightarrow> signed_record list \<Rightarrow> u64 \<Rightarrow>
     (merge_stats \<times> 'l governor, governor_error) result" where
  "restore_persisted_membership_records lib g records now =
     (if gv_checkpoint g \<noteq> None then Err LegacyAuthorityDisabled
      else
        let anchor_records = gv_member_records g @
              filter (\<lambda>r. mp_issuer_peer (sr_payload r) = mp_member_peer (sr_payload r)) records in
        and_then (map_err GovernorMembership
          (membership_trust_anchors (fl_membership lib) anchor_records (cf_network_name (gv_config g)))) (\<lambda>anchors.
        and_then (if anchors = {}
                  then and_then (map_err GovernorConfig (config_local_peer (fl_membership lib) (gv_config g)))
                         (\<lambda>peer. Ok {peer})
                  else Ok anchors) (\<lambda>anchors.
          merge_with_trusted_issuers lib g records now anchors)))"

definition prepare_pairing_membership_merge ::
    "('kp, 'key, 'l) forward_library \<Rightarrow> 'l governor \<Rightarrow> signed_record list \<Rightarrow> u64 \<Rightarrow>
     ('l forwarder_update \<times> merge_stats, governor_error) result" where
  "prepare_pairing_membership_merge lib g records now =
     (if gv_checkpoint g \<noteq> None then Err LegacyAuthorityDisabled
      else
        and_then (live_membership_trust_anchors lib g) (\<lambda>anchors.
        and_then (map_err GovernorMembership
          (merge_records_at (fl_membership lib) (gv_member_records g) records (cf_network_name (gv_config g)) now
             anchors MAX_RETAINED_MEMBERSHIP_RECORDS)) (\<lambda>(merged, stats).
        and_then (map_err GovernorConfig
          (authorization_from_records (fl_membership lib) (gv_config g) merged now)) (\<lambda>(a, membership).
          Ok (update_of g (gv_config g) merged a membership None (window_from_records merged now)
                (fw_mtu (gv_forwarder g)), stats)))))"

definition commit_pairing_membership_merge ::
    "('kp, 'key, 'l) forward_library \<Rightarrow> 'l governor \<Rightarrow> 'l forwarder_update \<Rightarrow> 'l governor" where
  "commit_pairing_membership_merge lib g u =
     (if gv_checkpoint g \<noteq> None then g
      else
        let pending = (gv_refresh_pending g \<or> \<not> authorization_eq (gv_authorization g) (up_authorization u)) in
        (commit_reconfigure lib g u)\<lparr>gv_refresh_pending := pending\<rparr>)"

definition take_refresh_pending :: "'l governor \<Rightarrow> bool \<times> 'l governor" where
  "take_refresh_pending g = (gv_refresh_pending g, g\<lparr>gv_refresh_pending := False\<rparr>)"

definition refresh_membership_records ::
    "('kp, 'key, 'l) forward_library \<Rightarrow> 'l governor \<Rightarrow> u64 \<Rightarrow>
     ((merge_stats \<times> bool) \<times> 'l governor, governor_error) result" where
  "refresh_membership_records lib g now =
     and_then (if window_contains (gv_window g) now then Ok (merge_stats_default, g)
               else merge_membership_records lib g [] now) (\<lambda>(stats, g).
       let (changed, g) = take_refresh_pending g in Ok ((stats, changed), g))"

definition governor_membership_audit ::
    "('kp, 'key, 'l) forward_library \<Rightarrow> 'l governor \<Rightarrow> ('l audit_member list, membership_error) result" where
  "governor_membership_audit lib g =
     (case gv_checkpoint g of
        Some cp \<Rightarrow> Ok (projection_audit_at cp (rw_evaluated_at (gv_window g)))
      | None \<Rightarrow> membership_audit_at (fl_membership lib) (gv_member_records g) (cf_network_name (gv_config g))
                  (rw_evaluated_at (gv_window g)))"

subsection \<open>Hostname records\<close>

definition governor_merge_hostname_records ::
    "('kp, 'key, 'l) forward_library \<Rightarrow> 'l governor \<Rightarrow> hostname_record list \<Rightarrow>
     (hostname_stats \<times> 'l governor, governor_error) result" where
  "governor_merge_hostname_records lib g records =
     (if gv_checkpoint g \<noteq> None then Err LegacyAuthorityDisabled
      else
        and_then (map_err GovernorHostname
          (merge_hostname_records (fl_hostname lib) (gv_hostname_records g) records (cf_network_name (gv_config g))
             MAX_HOSTNAME_RECORDS)) (\<lambda>(merged, stats).
          Ok (stats, g\<lparr>gv_hostname_records := merged,
                gv_membership_revision :=
                  (if hn_accepted stats > 0 then gv_membership_revision g + 1 else gv_membership_revision g)\<rparr>)))"

definition reconcile_local_hostname_record ::
    "('kp, 'key, 'l) forward_library \<Rightarrow> 'l governor \<Rightarrow> node_identity \<Rightarrow> u64 \<Rightarrow>
     (bool \<times> 'l governor, governor_error) result" where
  "reconcile_local_hostname_record lib g i now =
     (if gv_checkpoint g \<noteq> None then Err LegacyAuthorityDisabled
      else
        and_then (ok_or (libp2p_from_str (ml_identity (fl_membership lib)) (ni_peer_id i))
          (GovernorHostname HostnamePeerId)) (\<lambda>l.
        let local_peer = overlay_peer (fl_membership lib) l in
        if local_peer \<noteq> fw_local_peer (gv_forwarder g)
        then Err (LocalPeerChanged (fw_local_peer (gv_forwarder g)) local_peer)
        else case cf_dns_hostname (gv_config g) of
          None \<Rightarrow> Ok (False, g)
        | Some hostname \<Rightarrow>
            (let current = find (\<lambda>r. record_peer r = ni_peer_id i) (gv_hostname_records g) in
             if is_some_and (\<lambda>r. hnp_hostname (hr_payload r) = hostname) current then Ok (False, g)
             else
               and_then (case checked_succ (case current of None \<Rightarrow> 0 | Some r \<Rightarrow> record_sequence r) of
                           Some n \<Rightarrow> if n \<le> MAX_HOSTNAME_RECORD_INTEGER then Ok n else Err HostnameSequenceExhausted
                         | None \<Rightarrow> Err HostnameSequenceExhausted) (\<lambda>number.
               and_then (map_err GovernorHostname
                 (issue_hostname_record_at (fl_hostname lib) i (cf_network_name (gv_config g)) hostname number now)) (\<lambda>r.
               and_then (governor_merge_hostname_records lib g [r]) (\<lambda>(stats, g).
                 Ok (hn_accepted stats = 1, g)))))))"

definition collect_member_hostnames :: "'l effective_member list \<Rightarrow> (peer_id, bytes) hash_map" where
  "collect_member_hostnames members =
     foldl (\<lambda>names member. case em_hostnames member of name # _ \<Rightarrow> hm_insert names (em_peer member) name | [] \<Rightarrow> names)
       [] members"

definition governor_effective_hostname_records ::
    "('kp, 'key, 'l) forward_library \<Rightarrow> 'l governor \<Rightarrow> ((peer_id, bytes) hash_map, governor_error) result" where
  "governor_effective_hostname_records lib g =
     (if gv_checkpoint g \<noteq> None
      then Ok (collect_member_hostnames (overlay_members (gv_effective_membership g)))
      else map_err GovernorHostname
             (effective_hostname_records (fl_hostname lib) (gv_hostname_records g) (cf_network_name (gv_config g))))"

subsection \<open>Queries\<close>

definition is_configured_transport_peer :: "'l governor \<Rightarrow> 'l \<Rightarrow> bool" where
  "is_configured_transport_peer g peer = list_ex (\<lambda>(_, configured). configured = peer) (fw_peers (gv_forwarder g))"

definition authorizes_membership_sync :: "'l governor \<Rightarrow> 'l \<Rightarrow> bool" where
  "authorizes_membership_sync g peer \<longleftrightarrow>
     is_configured_transport_peer g peer \<or>
     list_ex (\<lambda>member. em_transport_peer member = peer) (overlay_members (gv_effective_membership g))"

definition transport_peer_for_overlay :: "'l governor \<Rightarrow> peer_id \<Rightarrow> 'l option" where
  "transport_peer_for_overlay g peer = hm_get (fw_peers (gv_forwarder g)) peer"

end
