(* ===== verification/Governor_Safety.thy ===== *)
theory Governor_Safety
  imports Governor Membership_Safety
begin

text \<open>
  The forwarder's authority at every moment of a run: what it holds is what the membership gives at the
  current time, wherever the run came from, and prepared updates are committed only on the state they were
  prepared for.
\<close>

subsection \<open>Runs\<close>

definition same_authority :: "'l forwarder \<Rightarrow> 'l forwarder \<Rightarrow> bool" where
  "same_authority f f' \<longleftrightarrow>
     fw_local_peer f' = fw_local_peer f \<and> fw_routes f' = fw_routes f \<and> fw_peers f' = fw_peers f \<and>
     fw_authorized_peers f' = fw_authorized_peers f \<and> fw_mtu f' = fw_mtu f"

text \<open>Operations that act on the forwarder at once; the packet path leaves the authority alone.\<close>

inductive governor_op :: "('kp, 'key, 'l) forward_library \<Rightarrow> 'l governor \<Rightarrow> 'l governor \<Rightarrow> bool" for lib g where
  packets: "same_authority (gv_forwarder g) f \<Longrightarrow> governor_op lib g (g\<lparr>gv_forwarder := f\<rparr>)"
| merge_records: "merge_membership_records lib g records now = Ok (stats, g') \<Longrightarrow> governor_op lib g g'"
| restore_records: "restore_persisted_membership_records lib g records now = Ok (stats, g') \<Longrightarrow> governor_op lib g g'"
| refresh: "refresh_membership_records lib g now = Ok (r, g') \<Longrightarrow> governor_op lib g g'"
| take_pending: "take_refresh_pending g = (pending, g') \<Longrightarrow> governor_op lib g g'"
| merge_names: "governor_merge_hostname_records lib g names = Ok (st, g') \<Longrightarrow> governor_op lib g g'"
| reconcile_name: "reconcile_local_hostname_record lib g i now = Ok (changed, g') \<Longrightarrow> governor_op lib g g'"

inductive governor_prepare ::
    "('kp, 'key, 'l) forward_library \<Rightarrow> 'l governor \<Rightarrow> 'l forwarder_update \<Rightarrow> bool" for lib g where
  prepared_config: "prepare_reconfigure lib g c now = Ok u \<Longrightarrow> governor_prepare lib g u"
| prepared_checkpoint: "prepare_checkpoint_reconfigure lib g c state anchor now = Ok u \<Longrightarrow> governor_prepare lib g u"
| prepared_checkpoint_update: "prepare_checkpoint_update lib g state anchor now = Ok u \<Longrightarrow> governor_prepare lib g u"
| prepared_pairing: "prepare_pairing_membership_merge lib g records now = Ok (u, stats) \<Longrightarrow> governor_prepare lib g u"

inductive governor_commit ::
    "('kp, 'key, 'l) forward_library \<Rightarrow> 'l governor \<Rightarrow> 'l forwarder_update \<Rightarrow> 'l governor \<Rightarrow> bool" for lib g u where
  committed: "try_commit_reconfigure lib g u = Ok g' \<Longrightarrow> governor_commit lib g u g'"
| committed_config: "governor_commit lib g u (commit_reconfigure lib g u)"
| committed_checkpoint: "commit_checkpoint_update lib g u = Ok g' \<Longrightarrow> governor_commit lib g u g'"
| committed_pairing: "governor_commit lib g u (commit_pairing_membership_merge lib g u)"

text \<open>
  A run: its number of commits, the forwarder, and the updates prepared so far, each with the number of
  commits before it was prepared. Any of them may be committed, at any later time.
\<close>

definition commits_after :: "nat \<Rightarrow> 'l governor \<Rightarrow> 'l governor \<Rightarrow> nat" where
  "commits_after n g g' = (if gv_commit_generation g' = gv_commit_generation g then n else Suc n)"

inductive governed ::
    "('kp, 'key, 'l) forward_library \<Rightarrow> nat \<Rightarrow> 'l governor \<Rightarrow> (nat \<times> 'l forwarder_update) set \<Rightarrow> bool" for lib where
  from_config: "forwarder_from_config lib c now session = Ok g \<Longrightarrow> governed lib 0 g {}"
| from_checkpoint: "forwarder_from_checkpoint_config lib c state anchor now session = Ok g \<Longrightarrow> governed lib 0 g {}"
| operated: "governed lib n g P \<Longrightarrow> governor_op lib g g' \<Longrightarrow> governed lib (commits_after n g g') g' P"
| prepared: "governed lib n g P \<Longrightarrow> governor_prepare lib g u \<Longrightarrow> governed lib n g (insert (n, u) P)"
| commits: "governed lib n g P \<Longrightarrow> (k, u) \<in> P \<Longrightarrow> governor_commit lib g u g' \<Longrightarrow>
    governed lib (commits_after n g g') g' P"

subsection \<open>The authority in force\<close>

definition authority_ok ::
    "('kp, 'key, 'l) forward_library \<Rightarrow> peer_id \<Rightarrow> config \<Rightarrow> signed_record list \<Rightarrow> 'l checkpoint_projection option \<Rightarrow>
     'l forwarding_authorization \<Rightarrow> 'l effective_membership \<Rightarrow> refresh_window \<Rightarrow> bool" where
  "authority_ok lib local_peer c records checkpoint a m w \<longleftrightarrow>
     config_local_peer_id (fl_membership lib) c = Ok local_peer \<and>
     (case checkpoint of
        None \<Rightarrow>
          authorization_from_records (fl_membership lib) c records (rw_evaluated_at w) = Ok (a, m) \<and>
          w = window_from_records records (rw_evaluated_at w)
      | Some cp \<Rightarrow>
          m = projection_membership_at cp local_peer (rw_evaluated_at w) \<and>
          authorization_from_checkpoint (fl_membership lib) c m = Ok a \<and>
          w = projection_window cp (rw_evaluated_at w) \<and>
          members_keyed (fl_membership lib) (cp_members cp) \<and> eff_checkpoint_authoritative (cp_members cp))"

definition governor_ok :: "('kp, 'key, 'l) forward_library \<Rightarrow> 'l governor \<Rightarrow> bool" where
  "governor_ok lib g \<longleftrightarrow>
     authority_ok lib (fw_local_peer (gv_forwarder g)) (gv_config g) (gv_member_records g) (gv_checkpoint g)
       (gv_authorization g) (gv_effective_membership g) (gv_window g) \<and>
     fw_mtu (gv_forwarder g) = unat (effective_packet_mtu (cf_mtu (gv_config g)))"

definition update_ok :: "('kp, 'key, 'l) forward_library \<Rightarrow> peer_id \<Rightarrow> 'l forwarder_update \<Rightarrow> bool" where
  "update_ok lib local_peer u \<longleftrightarrow>
     authority_ok lib local_peer (up_config u) (up_member_records u) (up_checkpoint u) (up_authorization u)
       (up_effective_membership u) (up_window u) \<and>
     up_mtu u = unat (effective_packet_mtu (cf_mtu (up_config u)))"

lemma window_evaluated [simp]:
  "rw_evaluated_at (window_from_records records now) = now" "rw_evaluated_at (projection_window cp now) = now"
  by (simp_all add: window_from_records_def projection_window_def)

lemma set_authorization_simps [simp]:
  "fw_local_peer (set_authorization a f) = fw_local_peer f"
  "fw_routes (set_authorization a f) = fa_routes a"
  "fw_peers (set_authorization a f) = fa_peers a"
  "fw_authorized_peers (set_authorization a f) = fa_authorized_peers a"
  "fw_mtu (set_authorization a f) = fw_mtu f"
  by (simp_all add: set_authorization_def)

lemma authorization_surjective [simp]:
  "\<lparr>fa_routes = fa_routes a, fa_peers = fa_peers a, fa_authorized_peers = fa_authorized_peers a\<rparr> = a"
  by simp

lemma checkpoint_effective_loop_keyed:
  assumes "checkpoint_effective_loop lib s now members ms = Ok members'"
    and "hm_wf members" and "\<forall>e \<in> set members. em_peer (snd e) = fst e \<and>
      overlay_peer (cl_membership lib) (em_transport_peer (snd e)) = fst e"
  shows "hm_wf members' \<and> (\<forall>e \<in> set members'. em_peer (snd e) = fst e \<and>
      overlay_peer (cl_membership lib) (em_transport_peer (snd e)) = fst e)"
  using assms
proof (induction lib s now members ms rule: checkpoint_effective_loop.induct)
  case (2 lib s now members m ms)
  show ?case
  proof (cases "active_at m now")
    case True
    with "2.prems"(1) obtain l where l: "libp2p_from_str (cl_identity lib) (member_peer m) = Some l"
      and rest: "checkpoint_effective_loop lib s now
        (hm_insert members (em_peer (checkpoint_effective_member lib s m l)) (checkpoint_effective_member lib s m l)) ms = Ok members'"
      by (auto simp: and_then_Inr_iff Let_def)
    show ?thesis using "2.IH"(2) [OF _ refl rest] True "2.prems"(2,3)
      by (simp add: set_hm_insert_eq checkpoint_effective_member_def Let_def)
  qed (use 2 in simp)
qed simp

lemma checkpoint_effective_keyed:
  assumes "checkpoint_effective_membership_at lib s now = Ok m"
  shows "members_keyed (cl_membership lib) m \<and> eff_checkpoint_authoritative m"
proof (cases "require_participation s now")
  case (Inr u)
  with assms obtain members where
      loop: "checkpoint_effective_loop lib s now [] (cs_members (co_snapshot s)) = Ok members"
    and m: "m = \<lparr>eff_members = members, eff_governed_peers = {}, eff_checkpoint_authoritative = True\<rparr>"
    by (auto simp: checkpoint_effective_membership_at_def Let_def and_then_Inr_iff)
  show ?thesis using checkpoint_effective_loop_keyed [OF loop] by (auto simp: m members_keyed_def)
qed (use assms in \<open>auto simp: checkpoint_effective_membership_at_def members_keyed_def\<close>)

lemma projection_keyed:
  assumes "projection_from_state lib state local_peer anchor = Ok cp"
  shows "members_keyed (fl_membership lib) (cp_members cp) \<and> eff_checkpoint_authoritative (cp_members cp)"
  using assms by (auto simp: projection_from_state_def Let_def and_then_Inr_iff checkpoint_effective_keyed
      split: if_splits)

lemma sanitize_config_local:
  assumes "sanitize_config lib cp c now = Ok c'" and "config_local_peer_id (fl_membership lib) c = Ok local_peer"
  shows "config_local_peer_id (fl_membership lib) c' = Ok local_peer"
  using assms
  by (auto simp: sanitize_config_def Let_def and_then_Inr_iff config_local_peer_id_def config_local_peer_def
      config_identity_def)

subsection \<open>Preparing and committing\<close>

definition succeeds :: "'l checkpoint_projection option \<Rightarrow> 'l checkpoint_projection option \<Rightarrow> bool" where
  "succeeds old new \<longleftrightarrow>
     is_none_or (\<lambda>cp. is_some_and (\<lambda>cp'. cp_anchor cp' = cp_anchor cp \<and> cp_rank cp \<le> cp_rank cp') new) old"

lemma succeeds_refl [simp]: "succeeds cp cp"
  by (cases cp) (simp_all add: succeeds_def)

lemma from_authority_ok:
  assumes "from_authority lib c checkpoint now session = Ok g"
    and "\<And>cp. checkpoint = Some cp \<Longrightarrow>
      members_keyed (fl_membership lib) (cp_members cp) \<and> eff_checkpoint_authoritative (cp_members cp)"
  shows "governor_ok lib g \<and> gv_commit_generation g = 0"
proof (cases checkpoint)
  case None
  with assms(1) show ?thesis
    by (auto simp: from_authority_def and_then_Inr_iff governor_ok_def authority_ok_def gv_authorization_def
        split: prod.splits)
next
  case (Some cp)
  with assms(1) sanitize_config_local assms(2) [OF Some] show ?thesis
    by (auto simp: from_authority_def and_then_Inr_iff governor_ok_def authority_ok_def gv_authorization_def Let_def)
qed

lemma prepare_projection_ok:
  assumes "prepare_checkpoint_projection lib g c cp now = Ok u"
    and "members_keyed (fl_membership lib) (cp_members cp)" and "eff_checkpoint_authoritative (cp_members cp)"
  shows "update_ok lib (fw_local_peer (gv_forwarder g)) u \<and> up_checkpoint u = Some cp \<and>
    up_base_commit_generation u = gv_commit_generation g"
  using assms sanitize_config_local
  by (auto simp: prepare_checkpoint_projection_def and_then_Inr_iff update_ok_def authority_ok_def update_of_def
      Let_def split: if_splits)

lemma prepare_checkpoint_ok:
  assumes "prepare_checkpoint_reconfigure lib g c state anchor now = Ok u"
  shows "update_ok lib (fw_local_peer (gv_forwarder g)) u \<and> succeeds (gv_checkpoint g) (up_checkpoint u) \<and>
    up_base_commit_generation u = gv_commit_generation g"
proof -
  from assms obtain cp where cp: "projection_from_state lib state (fw_local_peer (gv_forwarder g)) anchor = Ok cp"
    and u: "prepare_checkpoint_projection lib g c cp now = Ok u"
    and succ: "succeeds (gv_checkpoint g) (Some cp)"
    by (cases "gv_checkpoint g")
      (auto simp: prepare_checkpoint_reconfigure_def and_then_Inr_iff succeeds_def not_less split: if_splits)
  from prepare_projection_ok [OF u] projection_keyed [OF cp] succ show ?thesis by simp
qed

lemma governor_prepare_ok:
  assumes ok: "governor_ok lib g" and "governor_prepare lib g u"
  shows "update_ok lib (fw_local_peer (gv_forwarder g)) u \<and> succeeds (gv_checkpoint g) (up_checkpoint u) \<and>
    up_base_commit_generation u = gv_commit_generation g"
  using assms(2)
proof cases
  case (prepared_config c now)
  show ?thesis
  proof (cases "gv_checkpoint g")
    case None
    with prepared_config show ?thesis
      by (auto simp: prepare_reconfigure_def and_then_Inr_iff update_ok_def authority_ok_def update_of_def
          succeeds_def split: if_splits)
  next
    case (Some cp)
    with prepared_config have u: "prepare_checkpoint_projection lib g c cp now = Ok u"
      by (auto simp: prepare_reconfigure_def and_then_Inr_iff split: if_splits)
    from ok Some have "members_keyed (fl_membership lib) (cp_members cp)" "eff_checkpoint_authoritative (cp_members cp)"
      by (simp_all add: governor_ok_def authority_ok_def)
    from prepare_projection_ok [OF u this] Some show ?thesis by simp
  qed
next
  case (prepared_pairing records now stats)
  then show ?thesis using ok
    by (auto simp: prepare_pairing_membership_merge_def and_then_Inr_iff update_ok_def authority_ok_def update_of_def
        governor_ok_def succeeds_def split: if_splits)
qed (auto simp: prepare_checkpoint_update_def dest: prepare_checkpoint_ok)

lemma try_commit_ok:
  assumes "try_commit_reconfigure lib g u = Ok g'" and "update_ok lib (fw_local_peer (gv_forwarder g)) u"
  shows "governor_ok lib g' \<and> fw_local_peer (gv_forwarder g') = fw_local_peer (gv_forwarder g) \<and>
    gv_checkpoint g' = up_checkpoint u \<and> gv_commit_generation g' = gv_commit_generation g + 1"
  using assms
  by (auto simp: try_commit_reconfigure_def and_then_Inr_iff governor_ok_def update_ok_def gv_authorization_def)

lemma pending_flag [simp]: "governor_ok lib (g\<lparr>gv_refresh_pending := b\<rparr>) = governor_ok lib g"
  by (simp add: governor_ok_def gv_authorization_def)

text \<open>A commit takes effect as a whole, or changes at most the pending flag.\<close>

lemma governor_commit_cases:
  assumes "governor_commit lib g u g'"
  obtains b where "g' = g\<lparr>gv_refresh_pending := b\<rparr>"
  | b g1 where "try_commit_reconfigure lib g u = Ok g1" "g' = g1\<lparr>gv_refresh_pending := b\<rparr>"
  using assms
proof cases
  case committed
  then show thesis using that(2) [of g' "gv_refresh_pending g'"] by simp
next
  case committed_config
  then show thesis using that(1) [of "gv_refresh_pending g"] that(2) [of g' "gv_refresh_pending g'"]
    by (auto simp: commit_reconfigure_def split: sum.splits)
next
  case committed_checkpoint
  then show thesis using that(2)
    by (auto simp: commit_checkpoint_update_def and_then_Inr_iff Let_def split: if_splits)
next
  case committed_pairing
  then show thesis using that(1) [of "gv_refresh_pending g"] that
    by (auto simp: commit_pairing_membership_merge_def commit_reconfigure_def Let_def split: sum.splits if_splits)
qed

lemma governor_commit_ok:
  assumes "governor_commit lib g u g'" and "governor_ok lib g" and "update_ok lib (fw_local_peer (gv_forwarder g)) u"
  shows "governor_ok lib g' \<and> fw_local_peer (gv_forwarder g') = fw_local_peer (gv_forwarder g) \<and>
    (gv_commit_generation g' = gv_commit_generation g + 1 \<or>
     gv_commit_generation g' = gv_commit_generation g \<and> gv_checkpoint g' = gv_checkpoint g)"
  using assms(1)
proof (cases rule: governor_commit_cases)
  case (2 b g1)
  then show ?thesis using try_commit_ok [OF 2(1) assms(3)] by simp
qed (use assms(2) in simp)

lemma refresh_projection_ok:
  assumes "refresh_checkpoint_projection lib g cp now = Ok g'" and ok: "governor_ok lib g" and cp: "gv_checkpoint g = Some cp"
  shows "governor_ok lib g' \<and> fw_local_peer (gv_forwarder g') = fw_local_peer (gv_forwarder g) \<and>
    gv_checkpoint g' = gv_checkpoint g \<and>
    gv_commit_generation g' \<in> {gv_commit_generation g, gv_commit_generation g + 1}"
proof (cases "window_contains (gv_window g) now")
  case False
  from ok cp have keyed: "members_keyed (fl_membership lib) (cp_members cp)" "eff_checkpoint_authoritative (cp_members cp)"
    by (simp_all add: governor_ok_def authority_ok_def)
  from assms(1) False obtain u g1 b where u: "prepare_checkpoint_projection lib g (gv_config g) cp now = Ok u"
    and g1: "try_commit_reconfigure lib g u = Ok g1" and g': "g' = g1\<lparr>gv_refresh_pending := b\<rparr>"
    by (auto simp: refresh_checkpoint_projection_def commit_checkpoint_update_def and_then_Inr_iff Let_def split: if_splits)
  from prepare_projection_ok [OF u keyed] try_commit_ok [OF g1] cp show ?thesis by (simp add: g')
qed (use assms in \<open>simp add: refresh_checkpoint_projection_def\<close>)

lemma merge_with_trusted_ok:
  assumes "merge_with_trusted_issuers lib g records now trusted = Ok (stats, g')" and "governor_ok lib g"
  shows "governor_ok lib g' \<and> fw_local_peer (gv_forwarder g') = fw_local_peer (gv_forwarder g) \<and>
    gv_checkpoint g' = gv_checkpoint g \<and> gv_commit_generation g' = gv_commit_generation g \<and>
    rw_evaluated_at (gv_window g') = now"
proof -
  from assms(1) have legacy: "gv_checkpoint g = None"
    by (cases "gv_checkpoint g") (simp_all add: merge_with_trusted_issuers_def)
  with assms(1) obtain merged a m where a: "authorization_from_records (fl_membership lib) (gv_config g) merged now = Ok (a, m)"
    and g': "gv_forwarder g' = set_authorization a (gv_forwarder g)" "gv_config g' = gv_config g"
      "gv_member_records g' = merged" "gv_effective_membership g' = m" "gv_checkpoint g' = gv_checkpoint g"
      "gv_window g' = window_from_records merged now" "gv_commit_generation g' = gv_commit_generation g"
    by (auto simp: merge_with_trusted_issuers_def Let_def and_then_Inr_iff)
  from legacy assms(2) a show ?thesis by (simp add: governor_ok_def authority_ok_def gv_authorization_def g')
qed

lemma merge_membership_ok:
  assumes "merge_membership_records lib g records now = Ok (stats, g')" and "governor_ok lib g"
  shows "governor_ok lib g' \<and> fw_local_peer (gv_forwarder g') = fw_local_peer (gv_forwarder g) \<and>
    gv_checkpoint g' = gv_checkpoint g \<and>
    gv_commit_generation g' \<in> {gv_commit_generation g, gv_commit_generation g + 1}"
proof (cases "gv_checkpoint g")
  case None
  with assms show ?thesis
    by (auto simp: merge_membership_records_def and_then_Inr_iff split: if_splits dest: merge_with_trusted_ok)
next
  case (Some cp)
  with assms(1) have "refresh_checkpoint_projection lib g cp now = Ok g'"
    by (auto simp: merge_membership_records_def and_then_Inr_iff split: if_splits)
  from refresh_projection_ok [OF this assms(2) Some] show ?thesis .
qed

lemma merge_names_ok:
  assumes "governor_merge_hostname_records lib g names = Ok (st, g')" and "governor_ok lib g"
  shows "governor_ok lib g' \<and> fw_local_peer (gv_forwarder g') = fw_local_peer (gv_forwarder g) \<and>
    gv_checkpoint g' = gv_checkpoint g \<and> gv_commit_generation g' = gv_commit_generation g"
  using assms
  by (auto simp: governor_merge_hostname_records_def and_then_Inr_iff governor_ok_def gv_authorization_def split: if_splits)

lemma governor_op_ok:
  assumes "governor_op lib g g'" and ok: "governor_ok lib g"
  shows "governor_ok lib g' \<and> fw_local_peer (gv_forwarder g') = fw_local_peer (gv_forwarder g) \<and>
    gv_checkpoint g' = gv_checkpoint g \<and>
    gv_commit_generation g' \<in> {gv_commit_generation g, gv_commit_generation g + 1}"
  using assms(1)
proof cases
  case (packets f)
  then show ?thesis using ok by (simp add: governor_ok_def gv_authorization_def same_authority_def)
next
  case (merge_records records now stats)
  then show ?thesis by (rule merge_membership_ok [OF _ ok])
next
  case (restore_records records now stats)
  then show ?thesis using merge_with_trusted_ok [OF _ ok]
    by (auto simp: restore_persisted_membership_records_def and_then_Inr_iff Let_def split: if_splits)
next
  case (refresh now r)
  then obtain stats g1 where g1: "(if window_contains (gv_window g) now then Ok (merge_stats_default, g)
      else merge_membership_records lib g [] now) = Ok (stats, g1)" and "g' = g1\<lparr>gv_refresh_pending := False\<rparr>"
    by (auto simp: refresh_membership_records_def and_then_Inr_iff take_refresh_pending_def)
  then show ?thesis using ok merge_membership_ok [of lib g "[]" now stats g1]
    by (cases "window_contains (gv_window g) now") auto
next
  case (take_pending pending)
  then show ?thesis using ok by (auto simp: take_refresh_pending_def)
next
  case (merge_names names st)
  then show ?thesis using merge_names_ok [OF _ ok] by simp
next
  case (reconcile_name i now changed)
  then show ?thesis using ok merge_names_ok [OF _ ok]
    by (auto simp: reconcile_local_hostname_record_def and_then_Inr_iff Let_def split: if_splits option.splits)
qed

text \<open>
  Every run keeps the authority right, and every prepared update right for the node; one prepared since
  the last commit continues the checkpoint in force.
\<close>

lemma governed_inv:
  assumes "governed lib n g P"
  shows "governor_ok lib g \<and> gv_commit_generation g = of_nat n \<and>
    (\<forall>(k, u) \<in> P. k \<le> n \<and> update_ok lib (fw_local_peer (gv_forwarder g)) u \<and>
       up_base_commit_generation u = of_nat k \<and> (k = n \<longrightarrow> succeeds (gv_checkpoint g) (up_checkpoint u)))"
  using assms
proof induction
  case (from_config c now session g)
  then show ?case using from_authority_ok [of lib c None now session g] by (simp add: forwarder_from_config_def)
next
  case (from_checkpoint c state anchor now session g)
  then obtain local_peer cp where cp: "projection_from_state lib state local_peer anchor = Ok cp"
    and g: "from_authority lib c (Some cp) now session = Ok g"
    by (auto simp: forwarder_from_checkpoint_config_def and_then_Inr_iff)
  show ?case using from_authority_ok [OF g] projection_keyed [OF cp] by simp
next
  case (operated n g P g')
  then show ?case using governor_op_ok [OF operated.hyps(2)] by (auto simp: commits_after_def)
next
  case (prepared n g P u)
  then show ?case using governor_prepare_ok [OF _ prepared.hyps(2)] by auto
next
  case (commits n g P k u g')
  then have "update_ok lib (fw_local_peer (gv_forwarder g)) u" by auto
  from governor_commit_ok [OF commits.hyps(3) _ this] commits.IH show ?case
    by (auto simp: commits_after_def)
qed

subsection \<open>The authority at the current time\<close>

lemma least_time_bounds:
  "least_time ts = Some m \<Longrightarrow> m \<in> set ts \<and> (\<forall>t \<in> set ts. m \<le> t)"
proof (cases ts)
  case (Cons t ts')
  have "foldl min t ts' \<in> insert t (set ts') \<and> (\<forall>x \<in> insert t (set ts'). foldl min t ts' \<le> x)" for t :: u64
    by (induction ts' arbitrary: t) (simp, fastforce simp: min_def)
  then show "least_time ts = Some m \<Longrightarrow> ?thesis" using Cons by auto
qed simp

lemma quiet_window:
  assumes "window_contains \<lparr>rw_evaluated_at = t, rw_next_transition = least_time (filter (\<lambda>x. x > t) ts)\<rparr> now"
    and "x \<in> set ts" and "x \<le> now"
  shows "x \<le> t"
proof (rule ccontr)
  assume "\<not> x \<le> t"
  with assms(2) have x: "x \<in> set (filter (\<lambda>x. x > t) ts)" by simp
  then obtain m where m: "least_time (filter (\<lambda>x. x > t) ts) = Some m"
    by (cases "filter (\<lambda>x. x > t) ts") auto
  from assms(1) m have "now < m" by (simp add: window_contains_def)
  also from least_time_bounds [OF m] x have "m \<le> x" by blast
  also note assms(3)
  finally show False by simp
qed

lemma window_contains_start [simp]:
  "window_contains (window_from_records records now) now" "window_contains (projection_window cp now) now"
  by (auto simp: window_contains_def window_from_records_def projection_window_def is_none_or_def
      dest: least_time_bounds split: option.split)

lemma membership_in_window:
  assumes "window_contains (window_from_records records t) now"
  shows "effective_membership_at lib records network now = effective_membership_at lib records network t"
proof -
  have "t \<le> now" using assms by (simp add: window_contains_def)
  moreover have "x \<le> t" if "r \<in> set records" "x \<in> transition_times r" "x \<le> now" for r x
    by (rule quiet_window [OF assms [unfolded window_from_records_def] _ that(3)])
      (use that(1,2) in \<open>auto simp: transition_times_def record_times_def split: option.splits intro!: bexI [of _ r]\<close>)
  ultimately show ?thesis by (simp add: effective_membership_at_def evaluation_between_transitions)
qed

lemma projection_in_window:
  assumes "window_contains (projection_window cp t) now"
  shows "projection_membership_at cp local_peer now = projection_membership_at cp local_peer t"
proof -
  have "now < expiry \<longleftrightarrow> t < expiry" if "hm_get (cp_expiries cp) peer = Some expiry" for peer expiry
  proof -
    from that have "expiry \<in> set (map snd (cp_expiries cp))" by (force dest: hm_get_SomeD)
    from quiet_window [OF assms [unfolded projection_window_def] this] have "expiry \<le> now \<Longrightarrow> expiry \<le> t" .
    moreover have "t \<le> now" using assms by (simp add: window_contains_def)
    ultimately show ?thesis by (meson le_less_trans not_le)
  qed
  then have "projection_active_at cp peer now = projection_active_at cp peer t" for peer
    by (auto simp: projection_active_at_def is_none_or_def split: option.split)
  then show ?thesis by (simp add: projection_membership_at_def)
qed

text \<open>The authority that a full evaluation at a given time gives.\<close>

definition authority_at :: "('kp, 'key, 'l) forward_library \<Rightarrow> 'l governor \<Rightarrow> u64 \<Rightarrow>
     ('l forwarding_authorization \<times> 'l effective_membership, config_error) result" where
  "authority_at lib g now =
     (case gv_checkpoint g of
        None \<Rightarrow> authorization_from_records (fl_membership lib) (gv_config g) (gv_member_records g) now
      | Some cp \<Rightarrow>
          (let m = projection_membership_at cp (fw_local_peer (gv_forwarder g)) now in
           and_then (authorization_from_checkpoint (fl_membership lib) (gv_config g) m) (\<lambda>a. Ok (a, m))))"

lemma authority_in_window:
  assumes "governor_ok lib g" and "window_contains (gv_window g) now"
  shows "authority_at lib g now = Ok (gv_authorization g, gv_effective_membership g)"
proof (cases "gv_checkpoint g")
  case None
  with assms(1) have a: "authorization_from_records (fl_membership lib) (gv_config g) (gv_member_records g)
      (rw_evaluated_at (gv_window g)) = Ok (gv_authorization g, gv_effective_membership g)"
    and w: "gv_window g = window_from_records (gv_member_records g) (rw_evaluated_at (gv_window g))"
    by (simp_all add: governor_ok_def authority_ok_def)
  from assms(2) have "window_contains (window_from_records (gv_member_records g) (rw_evaluated_at (gv_window g))) now"
    unfolding w [symmetric] .
  note same = membership_in_window [OF this]
  from None a show ?thesis by (simp add: authority_at_def authorization_from_records_def same)
next
  case (Some cp)
  note ok = assms(1) [unfolded governor_ok_def authority_ok_def Some option.case]
  then have a: "authorization_from_checkpoint (fl_membership lib) (gv_config g) (gv_effective_membership g)
      = Ok (gv_authorization g)"
    and m: "gv_effective_membership g = projection_membership_at cp (fw_local_peer (gv_forwarder g)) (rw_evaluated_at (gv_window g))"
    and w: "gv_window g = projection_window cp (rw_evaluated_at (gv_window g))"
    by blast+
  from assms(2) have "window_contains (projection_window cp (rw_evaluated_at (gv_window g))) now"
    unfolding w [symmetric] .
  from projection_in_window [OF this] Some a m show ?thesis by (simp add: authority_at_def)
qed

text \<open>
  C4: the forwarder skips an evaluation of the membership as long as no record or member begins or
  expires; the shortcut is invisible. After any run, once the membership has been refreshed at a time, the
  routes, transport peers and members in force are those that a full evaluation at that time gives, and
  they stay so until the refresh window ends.
\<close>

theorem refreshed_authority_is_current:
  assumes "governed lib n g P" and "refresh_membership_records lib g now = Ok (r, g')"
    and "window_contains (gv_window g') later"
  shows "window_contains (gv_window g') now \<and>
    authority_at lib g' now = Ok (gv_authorization g', gv_effective_membership g') \<and>
    authority_at lib g' later = Ok (gv_authorization g', gv_effective_membership g')"
proof -
  have ok: "governor_ok lib g" using governed_inv [OF assms(1)] by blast
  from governor_op_ok [OF refresh [OF assms(2)] ok] have ok': "governor_ok lib g'" by blast
  from assms(2) obtain stats g1 where g1: "(if window_contains (gv_window g) now then Ok (merge_stats_default, g)
      else merge_membership_records lib g [] now) = Ok (stats, g1)" and g': "gv_window g' = gv_window g1"
    by (auto simp: refresh_membership_records_def and_then_Inr_iff take_refresh_pending_def)
  have "window_contains (gv_window g1) now"
  proof (cases "window_contains (gv_window g) now")
    case False
    with g1 have m: "merge_membership_records lib g [] now = Ok (stats, g1)" by simp
    have "rw_evaluated_at (gv_window g1) = now"
    proof (cases "gv_checkpoint g")
      case None
      with m False merge_with_trusted_ok [OF _ ok] show ?thesis
        by (auto simp: merge_membership_records_def and_then_Inr_iff)
    next
      case (Some cp)
      with m False show ?thesis
        by (auto simp: merge_membership_records_def and_then_Inr_iff refresh_checkpoint_projection_def
            commit_checkpoint_update_def try_commit_reconfigure_def prepare_checkpoint_projection_def update_of_def Let_def
            split: if_splits)
    qed
    moreover have "governor_ok lib g1" using merge_membership_ok [OF m ok] by simp
    ultimately show ?thesis by (cases "gv_checkpoint g1") (auto simp: governor_ok_def authority_ok_def)
  qed (use g1 in simp)
  with authority_in_window [OF ok'] assms(3) g' show ?thesis by simp
qed

end
