(* ===== verification/Governor_Traffic.thy ===== *)
theory Governor_Traffic
  imports Governor_Safety Checkpoint_Samples
begin

text \<open>
  What the authority of the forwarder means for packets: whom the node exchanges packets with at any moment
  of a run, and which prepared updates can still be committed.
\<close>

subsection \<open>Well-formed forwarders\<close>

lemma authorized_transport_peers:
  "authorized_peers_from_transport_peers peers = snd ` set peers"
proof -
  have "foldl (\<lambda>authorized (_, peer). insert peer authorized) start peers = start \<union> snd ` set peers" for start
    by (induction peers arbitrary: start) auto
  then show ?thesis by (simp add: authorized_peers_from_transport_peers_def)
qed

lemma set_hm_retain: "set (hm_retain keep m) = {(k, v). (k, v) \<in> set m \<and> keep k v}"
  by (auto simp: hm_retain_def)

lemma projection_membership_keyed:
  assumes "members_keyed lib (cp_members cp)" and "eff_checkpoint_authoritative (cp_members cp)"
  shows "members_keyed lib (projection_membership_at cp local_peer now)"
    and "eff_checkpoint_authoritative (projection_membership_at cp local_peer now)"
  using assms
  by (auto simp: projection_membership_at_def retain_members_def members_keyed_def hm_wf_retain set_hm_retain Let_def)

lemma authorization_sound:
  assumes "members_keyed lib m" and "config_local_peer_id lib c = Ok local_peer"
    and "transport_peers_from_membership lib c m = Ok peers"
    and "compile_routes_with_membership lib c m = Ok routes \<or> routes = route_table_new"
  shows "authorized_table routes \<and>
    (\<forall>r \<in> set (table_routes routes). route_owner r = local_peer \<or> admits lib c m local_peer (route_owner r)) \<and>
    transports_of lib {peer. admits lib c m local_peer peer} peers"
  using assms(4) compile_routes_sound [OF assms(1) _ assms(2)] transport_peers_sound [OF assms(1,3,2)]
    authorized_new by (auto simp: route_table_new_def)

lemma effective_packet_mtu_le:
  "unat (effective_packet_mtu mtu) \<le> MAX_PAYLOAD_LEN \<and> unat (effective_packet_mtu mtu) \<le> PACKET_PLANE_MAX_PAYLOAD_LEN"
proof -
  let ?limit = "min MAX_PAYLOAD_LEN PACKET_PLANE_MAX_PAYLOAD_LEN"
  have "unat (effective_packet_mtu mtu) \<le> unat (word_of_nat ?limit :: u16)"
    by (simp add: effective_packet_mtu_def word_le_nat_alt [symmetric])
  also have "\<dots> \<le> ?limit" by (simp only: unsigned_of_nat take_bit_eq_mod of_nat_id mod_less_eq_dividend)
  finally show ?thesis by simp
qed

lemma governor_authorization_sound:
  assumes "governor_ok lib g"
  defines "f \<equiv> gv_forwarder g" and "m \<equiv> gv_effective_membership g"
  shows "members_keyed (fl_membership lib) m \<and> authorized_table (fw_routes f) \<and>
    (\<forall>r \<in> set (table_routes (fw_routes f)).
       route_owner r = fw_local_peer f \<or> admits (fl_membership lib) (gv_config g) m (fw_local_peer f) (route_owner r)) \<and>
    transports_of (fl_membership lib) {peer. admits (fl_membership lib) (gv_config g) m (fw_local_peer f) peer} (fw_peers f) \<and>
    fw_authorized_peers f = snd ` set (fw_peers f)"
proof -
  have local_peer: "config_local_peer_id (fl_membership lib) (gv_config g) = Ok (fw_local_peer f)"
    using assms(1) by (simp add: governor_ok_def authority_ok_def f_def)
  have "members_keyed (fl_membership lib) m \<and>
    transport_peers_from_membership (fl_membership lib) (gv_config g) m = Ok (fw_peers f) \<and>
    (compile_routes_with_membership (fl_membership lib) (gv_config g) m = Ok (fw_routes f) \<or> fw_routes f = route_table_new) \<and>
    fw_authorized_peers f = snd ` set (fw_peers f)"
  proof (cases "gv_checkpoint g")
    case None
    with assms(1) show ?thesis
      by (auto simp: governor_ok_def authority_ok_def authorization_from_records_def and_then_Inr_iff gv_authorization_def
          authorized_transport_peers f_def m_def dest: effective_membership_keyed)
  next
    case (Some cp)
    note ok = assms(1) [unfolded governor_ok_def authority_ok_def Some option.case]
    then have m: "m = projection_membership_at cp (fw_local_peer f) (rw_evaluated_at (gv_window g))"
      and a: "authorization_from_checkpoint (fl_membership lib) (gv_config g) m = Ok (gv_authorization g)"
      unfolding f_def m_def by blast+
    from ok projection_membership_keyed(1) have "members_keyed (fl_membership lib) m" unfolding m by blast
    with a show ?thesis
      by (auto simp: authorization_from_checkpoint_def and_then_Inr_iff gv_authorization_def authorized_transport_peers
          f_def split: if_splits)
  qed
  with authorization_sound [OF _ local_peer] show ?thesis by blast
qed

text \<open>
  C6: in every forwarder a run reaches, the route table was built by authorised insertions of well-formed
  routes, each owned by the node or by a peer that the membership admits; each transport peer is stored
  under the overlay identity of an admitted peer, the authorised peers are those transport peers, and the
  packet size fits a frame and a sealed datagram.
\<close>

theorem forwarder_well_formed:
  assumes "governed lib n g P"
  shows "let f = gv_forwarder g; admitted = admits (fl_membership lib) (gv_config g) (gv_effective_membership g) (fw_local_peer f) in
    authorized_table (fw_routes f) \<and>
    (\<forall>r. r \<in> set (table_routes (fw_routes f)) \<longrightarrow> route_owner r = fw_local_peer f \<or> admitted (route_owner r)) \<and>
    (\<forall>peer l. (peer, l) \<in> set (fw_peers f) \<longrightarrow> admitted peer \<and> overlay_peer (fl_membership lib) l = peer) \<and>
    fw_authorized_peers f = snd ` set (fw_peers f) \<and>
    fw_mtu f \<le> MAX_PAYLOAD_LEN \<and> fw_mtu f \<le> PACKET_PLANE_MAX_PAYLOAD_LEN"
proof -
  have ok: "governor_ok lib g" using governed_inv [OF assms] by blast
  have "unat (effective_packet_mtu mtu) \<le> MAX_PAYLOAD_LEN \<and> unat (effective_packet_mtu mtu) \<le> PACKET_PLANE_MAX_PAYLOAD_LEN" for mtu
    by (rule effective_packet_mtu_le)
  with governor_authorization_sound [OF ok] ok show ?thesis
    by (fastforce simp: Let_def transports_of_def governor_ok_def)
qed

subsection \<open>Packets\<close>

text \<open>A peer exchanges packets with the node when one of its frames is accepted or a packet is routed to it.\<close>

definition exchanges :: "('kp, 'key, 'l) forward_library \<Rightarrow> 'l forwarder \<Rightarrow> peer_id \<Rightarrow> bool" where
  "exchanges lib f peer \<longleftrightarrow>
     (let sha = digest_sha256 (ml_identity (fl_membership lib)); to_bytes = libp2p_to_bytes (ml_identity (fl_membership lib)) in
      (\<exists>l frame payload. from_libp2p sha to_bytes l = peer \<and>
         (accept_inbound_stream_packet sha to_bytes f l frame = Ok payload \<or>
          (\<exists>now. fst (accept_inbound_packet sha to_bytes f l frame now) = Ok payload))) \<or>
      (\<exists>packet. tun_packet_owner f packet = Ok peer))"

lemma unauthorized_refused:
  assumes "l \<notin> fw_authorized_peers f"
  shows "accept_inbound_stream_packet sha256 to_bytes f l frame = Err (UnauthorizedPeer l)"
    and "accept_inbound_packet sha256 to_bytes f l frame now = (Err (UnauthorizedPeer l), f)"
  using assms
  by (simp_all add: accept_inbound_stream_packet_def accept_inbound_packet_def validate_inbound_frame_metadata_def)

lemma exchanges_admitted:
  assumes "exchanges lib f peer"
    and "transports_of (fl_membership lib) admitted_peers (fw_peers f)" and "fw_authorized_peers f = snd ` set (fw_peers f)"
  shows "peer \<in> admitted_peers"
proof -
  from assms(1) have "(\<exists>l \<in> fw_authorized_peers f. overlay_peer (fl_membership lib) l = peer) \<or> hm_contains (fw_peers f) peer"
    unfolding exchanges_def Let_def
  proof (elim disjE exE conjE)
    fix l frame payload now
    assume "from_libp2p (digest_sha256 (cl_identity (fl_checkpoint lib))) (libp2p_to_bytes (cl_identity (fl_checkpoint lib))) l = peer"
    moreover assume "fst (accept_inbound_packet (digest_sha256 (cl_identity (fl_checkpoint lib)))
      (libp2p_to_bytes (cl_identity (fl_checkpoint lib))) f l frame now) = Ok payload"
    then have "l \<in> fw_authorized_peers f" by (rule contrapos_pp) (simp add: unauthorized_refused)
    ultimately show ?thesis by (auto simp: overlay_peer_def)
  next
    fix l frame payload
    assume "from_libp2p (digest_sha256 (cl_identity (fl_checkpoint lib))) (libp2p_to_bytes (cl_identity (fl_checkpoint lib))) l = peer"
    moreover assume "accept_inbound_stream_packet (digest_sha256 (cl_identity (fl_checkpoint lib)))
      (libp2p_to_bytes (cl_identity (fl_checkpoint lib))) f l frame = Ok payload"
    then have "l \<in> fw_authorized_peers f" by (rule contrapos_pp) (simp add: unauthorized_refused)
    ultimately show ?thesis by (auto simp: overlay_peer_def)
  qed (auto simp: tun_packet_owner_def and_then_Inr_iff split: if_splits)
  with assms(2,3) show ?thesis
    by (auto simp: transports_of_def hm_contains_iff)
qed

text \<open>
  C3: at any time within the refresh window of any reachable forwarder, the node accepts packets only from
  peers, and routes packets only to peers, that the membership admits at that time. With a ledger, such a
  peer is configured and not governed by the ledger, or holds an unexpired grant that descends from a trust
  anchor; with a checkpoint, the node takes part and both are members of the snapshot, unexpired.
\<close>

theorem packets_only_with_admitted_peers:
  fixes lib :: "('kp, 'key, 'l) forward_library"
  assumes "governed lib n g P" and "window_contains (gv_window g) now" and "exchanges lib (gv_forwarder g) peer"
  shows "let m = gv_effective_membership g; local_peer = fw_local_peer (gv_forwarder g); ml = fl_membership lib in
    admits ml (gv_config g) m local_peer peer \<and>
    (case gv_checkpoint g of
       None \<Rightarrow>
         effective_membership_at ml (gv_member_records g) (cf_network_name (gv_config g)) now = Ok m \<and>
         (peer \<in> configured_peers ml (gv_config g) \<and> peer \<notin> eff_governed_peers m \<or>
          (\<exists>anchors r l. membership_trust_anchors ml (gv_member_records g) (cf_network_name (gv_config g)) = Ok anchors \<and>
             admitted (gv_member_records g) anchors r \<and> overlay_peer ml l = peer \<and>
             libp2p_from_str (ml_identity ml) (mp_member_peer (sr_payload r)) = Some l \<and>
             mp_issued_at (sr_payload r) \<le> now \<and> \<not> record_is_expired_at r now))
     | Some cp \<Rightarrow>
         cp_sync_state cp = Participating \<and> projection_active_at cp local_peer now \<and> projection_active_at cp peer now)"
proof -
  let ?ml = "fl_membership lib" and ?m = "gv_effective_membership g" and ?local = "fw_local_peer (gv_forwarder g)"
  have ok: "governor_ok lib g" using governed_inv [OF assms(1)] by blast
  note sound = governor_authorization_sound [OF ok]
  from exchanges_admitted [OF assms(3)] sound have admits: "admits ?ml (gv_config g) ?m ?local peer" by blast
  note at_now = authority_in_window [OF ok assms(2)]
  show ?thesis
  proof (cases "gv_checkpoint g")
    case None
    with at_now have m: "effective_membership_at ?ml (gv_member_records g) (cf_network_name (gv_config g)) now = Ok ?m"
      by (auto simp: authority_at_def authorization_from_records_def and_then_Inr_iff)
    have "\<exists>anchors r l. membership_trust_anchors ?ml (gv_member_records g) (cf_network_name (gv_config g)) = Ok anchors \<and>
        admitted (gv_member_records g) anchors r \<and> overlay_peer ?ml l = peer \<and>
        libp2p_from_str (ml_identity ?ml) (mp_member_peer (sr_payload r)) = Some l \<and>
        mp_issued_at (sr_payload r) \<le> now \<and> \<not> record_is_expired_at r now" if "is_overlay_member ?m peer"
    proof -
      from that obtain member where "hm_get (eff_members ?m) peer = Some member"
        by (auto simp: is_overlay_member_def is_some_and_def split: option.splits)
      from effective_member_admitted [OF m this] show ?thesis by blast
    qed
    with None admits m show ?thesis by (auto simp: admits_iff)
  next
    case (Some cp)
    with at_now have m: "?m = projection_membership_at cp ?local now"
      by (auto simp: authority_at_def Let_def and_then_Inr_iff)
    note keyed = ok [unfolded governor_ok_def authority_ok_def Some option.case]
    then have "eff_checkpoint_authoritative ?m" unfolding m using projection_membership_keyed(2) by blast
    with admits have "is_overlay_member ?m peer" by (simp add: admits_iff)
    then obtain member where "(peer, member) \<in> set (eff_members ?m)"
      by (auto simp: is_overlay_member_def is_some_and_def dest: hm_get_SomeD split: option.splits)
    moreover from this sound have "em_peer member = peer" by (auto simp: members_keyed_def)
    ultimately show ?thesis using Some admits unfolding m
      by (auto simp: projection_membership_at_def retain_members_def set_hm_retain Let_def)
  qed
qed

subsection \<open>Commits\<close>

lemma checked_commit:
  assumes "try_commit_reconfigure lib g u = Ok g'" and "gv_checkpoint g = Some old"
  shows "up_base_commit_generation u = gv_commit_generation g \<and> up_checkpoint u \<noteq> None \<and> gv_checkpoint g' = up_checkpoint u \<and>
    fw_replay_windows (gv_forwarder g') = kept_windows g u"
  using assms by (auto simp: try_commit_reconfigure_def check_commit_def and_then_Inr_iff split: if_splits)

text \<open>
  C5: once a node follows a checkpoint, a prepared update is committed only if no other commit happened
  since it was prepared. So the node never leaves the checkpoint, never changes its anchor and never goes
  back in rank, however preparations and commits interleave; and a replay window survives only for a peer
  whose admission is the same before and after. This holds for the first 2^64 commits, after which the
  commit counter wraps around.
\<close>

theorem checkpoint_commits_are_current:
  assumes "governed lib n g P" and "n < 2 ^ 64" and "(k, u) \<in> P"
    and "gv_checkpoint g = Some old" and "try_commit_reconfigure lib g u = Ok g'"
  shows "k = n \<and> (\<exists>new. gv_checkpoint g' = Some new \<and> cp_anchor new = cp_anchor old \<and> cp_rank old \<le> cp_rank new \<and>
    (\<forall>peer session. hm_contains (fw_replay_windows (gv_forwarder g')) (peer, session) \<longrightarrow>
       hm_contains (fw_replay_windows (gv_forwarder g)) (peer, session) \<and>
       hm_contains (cp_incarnations new) peer \<and>
       hm_get (cp_incarnations new) peer = hm_get (cp_incarnations old) peer))"
proof -
  note inv = governed_inv [OF assms(1)]
  note commit = checked_commit [OF assms(5,4)]
  from inv assms(3) have "k \<le> n" "up_base_commit_generation u = of_nat k" by auto
  with commit inv have "(of_nat k :: u64) = of_nat n" by simp
  then have "k mod 2 ^ 64 = n mod 2 ^ 64"
    by (simp add: word_of_nat_eq_iff take_bit_eq_mod)
  then have "k = n" using \<open>k \<le> n\<close> assms(2) by simp
  with inv assms(3,4) have "succeeds (Some old) (up_checkpoint u)" by auto
  then obtain new where new: "up_checkpoint u = Some new" "cp_anchor new = cp_anchor old" "cp_rank old \<le> cp_rank new"
    by (auto simp: succeeds_def is_some_and_def split: option.splits)
  have "hm_contains (fw_replay_windows (gv_forwarder g)) (peer, session) \<and> hm_contains (cp_incarnations new) peer \<and>
      hm_get (cp_incarnations new) peer = hm_get (cp_incarnations old) peer"
    if "hm_contains (kept_windows g u) (peer, session)" for peer session
    using that by (force simp: kept_windows_def new(1) assms(4) Let_def hm_contains_iff set_hm_retain projection_active_at_def)
  with commit new \<open>k = n\<close> show ?thesis by auto
qed

end
