(* ===== verification/Governor_Samples.thy ===== *)
theory Governor_Samples
  imports Governor_Traffic
begin

text \<open>A node with a ledger of two members, and one with a checkpoint, for the witnesses.\<close>

definition sample_forward_library :: "(bytes, bytes, bytes) forward_library" where
  "sample_forward_library = \<lparr>fl_checkpoint = sample_checkpoint_library, fl_hostname = sample_hostname_library\<rparr>"

definition sample_config :: "signed_record list \<Rightarrow> config" where
  "sample_config records =
     \<lparr>cf_network_name = [7], cf_local_peer = [1], cf_private_key = None, cf_member_records = records,
      cf_dns_hostname = None, cf_vpn_ip = None, cf_routes = [], cf_mtu = 100, cf_peers = []\<rparr>"

lemma sample_forward_membership [simp]:
  "cl_membership (fl_checkpoint sample_forward_library) = sample_membership_library"
  by (simp add: sample_forward_library_def sample_checkpoint_library_def)

lemma sample_local_peer [simp]:
  "config_local_peer_id sample_membership_library (sample_config records) = Ok (PeerId [1])"
  by (simp add: config_local_peer_id_def config_local_peer_def parse_peer_id_def peer_id_from_str_def from_libp2p_def
      sample_config_def sample_membership_library_def)

text \<open>A packet from the built-in address of peer 1 to the one of peer 2.\<close>

definition sample_overlay_packet :: bytes where
  "sample_overlay_packet = [0x45, 0, 0, 20, 0, 0, 0, 0, 64, 17, 0, 0, 100, 64, 1, 0, 100, 64, 2, 0]"

definition sample_authorized :: "bytes forwarding_authorization \<Rightarrow> bool" where
  "sample_authorized a \<longleftrightarrow>
     tun_packet_owner \<lparr>fw_local_peer = PeerId [1], fw_routes = fa_routes a, fw_peers = fa_peers a,
       fw_authorized_peers = fa_authorized_peers a, fw_replay_windows = [], fw_replay_session_ttl = 0,
       fw_max_replay_windows = 0, fw_session_id = 1, fw_next_sequence = 0, fw_mtu = 100\<rparr> sample_overlay_packet =
     Ok (PeerId [2])"

lemma tun_packet_owner_cong:
  assumes "fw_local_peer f = fw_local_peer f'" "fw_routes f = fw_routes f'" "fw_peers f = fw_peers f'" "fw_mtu f = fw_mtu f'"
  shows "tun_packet_owner f packet = tun_packet_owner f' packet"
  unfolding tun_packet_owner_def authorize_local_source_def assms ..

lemma sample_ledger_authority:
  "case authorization_from_records sample_membership_library (sample_config [sample_root, sample_grant])
      [sample_root, sample_grant] 10 of Inr (a, m) \<Rightarrow> sample_authorized a | Inl _ \<Rightarrow> False"
  by code_simp

subsection \<open>With a ledger\<close>

lemma sample_ledger_governor:
  obtains g where "forwarder_from_config sample_forward_library (sample_config [sample_root, sample_grant]) 10 1 = Ok g"
    and "gv_checkpoint g = None" and "window_contains (gv_window g) 20"
    and "exchanges sample_forward_library (gv_forwarder g) (PeerId [2])"
proof -
  from sample_ledger_authority obtain a m where a: "authorization_from_records sample_membership_library
      (sample_config [sample_root, sample_grant]) [sample_root, sample_grant] 10 = Ok (a, m)"
    and owner: "sample_authorized a"
    by (auto split: sum.splits)
  have records: "cf_member_records (sample_config [sample_root, sample_grant]) = [sample_root, sample_grant]"
    by (simp add: sample_config_def)
  from a obtain g where g: "forwarder_from_config sample_forward_library (sample_config [sample_root, sample_grant]) 10 1 = Ok g"
    "gv_checkpoint g = None" "gv_window g = window_from_records [sample_root, sample_grant] 10"
    "fw_local_peer (gv_forwarder g) = PeerId [1]" "fw_routes (gv_forwarder g) = fa_routes a"
    "fw_peers (gv_forwarder g) = fa_peers a" "fw_mtu (gv_forwarder g) = unat (effective_packet_mtu 100)"
    by (simp add: forwarder_from_config_def from_authority_def records) (simp add: sample_config_def)
  have "unat (effective_packet_mtu 100) = 100"
    by (simp add: effective_packet_mtu_def MAX_PAYLOAD_LEN_def PACKET_PLANE_MAX_PAYLOAD_LEN_def
        PACKET_PLANE_MAX_UDP_DATAGRAM_LEN_def PACKET_PLANE_DATAGRAM_OVERHEAD_LEN_def PACKET_PLANE_DATAGRAM_HEADER_LEN_def
        PACKET_PLANE_AEAD_TAG_LEN_def HEADER_LEN_def min_def)
  with g(4-7) have "tun_packet_owner (gv_forwarder g) sample_overlay_packet = Ok (PeerId [2])"
    using owner unfolding sample_authorized_def
    by (subst tun_packet_owner_cong [of _ "\<lparr>fw_local_peer = PeerId [1], fw_routes = fa_routes a, fw_peers = fa_peers a,
       fw_authorized_peers = fa_authorized_peers a, fw_replay_windows = [], fw_replay_session_ttl = 0,
       fw_max_replay_windows = 0, fw_session_id = 1, fw_next_sequence = 0, fw_mtu = 100\<rparr>"]) simp_all
  then have "exchanges sample_forward_library (gv_forwarder g) (PeerId [2])"
    unfolding exchanges_def Let_def by blast
  moreover have "window_contains (gv_window g) 20"
    by (simp add: g(3) window_contains_def window_from_records_def record_times_def sample_root_def sample_grant_def
        sample_record_def)
  ultimately show thesis using that g(1,2) by blast
qed

theorem forwarder_well_formed_witness:
  "\<exists>g. forwarder_from_config sample_forward_library (sample_config [sample_root, sample_grant]) 10 1 = Ok g \<and>
     authorized_table (fw_routes (gv_forwarder g)) \<and> fw_mtu (gv_forwarder g) \<le> MAX_PAYLOAD_LEN"
proof -
  obtain g where g: "forwarder_from_config sample_forward_library (sample_config [sample_root, sample_grant]) 10 1 = Ok g"
    by (rule sample_ledger_governor)
  from forwarder_well_formed [OF from_config [OF g]] g show ?thesis by (auto simp: Let_def)
qed

theorem packets_only_with_admitted_peers_witness:
  "\<exists>g. forwarder_from_config sample_forward_library (sample_config [sample_root, sample_grant]) 10 1 = Ok g \<and>
     exchanges sample_forward_library (gv_forwarder g) (PeerId [2]) \<and>
     admits (fl_membership sample_forward_library) (gv_config g) (gv_effective_membership g)
       (fw_local_peer (gv_forwarder g)) (PeerId [2])"
proof -
  obtain g where g: "forwarder_from_config sample_forward_library (sample_config [sample_root, sample_grant]) 10 1 = Ok g"
    "window_contains (gv_window g) 20" "exchanges sample_forward_library (gv_forwarder g) (PeerId [2])"
    by (rule sample_ledger_governor)
  from packets_only_with_admitted_peers [OF from_config [OF g(1)] g(2,3)] g show ?thesis by (auto simp: Let_def)
qed

theorem refreshed_authority_is_current_witness:
  "\<exists>g r g'. forwarder_from_config sample_forward_library (sample_config [sample_root, sample_grant]) 10 1 = Ok g \<and>
     refresh_membership_records sample_forward_library g 20 = Ok (r, g') \<and>
     authority_at sample_forward_library g' 20 = Ok (gv_authorization g', gv_effective_membership g')"
proof -
  obtain g where g: "forwarder_from_config sample_forward_library (sample_config [sample_root, sample_grant]) 10 1 = Ok g"
    "window_contains (gv_window g) 20"
    by (rule sample_ledger_governor)
  then have refreshed: "refresh_membership_records sample_forward_library g 20 =
      Ok ((merge_stats_default, gv_refresh_pending g), g\<lparr>gv_refresh_pending := False\<rparr>)"
    by (simp add: refresh_membership_records_def take_refresh_pending_def)
  from refreshed_authority_is_current [OF from_config [OF g(1)] refreshed, of 20] g refreshed show ?thesis
    by (auto simp: g(2))
qed

subsection \<open>With a checkpoint\<close>

definition sample_effective_member :: "bytes \<Rightarrow> peer_id \<times> bytes effective_member" where
  "sample_effective_member l =
     (PeerId l, \<lparr>em_peer = PeerId l, em_transport_peer = l, em_membership_epoch = 1, em_sequence = 0,
       em_effective_inviter_peer = None, em_original_inviter_peer = None, em_admitted_at = 0,
       em_original_admitted_at = 0, em_hostnames = [], em_roles = [OverlayMember], em_route_grants = []\<rparr>)"

definition sample_members :: "bytes effective_membership" where
  "sample_members =
     \<lparr>eff_members = map sample_effective_member [[1], [2], [3]], eff_governed_peers = {},
      eff_checkpoint_authoritative = True\<rparr>"

definition sample_projected :: "checkpoint_snapshot \<Rightarrow> bytes checkpoint_projection \<Rightarrow> bool" where
  "sample_projected s cp \<longleftrightarrow>
     cp_anchor cp = nc_anchor sample_capability \<and> cp_rank cp = rank_of sample_checkpoint_library s \<and>
     cp_sync_state cp = Participating \<and> cp_members cp = sample_members \<and>
     cp_incarnations cp = [(PeerId [1], [4]), (PeerId [2], [4]), (PeerId [3], [4])] \<and>
     cp_expiries cp = [(PeerId [3], 50)]"

lemma sample_projection:
  "\<exists>cp. projection_from_state sample_forward_library (sample_state [1]) (PeerId [1]) (nc_anchor sample_capability) = Ok cp \<and>
     sample_projected sample_snapshot cp"
  "\<exists>cp. projection_from_state sample_forward_library (sample_after [1]) (PeerId [1]) (nc_anchor sample_capability) = Ok cp \<and>
     sample_projected sample_next cp"
  by (simp_all add: projection_from_state_def sample_forward_library_def checkpoint_effective_membership_at_def
      checkpoint_effective_member_def sample_projected_def sample_members_def sample_effective_member_def sample_after_def
      sample_next_evaluated rank_of_def snapshot_digest_def
      sample_checkpoint_defs checkpoint_limits checkpoint_evaluation overlay_peer_def from_libp2p_def hm_insert_def
      SNAPSHOT_DOMAIN_def ascii_def)

lemma sample_checkpoint_authority:
  "case authorization_from_checkpoint sample_membership_library (sample_config []) sample_members of
     Inr a \<Rightarrow> sample_authorized a | Inl _ \<Rightarrow> False"
  by code_simp

lemma sample_sanitized:
  assumes "sample_projected s cp"
  shows "sanitize_config sample_forward_library cp (sample_config []) 10 = Ok (sample_config [])"
    and "projection_membership_at cp (PeerId [1]) 10 = sample_members"
proof -
  have active: "projection_active_at cp (PeerId l) 10" if "l \<in> {[1], [2], [3]}" for l
    using assms that by (auto simp: sample_projected_def projection_active_at_def hm_contains_def hm_get_def)
  then show m: "projection_membership_at cp (PeerId [1]) 10 = sample_members"
    using assms by (simp add: projection_membership_at_def retain_members_def hm_retain_def sample_projected_def
        sample_members_def sample_effective_member_def)
  show "sanitize_config sample_forward_library cp (sample_config []) 10 = Ok (sample_config [])"
    by (simp add: sanitize_config_def config_local_peer_id_def config_local_peer_def parse_peer_id_def peer_id_from_str_def
        from_libp2p_def sample_config_def sample_forward_library_def sample_checkpoint_library_def
        sample_membership_library_def m)
      (simp add: projection_grants_def overlay_members_def sample_members_def sample_effective_member_def has_role_def
        retain_alias_def)
qed

lemma sample_prepared:
  assumes "sample_projected s cp" and "fw_local_peer (gv_forwarder g) = PeerId [1]"
  obtains a where "authorization_from_checkpoint sample_membership_library (sample_config []) sample_members = Ok a"
    and "prepare_checkpoint_projection sample_forward_library g (sample_config []) cp 10 =
      Ok (update_of g (sample_config []) [] a sample_members (Some cp) (projection_window cp 10)
        (unat (effective_packet_mtu 100)))"
proof -
  from sample_checkpoint_authority obtain a where
    a: "authorization_from_checkpoint sample_membership_library (sample_config []) sample_members = Ok a"
    by (auto split: sum.splits)
  have mtu: "cf_mtu (sample_config []) = 100" by (simp add: sample_config_def)
  show thesis using that a sample_sanitized [OF assms(1)] assms(2)
    by (simp add: prepare_checkpoint_projection_def mtu)
qed

lemma sample_checkpoint_governor:
  obtains g old where "forwarder_from_checkpoint_config sample_forward_library (sample_config []) (sample_state [1])
      (nc_anchor sample_capability) 10 1 = Ok g"
    and "gv_checkpoint g = Some old" and "sample_projected sample_snapshot old"
    and "fw_local_peer (gv_forwarder g) = PeerId [1]" and "gv_config g = sample_config []"
proof -
  from sample_projection(1) obtain old where
    old: "projection_from_state sample_forward_library (sample_state [1]) (PeerId [1]) (nc_anchor sample_capability) = Ok old"
      "sample_projected sample_snapshot old" by blast
  from sample_checkpoint_authority obtain a where
    "authorization_from_checkpoint sample_membership_library (sample_config []) sample_members = Ok a"
    by (auto split: sum.splits)
  with that old sample_sanitized [OF old(2)] show thesis
    by (simp add: forwarder_from_checkpoint_config_def from_authority_def)
qed

theorem checkpoint_commits_are_current_witness:
  "\<exists>g u g' old new.
     forwarder_from_checkpoint_config sample_forward_library (sample_config []) (sample_state [1])
       (nc_anchor sample_capability) 10 1 = Ok g \<and>
     prepare_checkpoint_reconfigure sample_forward_library g (sample_config []) (sample_after [1])
       (nc_anchor sample_capability) 10 = Ok u \<and>
     try_commit_reconfigure sample_forward_library g u = Ok g' \<and>
     gv_checkpoint g = Some old \<and> gv_checkpoint g' = Some new \<and> cp_rank old \<le> cp_rank new"
proof -
  obtain g old where g: "forwarder_from_checkpoint_config sample_forward_library (sample_config []) (sample_state [1])
      (nc_anchor sample_capability) 10 1 = Ok g"
    and old: "gv_checkpoint g = Some old" "sample_projected sample_snapshot old"
    and same: "fw_local_peer (gv_forwarder g) = PeerId [1]" "gv_config g = sample_config []"
    by (rule sample_checkpoint_governor)
  from sample_projection(2) obtain cp where
    cp: "projection_from_state sample_forward_library (sample_after [1]) (PeerId [1]) (nc_anchor sample_capability) = Ok cp"
      "sample_projected sample_next cp" by blast
  from sample_prepared [OF cp(2) same(1)] obtain a where
    u: "prepare_checkpoint_projection sample_forward_library g (sample_config []) cp 10 =
      Ok (update_of g (sample_config []) [] a sample_members (Some cp) (projection_window cp 10)
        (unat (effective_packet_mtu 100)))" (is "_ = Ok ?u") .
  have "rank_of sample_checkpoint_library sample_snapshot \<le> rank_of sample_checkpoint_library sample_next"
    by (intro less_imp_le rank_less_revision) (simp add: sample_next_evaluated sample_snapshot_def)
  with old cp have "prepare_checkpoint_reconfigure sample_forward_library g (sample_config []) (sample_after [1])
      (nc_anchor sample_capability) 10 = Ok ?u"
    by (simp add: prepare_checkpoint_reconfigure_def same(1) u sample_projected_def not_less)
  moreover from old(1,2) cp(2) obtain g' where g': "try_commit_reconfigure sample_forward_library g ?u = Ok g'"
    by (simp add: try_commit_reconfigure_def check_commit_def update_of_def same sample_projected_def)
  moreover have "governed sample_forward_library 0 g {(0, ?u)}"
    using prepared [OF from_checkpoint [OF g] prepared_checkpoint [OF calculation(1)]] by simp
  from checkpoint_commits_are_current [OF this _ _ old(1) g'] have "\<exists>new. gv_checkpoint g' = Some new \<and> cp_rank old \<le> cp_rank new"
    by auto
  ultimately show ?thesis using g old(1) by blast
qed

end
