(* ===== verification/Spec2Isabelle.thy ===== *)
theory Spec2Isabelle
  imports Packet_Codec Path_Selection Forward_Outbound Plane_Renewal Quic_Router Quic_Plane Ledger_Order Ledger_Progress
    Checkpoint_Samples Governor_Samples
begin

text \<open>
  Verification of the peer-to-peer VPN: the packet core of the daemon.
\<close>

subsection \<open>Delivery from one tunnel to the other\<close>

text \<open>
  A packet that the forwarder \<open>f\<close> prepared for the peer of the forwarder \<open>g\<close>: both hold the same routes,
  \<open>g\<close> knows the sender, and the packet fits the MTU at both ends.
\<close>

lemma delivered_frame:
  fixes f g :: "'l forwarder"
  assumes routes: "authorized_table (fw_routes f)" "fw_routes g = fw_routes f"
    and prepared: "prepare_tun_packet f now packet = (Ok p, f')" "pkt_peer p = fw_local_peer g"
    and sender: "peer \<in> fw_authorized_peers g" "from_libp2p sha256 to_bytes peer = fw_local_peer f"
    and fits: "length packet \<le> unat mtu" "length packet \<le> fw_mtu g"
  shows "\<exists>frame. queued_packet_frame_with_mtu f' p mtu = Ok frame \<and>
    accept_inbound_stream_packet sha256 to_bytes g peer frame = Ok packet \<and>
    frame = \<lparr>frame_header = header_new IpPacket (fw_session_id f) (fw_next_sequence f)
               (word_of_nat (length packet)), frame_payload = packet\<rparr> \<and> frame_wf frame"
proof -
  note p = prepare_tun_packet_Ok [OF prepared(1)]
  note owner = p(1) [unfolded tun_packet_owner_Ok_iff [OF routes(1)]]
  define frame where "frame = \<lparr>frame_header = header_new IpPacket (fw_session_id f) (fw_next_sequence f)
      (word_of_nat (length packet)), frame_payload = packet\<rparr>"
  have "unat (word_of_nat (length packet) :: u16) = length packet"
    using fits(1) unsigned_less [of mtu, where 'a = nat] by (simp add: unat_of_nat)
  then have wf: "frame_wf frame" and len: "unat (hdr_payload_len (frame_header frame)) = length packet"
    by (simp_all add: frame_def frame_wf_def header_new_def)
  have "queued_packet_frame_with_mtu f' p mtu = Ok frame"
    using queued_frame_Ok_iff [of f' p mtu frame] routes(1) owner fits(1) p by (simp add: frame_def)
  moreover have "accept_inbound_stream_packet sha256 to_bytes g peer frame = Ok packet"
  proof -
    have table: "authorized_table (fw_routes g)" using routes by simp
    show ?thesis
      unfolding accept_stream_routed_iff [OF table]
      using owner len fits(2) sender prepared(2) routes(2) by (simp add: frame_def header_new_def)
  qed
  ultimately show ?thesis using wf unfolding frame_def by blast
qed

text \<open>
  C1: a packet read from one tunnel and prepared for a peer is framed, written to a packet stream,
  read back whatever follows it on the stream, and handed byte for byte to the tunnel of that peer, when
  both sides hold the same routes, the receiver knows the sender, and the packet fits the MTUs and the
  reader's limit.
\<close>

theorem packet_delivered_over_stream:
  fixes f g :: "'l forwarder"
  assumes "authorized_table (fw_routes f)" and "fw_routes g = fw_routes f"
    and "prepare_tun_packet f now packet = (Ok p, f')" and "pkt_peer p = fw_local_peer g"
    and "peer \<in> fw_authorized_peers g" and "from_libp2p sha256 to_bytes peer = fw_local_peer f"
    and "length packet \<le> unat mtu" and "length packet \<le> fw_mtu g" and "length packet \<le> limit"
  shows "\<exists>frame. queued_packet_frame_with_mtu f' p mtu = Ok frame \<and>
    read_futures_frame limit (write_futures_frame frame @ rest) = Ok (frame, rest) \<and>
    accept_inbound_stream_packet sha256 to_bytes g peer frame = Ok packet"
proof -
  from delivered_frame [OF assms(1-8)] obtain frame where
    frame: "queued_packet_frame_with_mtu f' p mtu = Ok frame"
      "accept_inbound_stream_packet sha256 to_bytes g peer frame = Ok packet"
      "frame_payload frame = packet" "frame_wf frame" by auto
  moreover have "read_futures_frame limit (write_futures_frame frame @ rest) = Ok (frame, rest)"
    by (rule read_futures_frame_encode) (use frame assms(9) in \<open>simp add: frame_fits_def\<close>)
  ultimately show ?thesis by blast
qed

text \<open>
  C2: the same packet sent over the UDP packet plane. The sender's plane seals the frame under the session
  it uses for the peer; the receiver's plane, whose session for the sender opens with the same key and
  alone is behind the datagram's source, opens it, attributes it to the sender and, both replay checks
  finding the sequence new, the receiving forwarder delivers the original bytes.
\<close>

theorem packet_delivered_over_datagrams:
  fixes f g :: "'l forwarder" and a b :: plane_runtime and s s' :: plane_session
  assumes "authorized_table (fw_routes f)" and "fw_routes g = fw_routes f"
    and "prepare_tun_packet f now packet = (Ok p, f')" and "pkt_peer p = fw_local_peer g"
    and "peer \<in> fw_authorized_peers g" and "from_libp2p sha256 to_bytes peer = fw_local_peer f"
    and "length packet \<le> unat (ps_mtu s)" and "length packet \<le> fw_mtu g"
    and cipher: "aead_exact (chacha20_encrypt crypto) (chacha20_decrypt crypto)"
      "\<And>key nonce aad m. length m < 2 ^ 16 \<Longrightarrow> chacha20_encrypt crypto key nonce aad m \<noteq> None"
    and sending: "tx_session a (fw_local_peer g) sent = Some s" "i < length (pr_sockets a)"
    and receiving: "hm_get (pr_sessions b) (fw_local_peer f) = Some s'" "j < length (pr_sockets b)"
      "hm_get (pr_session_endpoints b) source = Some [fw_local_peer f]"
    and keys: "sk_seal (ps_keys s) = sk_open (ps_keys s')"
    and fits: "length packet \<le> unat (ps_mtu s')" "length packet \<le> PACKET_PLANE_MAX_PAYLOAD_LEN"
    and new: "fst (accept_datagram_at s' \<lparr>frame_header = header_new IpPacket (fw_session_id f)
          (fw_next_sequence f) (word_of_nat (length packet)), frame_payload = packet\<rparr> received) = Ok ()"
      "fst (accept_sequence_at g (fw_local_peer f) (fw_session_id f) (fw_next_sequence f) received) = Ok ()"
  shows "\<exists>frame datagram b' rf.
    queued_packet_frame_with_mtu f' p (ps_mtu s) = Ok frame \<and>
    send_frame_to_peer_from crypto a i (fw_local_peer g) frame sent = Ok (ps_endpoint s, datagram) \<and>
    recv_frame_from_session_on crypto b j datagram source received = Some (Ok rf, b') \<and>
    rf_frame rf = frame \<and> rf_peer rf = Some (fw_local_peer f) \<and>
    fst (accept_inbound_packet sha256 to_bytes g peer (rf_frame rf) received) = Ok packet"
proof -
  from delivered_frame [OF assms(1-8)] obtain frame where
    frame: "queued_packet_frame_with_mtu f' p (ps_mtu s) = Ok frame"
      "accept_inbound_stream_packet sha256 to_bytes g peer frame = Ok packet"
    and eq: "frame = \<lparr>frame_header = header_new IpPacket (fw_session_id f) (fw_next_sequence f)
               (word_of_nat (length packet)), frame_payload = packet\<rparr>" and wf: "frame_wf frame" by blast
  have "length (frame_encode frame) < 2 ^ 16"
    using fits(2) by (simp add: frame_encode_def eq HEADER_LEN_def datagram_lengths)
  with wf fits(2) cipher(2) obtain d where
    d: "seal_frame (chacha20_encrypt crypto) (sk_seal (ps_keys s)) frame = Ok d"
    by (fastforce simp: seal_frame_Ok_iff frame_wf_def eq Let_def)
  have sent: "send_frame_to_peer_from crypto a i (fw_local_peer g) frame sent = Ok (ps_endpoint s, d)"
    using sending assms(7) d by (simp add: send_frame_to_peer_from_def send_frame_from_def eq)
  have opened: "open_frame (chacha20_decrypt crypto) (sk_open (ps_keys s')) d (unat (ps_mtu s')) = Ok frame"
    using open_frame_iff_sealed [OF cipher(1), of "sk_open (ps_keys s')" d "unat (ps_mtu s')" frame]
      d keys fits(1) by (simp add: eq header_new_def)
  have acc: "fst (accept_datagram_at s' frame received) = Ok ()" using new(1) by (simp add: eq)
  obtain b' where "open_session_datagram crypto b (fw_local_peer f) d received = Some (Ok frame, b')"
    using receiving(1) opened acc by (simp add: open_session_datagram_def case_prod_unfold Let_def)
  then have received: "recv_frame_from_session_on crypto b j d source received =
      Some (Ok \<lparr>rf_frame = frame, rf_peer = Some (fw_local_peer f), rf_remote_addr = source,
                rf_local_addr = pr_sockets b ! j\<rparr>, b')"
    using receiving by (auto simp: recv_frame_from_session_on_def hm_contains_def hm_get_def)
  have "fst (accept_inbound_packet sha256 to_bytes g peer frame received) = Ok packet"
    unfolding accept_inbound_packet_eq frame(2) using new(2) assms(6)
    by (simp add: eq header_new_def Let_def)
  with frame(1) sent received show ?thesis by fastforce
qed

text \<open>
  The witnesses send the packet of the peer with identifier 9 to the peer with identifier 1, whose
  forwarder has the same routes, over a stream and over a session whose two ends hold matching
  keys.
\<close>

definition sample_receiver :: "bytes forwarder" where
  "sample_receiver = sample_forwarder
     \<lparr>fw_local_peer := PeerId [1], fw_peers := [(PeerId [9], [9])], fw_authorized_peers := {[9]}\<rparr>"

definition sample_tx :: plane_session where
  "sample_tx = sample_session\<lparr>ps_peer := PeerId [1]\<rparr>"

definition sample_rx :: plane_session where
  "sample_rx = sample_session
     \<lparr>ps_peer := PeerId [9], ps_endpoint := SocketV4 0x0a000001 1, ps_role := Responder,
      ps_keys := \<lparr>sk_seal = accept_to_hello_label, sk_open = hello_to_accept_label\<rparr>\<rparr>"

definition sample_tx_plane :: plane_runtime where
  "sample_tx_plane = sample_bound\<lparr>pr_sessions := [(PeerId [1], sample_tx)]\<rparr>"

definition sample_rx_plane :: plane_runtime where
  "sample_rx_plane = sample_bound
     \<lparr>pr_sessions := [(PeerId [9], sample_rx)],
      pr_session_endpoints := [(SocketV4 0x0a000001 1, [PeerId [9]])]\<rparr>"

lemma sample_delivery:
  "authorized_table (fw_routes sample_forwarder)" "fw_routes sample_receiver = fw_routes sample_forwarder"
  "prepare_tun_packet sample_forwarder 0 sample_tun_packet =
     (Ok sample_prepared, snd (take_outbound_sequence sample_forwarder))"
  "pkt_peer sample_prepared = fw_local_peer sample_receiver"
  "[9] \<in> fw_authorized_peers sample_receiver" "from_libp2p id id [9] = fw_local_peer sample_forwarder"
  "length sample_tun_packet = 20" "fw_mtu sample_receiver = 64"
proof -
  show "prepare_tun_packet sample_forwarder 0 sample_tun_packet =
     (Ok sample_prepared, snd (take_outbound_sequence sample_forwarder))" by code_simp
  show "from_libp2p id id [9] = fw_local_peer sample_forwarder" by code_simp
qed (simp_all add: sample_receiver_def sample_forwarder_routes sample_prepared_def
    packet_new_for_session_def sample_tun_packet_def, simp add: sample_forwarder_def)

theorem packet_delivered_over_stream_witness:
  "\<exists>frame. read_futures_frame 64 (write_futures_frame frame @ [1, 2]) = Ok (frame, [1, 2]) \<and>
     accept_inbound_stream_packet id id sample_receiver [9] frame = Ok sample_tun_packet"
  using packet_delivered_over_stream [OF sample_delivery(1-6), where mtu = 60 and limit = 64 and rest = "[1, 2]"]
  by (auto simp: sample_delivery)

theorem packet_delivered_over_datagrams_witness:
  "\<exists>frame datagram b' rf.
     send_frame_to_peer_from sample_crypto sample_tx_plane 0 (PeerId [1]) frame 1 =
       Ok (SocketV4 0x0a000002 2, datagram) \<and>
     recv_frame_from_session_on sample_crypto sample_rx_plane 0 datagram (SocketV4 0x0a000001 1) 2 =
       Some (Ok rf, b') \<and>
     fst (accept_inbound_packet id id sample_receiver [9] (rf_frame rf) 2) = Ok sample_tun_packet"
proof -
  have local: "fw_local_peer sample_receiver = PeerId [1]" "fw_local_peer sample_forwarder = PeerId [9]"
    by (simp_all add: sample_receiver_def sample_forwarder_def)
  have new: "fst (accept_datagram_at sample_rx \<lparr>frame_header = header_new IpPacket (fw_session_id sample_forwarder)
        (fw_next_sequence sample_forwarder) (word_of_nat (length sample_tun_packet)),
        frame_payload = sample_tun_packet\<rparr> 2) = Ok ()"
    "fst (accept_sequence_at sample_receiver (fw_local_peer sample_forwarder) (fw_session_id sample_forwarder)
        (fw_next_sequence sample_forwarder) 2) = Ok ()"
    by code_simp+
  show ?thesis
    using packet_delivered_over_datagrams [OF sample_delivery(1-6), where s = sample_tx and s' = sample_rx and
        a = sample_tx_plane and b = sample_rx_plane and i = 0 and j = 0 and sent = 1 and received = 2 and
        source = "SocketV4 0x0a000001 1" and crypto = sample_crypto, OF _ _ sample_crypto_exact _ _ _ _ _ _ _ _ _ new]
    by (simp add: local sample_delivery sample_tx_def sample_rx_def sample_session_def sample_tx_plane_def
        sample_rx_plane_def sample_bound_def plane_bind_with_replay_window_limit_def plane_default_def
        tx_session_def hm_get_def sample_keys_def sample_crypto_def sample_encrypt_def datagram_lengths) blast
qed

end
